(* ===== verification/FiyPrelude.thy ===== *)
theory FiyPrelude
  imports Main "HOL-Library.Char_ord" "HOL-Library.List_Lexorder"
begin

text \<open>
  The generic layer of the development: the error values of the C++ library, byte strings with
  the operations of \<open>std::string\<close> and \<open>std::string_view\<close> that the sources use, ASCII character
  classes, decimal numbers, and ordered maps.

  \<^item> A \<open>std::string\<close> is a \<^typ>\<open>string\<close>; every \<^typ>\<open>char\<close> is one byte.
  \<^item> \<open>npos\<close> is \<open>None\<close>, any other position is \<open>Some i\<close>.
  \<^item> An exception, or behaviour the C++ standard leaves undefined, is a value of
    \<open>cxx_error\<close>; a function that may end so returns an \<open>'a result\<close>.
  \<^item> A \<open>std::map\<close> or \<open>std::unordered_map\<close> whose order the code does not observe is
    a map \<open>'k \<rightharpoonup> 'v\<close>; \<open>emplace\<close> keeps the value that is already there.
\<close>

section \<open>Errors\<close>

datatype cxx_error =
    RangeError
  | OutOfRange
  | InvalidArgument
  | LogicError
  | TypeError
  | DatabaseError
  | SslError
  | JsonError
  | RuntimeError
  | UndefinedBehaviour

type_synonym 'a result = "cxx_error + 'a"

definition bind_result :: "'a result \<Rightarrow> ('a \<Rightarrow> 'b result) \<Rightarrow> 'b result" where
  "bind_result r f = (case r of Inl e \<Rightarrow> Inl e | Inr x \<Rightarrow> f x)"

lemma bind_result_simps [simp]:
  "bind_result (Inl e) f = Inl e"
  "bind_result (Inr x) f = f x"
  by (simp_all add: bind_result_def)

lemma bind_result_Inr_iff:
  "bind_result r f = Inr y \<longleftrightarrow> (\<exists>x. r = Inr x \<and> f x = Inr y)"
  by (cases r) auto

named_theorems str_simps \<open>evaluation of the string operations\<close>

section \<open>Maps\<close>

definition map_emplace :: "('k \<rightharpoonup> 'v) \<Rightarrow> 'k \<Rightarrow> 'v \<Rightarrow> ('k \<rightharpoonup> 'v)" where
  "map_emplace m k v = (case m k of None \<Rightarrow> m(k \<mapsto> v) | Some _ \<Rightarrow> m)"

lemma map_emplace_apply:
  "map_emplace m k v x = (if x = k then (case m k of None \<Rightarrow> Some v | Some w \<Rightarrow> Some w) else m x)"
  by (simp add: map_emplace_def split: option.split)

lemma map_emplace_new [simp]: "m k = None \<Longrightarrow> map_emplace m k v = m(k \<mapsto> v)"
  by (simp add: map_emplace_def)

lemma map_emplace_old [simp]: "m k = Some w \<Longrightarrow> map_emplace m k v = m"
  by (simp add: map_emplace_def)

lemma dom_map_emplace [simp]: "dom (map_emplace m k v) = insert k (dom m)"
  by (auto simp: map_emplace_def dom_def split: option.splits)

section \<open>Searching and slicing strings\<close>

definition find_char :: "string \<Rightarrow> char \<Rightarrow> nat \<Rightarrow> nat option" where
  "find_char s c i =
     (let n = length (takeWhile (\<lambda>x. x \<noteq> c) (drop i s))
      in if i + n < length s then Some (i + n) else None)"

definition find_first_of :: "string \<Rightarrow> char list \<Rightarrow> nat \<Rightarrow> nat option" where
  "find_first_of s cs i =
     (let n = length (takeWhile (\<lambda>x. x \<notin> set cs) (drop i s))
      in if i + n < length s then Some (i + n) else None)"

definition starts_with :: "string \<Rightarrow> string \<Rightarrow> bool" where
  "starts_with s p \<longleftrightarrow> take (length p) s = p"

definition ends_with :: "string \<Rightarrow> string \<Rightarrow> bool" where
  "ends_with s p \<longleftrightarrow> length p \<le> length s \<and> drop (length s - length p) s = p"

text \<open>\<open>s.find(pat)\<close>, counted from the front of \<open>s\<close>; \<open>find_str_from\<close> is \<open>s.find(pat, i)\<close>.\<close>

fun find_str :: "string \<Rightarrow> string \<Rightarrow> nat option" where
  "find_str pat [] = (if pat = [] then Some 0 else None)"
| "find_str pat (x # xs) =
     (if starts_with (x # xs) pat then Some 0 else map_option Suc (find_str pat xs))"

definition find_str_from :: "string \<Rightarrow> string \<Rightarrow> nat \<Rightarrow> nat option" where
  "find_str_from s pat i =
     (if i \<le> length s then map_option (\<lambda>j. i + j) (find_str pat (drop i s)) else None)"

text \<open>\<open>s.substr(i, n)\<close>; with \<open>None\<close> for \<open>n = npos\<close>. The standard throws when \<open>i > s.size()\<close>.\<close>

definition substr :: "string \<Rightarrow> nat \<Rightarrow> nat \<Rightarrow> string" where
  "substr s i n = take n (drop i s)"

definition substr_to :: "string \<Rightarrow> nat \<Rightarrow> nat option \<Rightarrow> string" where
  "substr_to s i end_pos =
     (case end_pos of None \<Rightarrow> drop i s | Some e \<Rightarrow> take (e - i) (drop i s))"

lemma starts_with_iff: "starts_with s p \<longleftrightarrow> (\<exists>t. s = p @ t)"
proof
  assume "starts_with s p"
  then have "s = p @ drop (length p) s"
    by (metis append_take_drop_id starts_with_def)
  then show "\<exists>t. s = p @ t" ..
qed (auto simp: starts_with_def)

lemma starts_with_append [simp]: "starts_with (p @ t) p"
  by (simp add: starts_with_def)

lemma starts_with_Nil [simp]: "starts_with s []"
  by (simp add: starts_with_def)

lemma ends_with_iff: "ends_with s p \<longleftrightarrow> (\<exists>t. s = t @ p)"
proof
  assume "ends_with s p"
  then have "s = take (length s - length p) s @ p"
    by (metis append_take_drop_id ends_with_def)
  then show "\<exists>t. s = t @ p" ..
qed (auto simp: ends_with_def)

lemma find_char_Nil [simp]: "find_char [] c i = None"
  by (simp add: find_char_def)

lemma find_char_None_iff: "find_char s c i = None \<longleftrightarrow> c \<notin> set (drop i s)"
proof -
  let ?t = "takeWhile (\<lambda>x. x \<noteq> c) (drop i s)"
  have "i + length ?t < length s \<longleftrightarrow> c \<in> set (drop i s)"
  proof
    assume lt: "i + length ?t < length s"
    show "c \<in> set (drop i s)"
    proof (rule ccontr)
      assume "c \<notin> set (drop i s)"
      then have "?t = drop i s" by (auto simp: takeWhile_eq_all_conv)
      with lt show False by simp
    qed
  next
    assume c: "c \<in> set (drop i s)"
    then have "?t \<noteq> drop i s" by (metis set_takeWhileD)
    then have "length ?t < length (drop i s)"
      by (metis le_neq_implies_less length_takeWhile_le takeWhile_eq_take take_all_iff order_refl)
    then show "i + length ?t < length s" by simp
  qed
  then show ?thesis by (auto simp: find_char_def Let_def)
qed

lemma find_char_append_hit:
  "c \<notin> set xs \<Longrightarrow> find_char (xs @ c # ys) c 0 = Some (length xs)"
proof -
  assume c: "c \<notin> set xs"
  then have "takeWhile (\<lambda>x. x \<noteq> c) (xs @ c # ys) = xs"
    by (subst takeWhile_append2) auto
  then show ?thesis by (simp add: find_char_def)
qed

lemma find_char_Some_bound: "find_char s c i = Some k \<Longrightarrow> i \<le> k \<and> k < length s"
  by (auto simp: find_char_def Let_def split: if_splits)

lemma find_char_Some_nth: "find_char s c i = Some k \<Longrightarrow> s ! k = c"
proof -
  assume a: "find_char s c i = Some k"
  let ?t = "takeWhile (\<lambda>x. x \<noteq> c) (drop i s)"
  from a have k: "k = i + length ?t" "i + length ?t < length s"
    by (auto simp: find_char_def Let_def split: if_splits)
  then have "length ?t < length (drop i s)" by simp
  then have "\<not> (drop i s) ! length ?t \<noteq> c" by (rule nth_length_takeWhile)
  with k show ?thesis by simp
qed

lemma find_first_of_nth:
  assumes "find_first_of s cs i = Some k"
  shows "i \<le> k \<and> k < length s \<and> s ! k \<in> set cs"
proof -
  let ?t = "takeWhile (\<lambda>x. x \<notin> set cs) (drop i s)"
  from assms have k: "k = i + length ?t" "i + length ?t < length s"
    by (auto simp: find_first_of_def Let_def split: if_splits)
  then have "length ?t < length (drop i s)" by simp
  then have "\<not> (drop i s) ! length ?t \<notin> set cs" by (rule nth_length_takeWhile)
  with k show ?thesis by simp
qed

text \<open>A position found splits the string into the part before it, the character, the rest.\<close>

lemma find_char_split:
  assumes "find_char s c 0 = Some k"
  shows "s = take k s @ c # drop (Suc k) s \<and> c \<notin> set (take k s)"
proof -
  let ?t = "takeWhile (\<lambda>x. x \<noteq> c) s"
  from assms have k: "k = length ?t" "k < length s"
    by (auto simp: find_char_def Let_def split: if_splits)
  have "take k s = ?t" by (simp add: k takeWhile_eq_take [symmetric])
  then have "c \<notin> set (take k s)" by (auto dest: set_takeWhileD)
  moreover have "s ! k = c" using assms by (rule find_char_Some_nth)
  then have "s = take k s @ c # drop (Suc k) s"
    using k(2) by (metis id_take_nth_drop)
  ultimately show ?thesis by blast
qed

lemma find_str_bound: "find_str pat s = Some k \<Longrightarrow> k + length pat \<le> length s"
proof (induction s arbitrary: k)
  case (Cons x xs)
  show ?case
  proof (cases "starts_with (x # xs) pat")
    case True
    then obtain u where "x # xs = pat @ u" by (auto simp: starts_with_iff)
    then have "length pat \<le> length (x # xs)" by (metis length_append le_add1)
    with True Cons.prems show ?thesis by simp
  next
    case False
    with Cons.prems obtain k' where "find_str pat xs = Some k'" "k = Suc k'" by auto
    with Cons.IH show ?thesis by simp
  qed
qed (auto split: if_splits)

lemma find_str_from_bound:
  "find_str_from s pat i = Some j \<Longrightarrow> i \<le> j \<and> j + length pat \<le> length s"
  by (auto simp: find_str_from_def split: if_splits dest: find_str_bound)

section \<open>Character classes (the C locale, on bytes)\<close>

definition code :: "char \<Rightarrow> nat" where
  "code c = of_char c"

definition is_digit :: "char \<Rightarrow> bool" where
  "is_digit c \<longleftrightarrow> 48 \<le> code c \<and> code c \<le> 57"

definition is_upper :: "char \<Rightarrow> bool" where
  "is_upper c \<longleftrightarrow> 65 \<le> code c \<and> code c \<le> 90"

definition is_lower :: "char \<Rightarrow> bool" where
  "is_lower c \<longleftrightarrow> 97 \<le> code c \<and> code c \<le> 122"

definition is_alnum :: "char \<Rightarrow> bool" where
  "is_alnum c \<longleftrightarrow> is_digit c \<or> is_upper c \<or> is_lower c"

definition is_space :: "char \<Rightarrow> bool" where
  "is_space c \<longleftrightarrow> code c = 32 \<or> (9 \<le> code c \<and> code c \<le> 13)"

definition to_lower :: "char \<Rightarrow> char" where
  "to_lower c = (if is_upper c then char_of (code c + 32) else c)"

lemma code_Char [simp]: "code (Char b0 b1 b2 b3 b4 b5 b6 b7) = of_char (Char b0 b1 b2 b3 b4 b5 b6 b7)"
  by (simp only: code_def)

lemma code_less_256: "code c < 256"
  by (simp add: code_def)

lemma code_inject: "code c = code d \<longleftrightarrow> c = d"
  by (simp add: code_def)

lemma code_char_of: "n < 256 \<Longrightarrow> code (char_of n) = n"
  by (simp add: code_def)

section \<open>Decimal numbers\<close>

definition digit_char :: "nat \<Rightarrow> char" where
  "digit_char d = char_of (48 + d)"

fun show_nat :: "nat \<Rightarrow> string" where
  "show_nat n = (if n < 10 then [digit_char n] else show_nat (n div 10) @ [digit_char (n mod 10)])"

declare show_nat.simps [simp del]

definition show_int :: "int \<Rightarrow> string" where
  "show_int i = (if i < 0 then CHR ''-'' # show_nat (nat (- i)) else show_nat (nat i))"

lemma is_digit_digit_char: "d < 10 \<Longrightarrow> is_digit (digit_char d)"
  by (simp add: is_digit_def digit_char_def code_char_of)

lemma show_nat_digits: "\<forall>c \<in> set (show_nat n). is_digit c"
proof (induction n rule: show_nat.induct)
  case (1 n)
  show ?case
    by (subst show_nat.simps) (use "1.IH" in \<open>auto intro: is_digit_digit_char\<close>)
qed

lemma show_nat_nonempty: "show_nat n \<noteq> []"
  by (subst show_nat.simps) simp

text \<open>The value of a run of digits, read left to right.\<close>

fun read_digits :: "nat \<Rightarrow> string \<Rightarrow> nat" where
  "read_digits acc [] = acc"
| "read_digits acc (c # cs) = (if is_digit c then read_digits (10 * acc + (code c - 48)) cs else acc)"

lemma read_digits_append:
  "\<forall>c \<in> set xs. is_digit c \<Longrightarrow> read_digits acc (xs @ ys) = read_digits (read_digits acc xs) ys"
  by (induction xs arbitrary: acc) auto

lemma read_digits_show_nat: "read_digits 0 (show_nat n) = n"
proof (induction n rule: show_nat.induct)
  case (1 n)
  have d: "d < 10 \<Longrightarrow> code (digit_char d) - 48 = d" for d
    by (simp add: digit_char_def code_char_of)
  show ?case
  proof (cases "n < 10")
    case True
    then show ?thesis
      by (simp add: show_nat.simps [of n] is_digit_digit_char d)
  next
    case False
    with "1.IH" have IH: "read_digits 0 (show_nat (n div 10)) = n div 10" by simp
    have "read_digits 0 (show_nat n) = read_digits (n div 10) [digit_char (n mod 10)]"
      using False IH by (subst show_nat.simps) (simp add: read_digits_append show_nat_digits)
    also have "\<dots> = n"
      by (simp add: is_digit_digit_char d)
    finally show ?thesis .
  qed
qed

lemma show_nat_list_all: "list_all is_digit (show_nat n)"
  using show_nat_digits by (simp add: list_all_iff)

lemma show_nat_hd: "\<not> is_space (hd (show_nat n)) \<and> hd (show_nat n) \<notin> {CHR ''-'', CHR ''+''}"
proof -
  have "is_digit (hd (show_nat n))" using show_nat_digits show_nat_nonempty by (metis hd_in_set)
  then show ?thesis by (auto simp: is_digit_def is_space_def)
qed

lemma show_nat_length: "length (show_nat n) \<le> Suc k \<longleftrightarrow> n < 10 ^ Suc k"
proof (induction k arbitrary: n)
  case 0
  have "length (show_nat (n div 10)) > 0" using show_nat_nonempty by simp
  then show ?case by (subst show_nat.simps) simp
next
  case (Suc k)
  have "n div 10 < 10 ^ Suc k \<longleftrightarrow> n < 10 ^ Suc (Suc k)"
    by (simp add: div_less_iff_less_mult mult.commute)
  moreover have "(10::nat) ^ 1 \<le> 10 ^ Suc (Suc k)" by (rule power_increasing) simp_all
  then have "n < 10 \<Longrightarrow> n < 10 ^ Suc (Suc k)" by (simp del: power_Suc)
  ultimately show ?case using Suc.IH [of "n div 10"] by (subst show_nat.simps) auto
qed

end
