(* ===== verification/LruCache.thy ===== *)
theory LruCache
  imports FiyPrelude
begin

text \<open>
  \<open>util/LRUCache.hpp\<close>: a hash table of list iterators over a doubly linked list kept in order
  of use. The list is modelled with the identity of its nodes, because the hash table stores
  iterators and the code's correctness rests on them staying valid: a node is an address with
  its key and value, an iterator is the address of a node or the end of the list. Using an
  iterator that is not in the list is undefined behaviour in C++ and the value
  \<open>UndefinedBehaviour\<close> here.

  Shown: the invariant that ties the table to the list, kept by every operation; that with a
  positive capacity the cache refines a bounded list of recently used entries; what goes wrong
  with capacity 0.
\<close>

section \<open>Data\<close>

datatype iter = EndIter | NodeIter nat

type_synonym ('k, 'v) node = "nat \<times> 'k \<times> 'v"

record ('k, 'v) LRUCache =
  m_hash :: "'k \<rightharpoonup> iter"
  m_list :: "('k, 'v) node list"
  m_max_size :: nat
  next_address :: nat

text \<open>\<open>LRUCache(max_size)\<close>; \<open>next_address\<close> stands for the allocator.\<close>

definition lru_new :: "nat \<Rightarrow> ('k, 'v) LRUCache" where
  "lru_new n = \<lparr>m_hash = Map.empty, m_list = [], m_max_size = n, next_address = 0\<rparr>"

definition list_begin :: "('k, 'v) node list \<Rightarrow> iter" where
  "list_begin xs = (case xs of [] \<Rightarrow> EndIter | (a, _) # _ \<Rightarrow> NodeIter a)"

fun list_node :: "('k, 'v) node list \<Rightarrow> iter \<Rightarrow> ('k, 'v) node option" where
  "list_node xs EndIter = None"
| "list_node xs (NodeIter a) = find (\<lambda>nd. fst nd = a) xs"

definition list_erase :: "('k, 'v) node list \<Rightarrow> nat \<Rightarrow> ('k, 'v) node list" where
  "list_erase xs a = filter (\<lambda>nd. fst nd \<noteq> a) xs"

section \<open>Operations\<close>

text \<open>Both \<open>get\<close> overloads splice the node to the front and read its value.\<close>

definition lru_touch ::
  "('k, 'v) LRUCache \<Rightarrow> iter \<Rightarrow> (('k, 'v) LRUCache \<times> 'v) result" where
  "lru_touch c it =
     (case list_node (m_list c) it of
        None \<Rightarrow> Inl UndefinedBehaviour
      | Some nd \<Rightarrow> Inr (c\<lparr>m_list := nd # list_erase (m_list c) (fst nd)\<rparr>, snd (snd nd)))"

definition lru_get :: "('k, 'v) LRUCache \<Rightarrow> 'k \<Rightarrow> (('k, 'v) LRUCache \<times> 'v) result" where
  "lru_get c k = (case m_hash c k of None \<Rightarrow> Inl RangeError | Some it \<Rightarrow> lru_touch c it)"

definition lru_get_default ::
  "('k, 'v) LRUCache \<Rightarrow> 'k \<Rightarrow> 'v \<Rightarrow> (('k, 'v) LRUCache \<times> 'v) result" where
  "lru_get_default c k d = (case m_hash c k of None \<Rightarrow> Inr (c, d) | Some it \<Rightarrow> lru_touch c it)"

definition lru_set :: "('k, 'v) LRUCache \<Rightarrow> 'k \<Rightarrow> 'v \<Rightarrow> ('k, 'v) LRUCache result" where
  "lru_set c k v =
     (let a = next_address c;
          xs = (a, k, v) # m_list c
      in case m_hash c k of
           None \<Rightarrow>
             (let evict = length xs > m_max_size c;
                  h = (if evict then (m_hash c)(fst (snd (last xs)) := None) else m_hash c);
                  ys = (if evict then butlast xs else xs)
              in Inr (c\<lparr>m_hash := map_emplace h k (list_begin ys), m_list := ys,
                         next_address := Suc a\<rparr>))
         | Some it \<Rightarrow>
             (case list_node xs it of
                None \<Rightarrow> Inl UndefinedBehaviour
              | Some nd \<Rightarrow>
                  (let ys = list_erase xs (fst nd)
                   in Inr (c\<lparr>m_hash := (m_hash c)(k \<mapsto> list_begin ys), m_list := ys,
                              next_address := Suc a\<rparr>))))"

definition lru_drop :: "('k, 'v) LRUCache \<Rightarrow> 'k \<Rightarrow> ('k, 'v) LRUCache result" where
  "lru_drop c k =
     (case m_hash c k of
        None \<Rightarrow> Inr c
      | Some it \<Rightarrow>
          (case list_node (m_list c) it of
             None \<Rightarrow> Inl UndefinedBehaviour
           | Some nd \<Rightarrow> Inr (c\<lparr>m_hash := (m_hash c)(k := None),
                                m_list := list_erase (m_list c) (fst nd)\<rparr>)))"

definition lru_size :: "('k, 'v) LRUCache \<Rightarrow> nat" where
  "lru_size c = length (m_list c)"

definition lru_exists :: "('k, 'v) LRUCache \<Rightarrow> 'k \<Rightarrow> bool" where
  "lru_exists c k \<longleftrightarrow> m_hash c k \<noteq> None"

definition lru_empty :: "('k, 'v) LRUCache \<Rightarrow> bool" where
  "lru_empty c \<longleftrightarrow> m_list c = []"

section \<open>The invariant\<close>

text \<open>The table maps exactly the keys of the list, each to the node that holds it.\<close>

definition lru_inv :: "('k, 'v) LRUCache \<Rightarrow> bool" where
  "lru_inv c \<longleftrightarrow>
     distinct (map fst (m_list c)) \<and>
     distinct (map (fst \<circ> snd) (m_list c)) \<and>
     (\<forall>nd \<in> set (m_list c). fst nd < next_address c) \<and>
     m_hash c = map_of (map (\<lambda>(a, k, v). (k, NodeIter a)) (m_list c)) \<and>
     length (m_list c) \<le> m_max_size c"

definition lru_entries :: "('k, 'v) LRUCache \<Rightarrow> ('k \<times> 'v) list" where
  "lru_entries c = map snd (m_list c)"

text \<open>The specification: a list of entries, the most recently used first.\<close>

definition spec_put :: "nat \<Rightarrow> 'k \<Rightarrow> 'v \<Rightarrow> ('k \<times> 'v) list \<Rightarrow> ('k \<times> 'v) list" where
  "spec_put n k v es = take n ((k, v) # filter (\<lambda>e. fst e \<noteq> k) es)"

definition spec_touch :: "'k \<Rightarrow> ('k \<times> 'v) list \<Rightarrow> ('k \<times> 'v) list" where
  "spec_touch k es =
     (case map_of es k of None \<Rightarrow> es | Some v \<Rightarrow> (k, v) # filter (\<lambda>e. fst e \<noteq> k) es)"

definition spec_drop :: "'k \<Rightarrow> ('k \<times> 'v) list \<Rightarrow> ('k \<times> 'v) list" where
  "spec_drop k es = filter (\<lambda>e. fst e \<noteq> k) es"

lemma list_node_mem:
  "distinct (map fst xs) \<Longrightarrow> nd \<in> set xs \<Longrightarrow> list_node xs (NodeIter (fst nd)) = Some nd"
  by (induction xs) (auto simp: rev_image_eqI)

lemma list_node_Some: "list_node xs it = Some nd \<Longrightarrow> nd \<in> set xs \<and> it = NodeIter (fst nd)"
  by (cases it) (auto simp: find_Some_iff)

lemma map_of_nodes_None:
  "map_of (map (\<lambda>(a, k, v). (k, NodeIter a)) xs) k = None \<longleftrightarrow> k \<notin> (fst \<circ> snd) ` set xs"
  by (induction xs) auto

lemma map_of_nodes_mem:
  "distinct (map (fst \<circ> snd) xs) \<Longrightarrow> (a, k, v) \<in> set xs \<Longrightarrow>
   map_of (map (\<lambda>(a, k, v). (k, NodeIter a)) xs) k = Some (NodeIter a)"
  by (induction xs) (auto simp: rev_image_eqI)

lemma map_of_nodes_Some:
  "map_of (map (\<lambda>(a, k, v). (k, NodeIter a)) xs) k = Some it \<Longrightarrow>
   \<exists>a v. (a, k, v) \<in> set xs \<and> it = NodeIter a"
  by (induction xs) (auto split: if_splits)

lemma map_of_nodes_erase:
  "distinct (map fst xs) \<Longrightarrow> distinct (map (fst \<circ> snd) xs) \<Longrightarrow> (a, k, v) \<in> set xs \<Longrightarrow>
   map_of (map (\<lambda>(a, k, v). (k, NodeIter a)) (list_erase xs a)) =
   (map_of (map (\<lambda>(a, k, v). (k, NodeIter a)) xs))(k := None)"
proof (induction xs)
  case (Cons nd xs)
  obtain a' k' v' where nd: "nd = (a', k', v')" by (cases nd)
  show ?case
  proof (cases "a' = a")
    case True
    with Cons.prems nd have eq: "k' = k" "a \<notin> fst ` set xs" "k \<notin> (fst \<circ> snd) ` set xs"
      by (auto simp: rev_image_eqI)
    then have "list_erase xs a = xs"
      by (auto simp: list_erase_def filter_id_conv rev_image_eqI)
    moreover have "map_of (map (\<lambda>(a, k, v). (k, NodeIter a)) xs) k = None"
      using eq(3) by (simp add: map_of_nodes_None)
    ultimately show ?thesis
      using nd True eq(1) by (auto simp: list_erase_def fun_eq_iff)
  next
    case False
    with Cons.prems nd have mem: "(a, k, v) \<in> set xs" by auto
    with Cons.prems nd have "k' \<noteq> k" by (auto simp: rev_image_eqI)
    with Cons nd False mem show ?thesis by (auto simp: list_erase_def fun_eq_iff)
  qed
qed simp

lemma list_erase_subset: "set (list_erase xs a) \<subseteq> set xs"
  by (auto simp: list_erase_def)

lemma distinct_list_erase:
  "distinct (map f xs) \<Longrightarrow> distinct (map f (list_erase xs a))"
  by (simp add: list_erase_def distinct_map_filter)

lemma entries_list_erase:
  "distinct (map fst xs) \<Longrightarrow> distinct (map (fst \<circ> snd) xs) \<Longrightarrow> (a, k, v) \<in> set xs \<Longrightarrow>
   map snd (list_erase xs a) = filter (\<lambda>e. fst e \<noteq> k) (map snd xs)"
proof -
  assume d: "distinct (map fst xs)" "distinct (map (fst \<circ> snd) xs)" and m: "(a, k, v) \<in> set xs"
  have "(fst nd \<noteq> a) = (fst (snd nd) \<noteq> k)" if "nd \<in> set xs" for nd
    using d m that by (auto simp: distinct_map inj_on_def; force)
  then show ?thesis
    by (auto simp: list_erase_def filter_map comp_def intro!: arg_cong [where f = "map snd"] filter_cong)
qed

lemma entries_no_key:
  "k \<notin> (fst \<circ> snd) ` set xs \<Longrightarrow> filter (\<lambda>e. fst e \<noteq> k) (map snd xs) = map snd xs"
  by (auto simp: filter_id_conv rev_image_eqI)

lemma length_list_erase_mem:
  "distinct (map fst xs) \<Longrightarrow> (a, k, v) \<in> set xs \<Longrightarrow> Suc (length (list_erase xs a)) = length xs"
proof (induction xs)
  case (Cons nd xs)
  show ?case
  proof (cases "fst nd = a")
    case True
    with Cons.prems have "a \<notin> fst ` set xs" by auto
    then have "list_erase xs a = xs"
      by (auto simp: list_erase_def filter_id_conv rev_image_eqI)
    with True show ?thesis by (simp add: list_erase_def)
  next
    case False
    with Cons show ?thesis by (auto simp: list_erase_def)
  qed
qed simp

lemma lru_inv_lookup:
  assumes "lru_inv c" and "m_hash c k = Some it"
  obtains a v where "it = NodeIter a" and "(a, k, v) \<in> set (m_list c)"
    and "list_node (m_list c) it = Some (a, k, v)"
proof -
  from assms obtain a v where "(a, k, v) \<in> set (m_list c)" "it = NodeIter a"
    by (auto simp: lru_inv_def dest!: map_of_nodes_Some)
  moreover from this assms have "list_node (m_list c) it = Some (a, k, v)"
    using list_node_mem [of "m_list c" "(a, k, v)"] by (simp add: lru_inv_def)
  ultimately show ?thesis using that by blast
qed

lemma lru_new_inv: "lru_inv (lru_new n)"
  by (simp add: lru_inv_def lru_new_def)

lemma lru_touch_inv:
  assumes inv: "lru_inv c" and hit: "m_hash c k = Some it"
  shows "\<exists>c' v. lru_touch c it = Inr (c', v) \<and> lru_inv c' \<and>
           map_of (lru_entries c) k = Some v \<and> lru_entries c' = spec_touch k (lru_entries c)"
proof -
  from inv hit obtain a v where it: "it = NodeIter a" and mem: "(a, k, v) \<in> set (m_list c)"
    and nd: "list_node (m_list c) it = Some (a, k, v)"
    by (rule lru_inv_lookup)
  from inv have d: "distinct (map fst (m_list c))" "distinct (map (fst \<circ> snd) (m_list c))"
    by (auto simp: lru_inv_def)
  let ?xs = "list_erase (m_list c) a"
  let ?c = "c\<lparr>m_list := (a, k, v) # ?xs\<rparr>"
  have k: "k \<notin> (fst \<circ> snd) ` set ?xs"
    using map_of_nodes_erase [OF d mem] map_of_nodes_None [of ?xs k] by simp
  have a: "a \<notin> fst ` set ?xs" by (auto simp: list_erase_def)
  have "lru_inv ?c"
    using inv mem d k a distinct_list_erase [OF d(1)] distinct_list_erase [OF d(2)]
      map_of_nodes_erase [OF d mem] length_list_erase_mem [OF d(1) mem] list_erase_subset [of "m_list c" a]
    by (auto simp: lru_inv_def fun_eq_iff map_of_nodes_mem)
  moreover have v: "map_of (lru_entries c) k = Some v"
    using d(2) mem by (auto simp: lru_entries_def distinct_map comp_def intro!: map_of_is_SomeI image_eqI)
  moreover have "lru_entries ?c = spec_touch k (lru_entries c)"
    using v entries_list_erase [OF d mem] by (simp add: lru_entries_def spec_touch_def)
  ultimately show ?thesis
    using nd by (simp add: lru_touch_def)
qed


lemma lru_get_refines:
  assumes "lru_inv c"
  shows "(case lru_get c k of
            Inl e \<Rightarrow> e = RangeError \<and> map_of (lru_entries c) k = None
          | Inr (c', v) \<Rightarrow> lru_inv c' \<and> map_of (lru_entries c) k = Some v \<and>
              lru_entries c' = spec_touch k (lru_entries c))"
proof (cases "m_hash c k")
  case None
  with assms have "k \<notin> (fst \<circ> snd) ` set (m_list c)"
    by (simp add: lru_inv_def map_of_nodes_None)
  then have "map_of (lru_entries c) k = None"
    by (force simp: lru_entries_def map_of_eq_None_iff)
  with None show ?thesis by (simp add: lru_get_def)
next
  case (Some it)
  from lru_touch_inv [OF assms this] Some show ?thesis by (auto simp: lru_get_def)
qed

lemma map_of_nodes_butlast:
  "distinct (map (fst \<circ> snd) (xs @ [nd])) \<Longrightarrow>
   map_of (map (\<lambda>(a, k, v). (k, NodeIter a)) xs) =
   (map_of (map (\<lambda>(a, k, v). (k, NodeIter a)) (xs @ [nd])))(fst (snd nd) := None)"
proof -
  assume d: "distinct (map (fst \<circ> snd) (xs @ [nd]))"
  obtain a k v where nd: "nd = (a, k, v)" by (cases nd)
  with d have "map_of (map (\<lambda>(a, k, v). (k, NodeIter a)) xs) k = None"
    by (auto simp: map_of_nodes_None)
  with nd show ?thesis by (auto simp: fun_eq_iff map_add_def split: option.splits)
qed

lemma lru_set_refines:
  assumes inv: "lru_inv c" and pos: "0 < m_max_size c"
  shows "\<exists>c'. lru_set c k v = Inr c' \<and> lru_inv c' \<and> m_max_size c' = m_max_size c \<and>
           lru_entries c' = spec_put (m_max_size c) k v (lru_entries c)"
proof (cases "m_hash c k")
  case None
  let ?a = "next_address c"
  from None inv have new: "k \<notin> (fst \<circ> snd) ` set (m_list c)"
    by (simp add: lru_inv_def map_of_nodes_None)
  from inv have fresh: "?a \<notin> fst ` set (m_list c)" by (auto simp: lru_inv_def)
  show ?thesis
  proof (cases "length (m_list c) < m_max_size c")
    case True
    with None inv new fresh show ?thesis
      by (simp add: lru_set_def lru_inv_def list_begin_def lru_entries_def spec_put_def
          entries_no_key Let_def) (auto simp: less_Suc_eq)
  next
    case False
    with inv have full: "length (m_list c) = m_max_size c" by (simp add: lru_inv_def)
    with pos obtain ys nd where xs: "m_list c = ys @ [nd]"
      by (metis length_0_conv less_numeral_extra(3) rev_exhaust)
    have d: "distinct (map (fst \<circ> snd) (ys @ [nd]))" using inv xs by (simp add: lru_inv_def)
    have nk: "fst (snd nd) \<noteq> k" using new xs by auto
    let ?h = "(m_hash c)(fst (snd nd) := None)"
    let ?c = "c\<lparr>m_hash := ?h(k \<mapsto> NodeIter ?a), m_list := (?a, k, v) # ys, next_address := Suc ?a\<rparr>"
    have h: "?h = map_of (map (\<lambda>(a, k, v). (k, NodeIter a)) ys)"
      using map_of_nodes_butlast [OF d] inv xs by (simp add: lru_inv_def)
    have len: "Suc (length ys) = m_max_size c" using full xs by simp
    have "lru_set c k v = Inr ?c"
      using None full xs nk by (simp add: lru_set_def list_begin_def Let_def)
    moreover have "lru_inv ?c"
      unfolding lru_inv_def using inv xs new fresh len h by (auto simp: lru_inv_def less_Suc_eq)
    moreover have "lru_entries ?c = spec_put (m_max_size c) k v (lru_entries c)"
      using entries_no_key [OF new] xs len [symmetric] by (simp add: lru_entries_def spec_put_def)
    ultimately show ?thesis by auto
  qed
next
  case (Some it)
  from inv Some obtain a w where it: "it = NodeIter a" and mem: "(a, k, w) \<in> set (m_list c)"
    and nd: "list_node (m_list c) it = Some (a, k, w)"
    by (rule lru_inv_lookup)
  let ?n = "next_address c"
  from inv have d: "distinct (map fst (m_list c))" "distinct (map (fst \<circ> snd) (m_list c))"
    and fresh: "?n \<notin> fst ` set (m_list c)" and lt: "a < ?n"
    using mem by (auto simp: lru_inv_def)
  let ?xs = "list_erase (m_list c) a"
  have node: "list_node ((?n, k, v) # m_list c) it = Some (a, k, w)"
    using nd it lt by simp
  have er: "list_erase ((?n, k, v) # m_list c) a = (?n, k, v) # ?xs"
    using lt by (simp add: list_erase_def)
  have k: "k \<notin> (fst \<circ> snd) ` set ?xs"
    using map_of_nodes_erase [OF d mem] map_of_nodes_None [of ?xs k] by simp
  have len: "Suc (length ?xs) = length (m_list c)"
    by (rule length_list_erase_mem [OF d(1) mem])
  have n: "?n \<notin> fst ` set ?xs" using fresh list_erase_subset [of "m_list c" a] by auto
  have mn: "map_of (map (\<lambda>(a, k, v). (k, NodeIter a)) ?xs) = (m_hash c)(k := None)"
    using map_of_nodes_erase [OF d mem] inv by (simp add: lru_inv_def)
  have lx: "\<forall>nd \<in> set ?xs. fst nd < Suc ?n"
    using inv list_erase_subset [of "m_list c" a] by (auto simp: lru_inv_def less_Suc_eq)
  let ?c = "c\<lparr>m_hash := (m_hash c)(k \<mapsto> NodeIter ?n), m_list := (?n, k, v) # ?xs,
              next_address := Suc ?n\<rparr>"
  have "lru_set c k v = Inr ?c"
    using Some node er by (simp add: lru_set_def list_begin_def Let_def)
  moreover have "lru_inv ?c"
    using inv k n len mn lx distinct_list_erase [OF d(1)] distinct_list_erase [OF d(2)]
    by (auto simp: lru_inv_def fun_eq_iff)
  moreover have "lru_entries ?c = spec_put (m_max_size c) k v (lru_entries c)"
  proof -
    have "length ((k, v) # map snd ?xs) \<le> m_max_size c"
      using len inv by (simp add: lru_inv_def)
    then show ?thesis
      using entries_list_erase [OF d mem] by (simp add: lru_entries_def spec_put_def)
  qed
  ultimately show ?thesis by auto
qed

lemma lru_drop_refines:
  assumes inv: "lru_inv c"
  shows "\<exists>c'. lru_drop c k = Inr c' \<and> lru_inv c' \<and> m_max_size c' = m_max_size c \<and>
           lru_entries c' = spec_drop k (lru_entries c)"
proof (cases "m_hash c k")
  case None
  with inv have "k \<notin> (fst \<circ> snd) ` set (m_list c)"
    by (simp add: lru_inv_def map_of_nodes_None)
  with None inv show ?thesis
    by (simp add: lru_drop_def lru_entries_def spec_drop_def entries_no_key)
next
  case (Some it)
  from inv Some obtain a w where it: "it = NodeIter a" and mem: "(a, k, w) \<in> set (m_list c)"
    and nd: "list_node (m_list c) it = Some (a, k, w)"
    by (rule lru_inv_lookup)
  from inv have d: "distinct (map fst (m_list c))" "distinct (map (fst \<circ> snd) (m_list c))"
    by (auto simp: lru_inv_def)
  have "length (list_erase (m_list c) a) \<le> m_max_size c"
    using length_list_erase_mem [OF d(1) mem] inv by (simp add: lru_inv_def)
  then show ?thesis
    using Some nd inv map_of_nodes_erase [OF d mem] entries_list_erase [OF d mem]
      distinct_list_erase [OF d(1)] distinct_list_erase [OF d(2)] list_erase_subset [of "m_list c" a]
    by (auto simp: lru_drop_def lru_inv_def lru_entries_def spec_drop_def)
qed

section \<open>Clients of a cache\<close>

text \<open>
  What a client relies on: after a \<open>put\<close> the key is there with its new value, every other key
  keeps its value or is gone, after a \<open>purge\<close> the key is gone. It follows that the cache
  never answers with a value other than the last one written.
\<close>

locale put_purge_store =
  fixes ok :: "'c \<Rightarrow> bool"
    and peek :: "'c \<Rightarrow> 'k \<Rightarrow> 'v option"
    and put :: "'c \<Rightarrow> 'k \<Rightarrow> 'v \<Rightarrow> 'c result"
    and purge :: "'c \<Rightarrow> 'k \<Rightarrow> 'c result"
    and use :: "'c \<Rightarrow> 'k \<Rightarrow> ('c \<times> 'v) result"
  assumes put_law: "ok c \<Longrightarrow> \<exists>c'. put c k v = Inr c' \<and> ok c' \<and> peek c' k = Some v \<and>
      (\<forall>x. x \<noteq> k \<longrightarrow> peek c' x = None \<or> peek c' x = peek c x)"
    and purge_law: "ok c \<Longrightarrow> \<exists>c'. purge c k = Inr c' \<and> ok c' \<and> peek c' = (peek c)(k := None)"
    and use_law: "ok c \<Longrightarrow> use c k = Inr (c', v) \<Longrightarrow> ok c' \<and> peek c k = Some v \<and> peek c' = peek c"
begin

lemma put_coherent:
  "ok c \<Longrightarrow> peek c \<subseteq>\<^sub>m m \<Longrightarrow> put c k v = Inr c' \<Longrightarrow> ok c' \<and> peek c' \<subseteq>\<^sub>m m(k \<mapsto> v)"
  using put_law [of c k v] by (auto simp: map_le_def dom_def)

lemma purge_coherent:
  "ok c \<Longrightarrow> peek c \<subseteq>\<^sub>m m \<Longrightarrow> purge c k = Inr c' \<Longrightarrow> ok c' \<and> peek c' \<subseteq>\<^sub>m m(k := None)"
  using purge_law [of c k] by (auto simp: map_le_def dom_def)

lemma use_coherent:
  "ok c \<Longrightarrow> peek c \<subseteq>\<^sub>m m \<Longrightarrow> use c k = Inr (c', v) \<Longrightarrow> ok c' \<and> peek c' \<subseteq>\<^sub>m m \<and> m k = Some v"
  using use_law [of c k c' v] by (auto simp: map_le_def dom_def)

end

definition lru_ready :: "('k, 'v) LRUCache \<Rightarrow> bool" where
  "lru_ready c \<longleftrightarrow> lru_inv c \<and> 0 < m_max_size c"

definition lru_peek :: "('k, 'v) LRUCache \<Rightarrow> 'k \<Rightarrow> 'v option" where
  "lru_peek c = map_of (lru_entries c)"

lemma map_of_filter_key: "map_of (filter (\<lambda>e. fst e \<noteq> k) es) = (map_of es)(k := None)"
  by (induction es) (auto simp: fun_eq_iff)

lemma map_of_take_le:
  "map_of (take n es) x = None \<or> map_of (take n es) x = map_of es x"
proof (cases "map_of (take n es) x")
  case (Some v)
  then have "(map_of (drop n es) ++ map_of (take n es)) x = Some v" by simp
  then have "map_of (take n es @ drop n es) x = Some v" by (simp only: map_of_append)
  with Some show ?thesis by simp
qed simp

interpretation lru_store: put_purge_store lru_ready lru_peek lru_set lru_drop lru_get
proof unfold_locales
  fix c :: "('k, 'v) LRUCache" and k v
  assume ok: "lru_ready c"
  let ?es = "(k, v) # filter (\<lambda>e. fst e \<noteq> k) (lru_entries c)"
  from ok obtain c' where c': "lru_set c k v = Inr c'" "lru_inv c'" "m_max_size c' = m_max_size c"
    "lru_entries c' = spec_put (m_max_size c) k v (lru_entries c)"
    using lru_set_refines [of c k v] unfolding lru_ready_def by blast
  have "map_of (take (m_max_size c) ?es) k = Some v"
  proof -
    obtain m where "m_max_size c = Suc m" using ok by (auto simp: lru_ready_def gr0_conv_Suc)
    then show ?thesis by simp
  qed
  moreover have "\<forall>x. x \<noteq> k \<longrightarrow> map_of (take (m_max_size c) ?es) x = None \<or>
      map_of (take (m_max_size c) ?es) x = map_of (lru_entries c) x"
  proof (intro allI impI)
    fix x assume "x \<noteq> k"
    then have "map_of ?es x = map_of (lru_entries c) x" by (simp add: map_of_filter_key)
    with map_of_take_le [of "m_max_size c" ?es] show "map_of (take (m_max_size c) ?es) x = None \<or>
        map_of (take (m_max_size c) ?es) x = map_of (lru_entries c) x" by metis
  qed
  moreover have "lru_peek c' = map_of (take (m_max_size c) ?es)"
    by (simp only: c'(4) lru_peek_def spec_put_def)
  ultimately have "lru_peek c' k = Some v \<and>
      (\<forall>x. x \<noteq> k \<longrightarrow> lru_peek c' x = None \<or> lru_peek c' x = lru_peek c x)"
    by (simp only: lru_peek_def)
  moreover have "lru_ready c'" using c'(2,3) ok by (simp add: lru_ready_def)
  ultimately show "\<exists>c'. lru_set c k v = Inr c' \<and> lru_ready c' \<and> lru_peek c' k = Some v \<and>
      (\<forall>x. x \<noteq> k \<longrightarrow> lru_peek c' x = None \<or> lru_peek c' x = lru_peek c x)"
    using c'(1) by blast
next
  fix c :: "('k, 'v) LRUCache" and k
  assume ok: "lru_ready c"
  then obtain c' where "lru_drop c k = Inr c'" "lru_inv c'" "m_max_size c' = m_max_size c"
    "lru_entries c' = spec_drop k (lru_entries c)"
    using lru_drop_refines [of c k] unfolding lru_ready_def by blast
  moreover from this have "lru_peek c' = (lru_peek c)(k := None)"
    by (simp only: lru_peek_def spec_drop_def map_of_filter_key)
  ultimately show "\<exists>c'. lru_drop c k = Inr c' \<and> lru_ready c' \<and> lru_peek c' = (lru_peek c)(k := None)"
    using ok by (auto simp: lru_ready_def)
next
  fix c c' :: "('k, 'v) LRUCache" and k v
  assume ok: "lru_ready c" and hit: "lru_get c k = Inr (c', v)"
  from hit have m: "m_max_size c' = m_max_size c"
    by (auto simp: lru_get_def lru_touch_def split: option.splits)
  from ok hit have r: "lru_inv c'" "map_of (lru_entries c) k = Some v"
    "lru_entries c' = spec_touch k (lru_entries c)"
    using lru_get_refines [of c k] by (auto simp: lru_ready_def)
  then have "map_of (lru_entries c') = map_of (lru_entries c)"
    by (auto simp: spec_touch_def map_of_filter_key)
  with r ok m show "lru_ready c' \<and> lru_peek c k = Some v \<and> lru_peek c' = lru_peek c"
    by (simp add: lru_ready_def lru_peek_def)
qed

section \<open>Runs of operations\<close>

datatype ('k, 'v) lru_op = OpSet 'k 'v | OpGet 'k | OpDrop 'k

text \<open>A caller that catches the \<open>range_error\<close> of \<open>get\<close>; any other error stops the run.\<close>

fun lru_step :: "('k, 'v) LRUCache \<Rightarrow> ('k, 'v) lru_op \<Rightarrow> ('k, 'v) LRUCache result" where
  "lru_step c (OpSet k v) = lru_set c k v"
| "lru_step c (OpDrop k) = lru_drop c k"
| "lru_step c (OpGet k) =
     (case lru_get c k of
        Inl RangeError \<Rightarrow> Inr c
      | Inl e \<Rightarrow> Inl e
      | Inr (c', _) \<Rightarrow> Inr c')"

fun lru_run :: "('k, 'v) LRUCache \<Rightarrow> ('k, 'v) lru_op list \<Rightarrow> ('k, 'v) LRUCache result" where
  "lru_run c [] = Inr c"
| "lru_run c (e # es) = bind_result (lru_step c e) (\<lambda>c'. lru_run c' es)"

fun spec_step :: "nat \<Rightarrow> ('k \<times> 'v) list \<Rightarrow> ('k, 'v) lru_op \<Rightarrow> ('k \<times> 'v) list" where
  "spec_step n es (OpSet k v) = spec_put n k v es"
| "spec_step n es (OpDrop k) = spec_drop k es"
| "spec_step n es (OpGet k) = spec_touch k es"

fun written :: "('k \<rightharpoonup> 'v) \<Rightarrow> ('k, 'v) lru_op list \<Rightarrow> ('k \<rightharpoonup> 'v)" where
  "written m [] = m"
| "written m (OpSet k v # es) = written (m(k \<mapsto> v)) es"
| "written m (OpDrop k # es) = written (m(k := None)) es"
| "written m (OpGet k # es) = written m es"

lemma lru_step_refines:
  assumes ok: "lru_ready c"
  shows "\<exists>c'. lru_step c e = Inr c' \<and> lru_ready c' \<and> m_max_size c' = m_max_size c \<and>
           lru_entries c' = spec_step (m_max_size c) (lru_entries c) e"
proof (cases e)
  case (OpSet k v)
  with ok lru_set_refines [of c k v] show ?thesis by (auto simp: lru_ready_def)
next
  case (OpDrop k)
  with ok lru_drop_refines [of c k] show ?thesis by (auto simp: lru_ready_def)
next
  case (OpGet k)
  show ?thesis
  proof (cases "m_hash c k")
    case None
    with ok lru_get_refines [of c k] have "map_of (lru_entries c) k = None"
      by (simp add: lru_ready_def lru_get_def)
    with ok OpGet None show ?thesis
      by (simp add: lru_get_def spec_touch_def)
  next
    case (Some it)
    with ok obtain c' v where t: "lru_touch c it = Inr (c', v)" "lru_inv c'"
      "lru_entries c' = spec_touch k (lru_entries c)"
      using lru_touch_inv [of c k it] unfolding lru_ready_def by blast
    then have "m_max_size c' = m_max_size c" by (auto simp: lru_touch_def split: option.splits)
    with t Some ok OpGet show ?thesis by (simp add: lru_ready_def lru_get_def)
  qed
qed

lemma lru_run_ready:
  "lru_ready c \<Longrightarrow> \<exists>c'. lru_run c es = Inr c' \<and> lru_ready c' \<and>
     lru_entries c' = foldl (spec_step (m_max_size c)) (lru_entries c) es"
proof (induction es arbitrary: c)
  case (Cons e es)
  from lru_step_refines [OF Cons.prems] obtain c1 where
    c1: "lru_step c e = Inr c1" "lru_ready c1" "m_max_size c1 = m_max_size c"
    "lru_entries c1 = spec_step (m_max_size c) (lru_entries c) e" by blast
  with Cons.IH [OF c1(2)] show ?case by simp
qed simp

lemma lru_run_max_size:
  "lru_ready c \<Longrightarrow> lru_run c es = Inr c' \<Longrightarrow> m_max_size c' = m_max_size c"
proof (induction es arbitrary: c)
  case (Cons e es)
  from lru_step_refines [OF Cons.prems(1), of e] obtain c1 where
    "lru_step c e = Inr c1" "lru_ready c1" "m_max_size c1 = m_max_size c" by blast
  with Cons.IH [of c1] Cons.prems(2) show ?case by simp
qed simp

lemma lru_step_coherent:
  "lru_ready c \<Longrightarrow> lru_peek c \<subseteq>\<^sub>m m \<Longrightarrow> lru_step c e = Inr c' \<Longrightarrow>
   lru_ready c' \<and> lru_peek c' \<subseteq>\<^sub>m written m [e]"
  by (cases e)
    (auto dest: lru_store.put_coherent lru_store.purge_coherent lru_store.use_coherent
      split: sum.splits cxx_error.splits prod.splits)

lemma written_Cons: "written m (e # es) = written (written m [e]) es"
  by (cases e) auto

lemma lru_run_coherent:
  "lru_ready c \<Longrightarrow> lru_peek c \<subseteq>\<^sub>m m \<Longrightarrow> lru_run c es = Inr c' \<Longrightarrow>
   lru_ready c' \<and> lru_peek c' \<subseteq>\<^sub>m written m es"
proof (induction es arbitrary: c m)
  case (Cons e es)
  from Cons.prems(3) obtain c1 where "lru_step c e = Inr c1" "lru_run c1 es = Inr c'"
    by (auto simp: bind_result_Inr_iff)
  with Cons.IH Cons.prems lru_step_coherent [of c m e c1] show ?case
    by (subst written_Cons) blast
qed simp

lemma lru_new_ready: "0 < n \<Longrightarrow> lru_ready (lru_new n)"
  using lru_new_inv [of n] by (simp add: lru_ready_def lru_new_def)

section \<open>Properties\<close>

text \<open>
  C3. A cache of positive capacity is a bounded list in order of use: from the empty cache, any
  sequence of \<open>set\<close>, \<open>get\<close> and \<open>drop\<close> ends without an error, never
  holds more than the capacity, and its entries, the most recently used first, are those of the
  list specification. In particular no stored iterator ever dangles.
\<close>

theorem lru_run_refines:
  "0 < n \<Longrightarrow> \<exists>c. lru_run (lru_new n) es = Inr c \<and> lru_size c \<le> n \<and>
     lru_entries c = foldl (spec_step n) [] es"
proof -
  assume n: "0 < n"
  have "lru_entries (lru_new n) = []" "m_max_size (lru_new n) = n"
    by (simp_all add: lru_new_def lru_entries_def)
  with lru_run_ready [OF lru_new_ready [OF n], of es] obtain c where
    c: "lru_run (lru_new n) es = Inr c" "lru_ready c" "lru_entries c = foldl (spec_step n) [] es"
    by metis
  moreover have "m_max_size c = n"
    using lru_run_max_size [OF lru_new_ready [OF n] c(1)] by (simp add: lru_new_def)
  ultimately show ?thesis by (auto simp: lru_ready_def lru_inv_def lru_size_def)
qed

theorem lru_run_refines_witness:
  "\<exists>c. lru_run (lru_new 2) [OpSet (1::nat) ''a'', OpSet 2 ''b'', OpGet 1, OpSet 3 ''c''] = Inr c \<and>
     lru_size c \<le> 2 \<and> lru_entries c = [(3, ''c''), (1, ''a'')]"
  using lru_run_refines [of 2 "[OpSet (1::nat) ''a'', OpSet 2 ''b'', OpGet 1, OpSet 3 ''c'']"]
  by (simp add: spec_put_def spec_touch_def)

text \<open>
  The cache never answers with stale data: after any sequence of operations on a new cache,
  a value returned by \<open>get\<close> is the last one \<open>set\<close> for that key and not dropped since.
\<close>

theorem lru_get_last_written:
  assumes "0 < n" and "lru_run (lru_new n) es = Inr c" and "lru_get c k = Inr (c', v)"
  shows "written Map.empty es k = Some v"
proof -
  have "lru_peek (lru_new n) \<subseteq>\<^sub>m Map.empty"
    by (simp add: lru_peek_def lru_entries_def lru_new_def)
  from lru_run_coherent [OF lru_new_ready [OF assms(1)] this assms(2)]
  have c: "lru_ready c" "lru_peek c \<subseteq>\<^sub>m written Map.empty es" by simp_all
  from lru_store.use_coherent [OF c assms(3)] show ?thesis by simp
qed

theorem lru_get_last_written_witness:
  "written Map.empty [OpSet (1::nat) ''a'', OpSet 1 ''b''] 1 = Some ''b''"
proof -
  let ?es = "[OpSet (1::nat) ''a'', OpSet 1 ''b'']"
  obtain c where c: "lru_run (lru_new 1) ?es = Inr c" "lru_get c 1 = Inr (c, ''b'')"
    by (simp add: lru_set_def lru_new_def list_begin_def list_erase_def lru_get_def lru_touch_def)
  show ?thesis by (rule lru_get_last_written [OF _ c]) simp
qed

text \<open>
  With capacity 0 the cache is broken: \<open>set\<close> evicts the node it has just inserted and then
  stores the iterator of the empty list, so the key counts as present and \<open>get\<close> of it
  dereferences the end of the list.
\<close>

theorem lru_capacity_zero_dangles:
  "\<exists>c. lru_set (lru_new 0) k v = Inr c \<and> lru_exists c k \<and> lru_size c = 0 \<and>
     lru_get c k = Inl UndefinedBehaviour"
  by (simp add: lru_set_def lru_new_def list_begin_def lru_exists_def lru_size_def lru_get_def
      lru_touch_def)

end
