(* ===== verification/WebUtils.thy ===== *)
theory WebUtils
  imports FiyPrelude
begin

text \<open>
  \<open>util/WebUtils.cpp\<close> and \<open>util/WebUtils.hpp\<close>: percent coding, form bodies, cookies, query strings.
  A loop over an index \<open>i\<close> of a string is a recursion over the suffix from \<open>i\<close> on: \<open>data[i]\<close> is the
  head of the suffix and \<open>i + 2 < len\<close> says that two more characters follow it.

  Shown: \<open>uri_decode\<close> inverts \<open>uri_encode\<close>; encoded text holds only characters of the cookie and form
  alphabets; a form body and a cookie header that were written with these functions parse back to
  what was written; what a \<open>Set-Cookie\<close> value may contain.
\<close>

section \<open>Percent coding\<close>

definition hex_nibble :: "nat \<Rightarrow> char" where
  "hex_nibble n = char_of (if n > 9 then n + (65 - 10) else n + 48)"

definition charToHex :: "char \<Rightarrow> string" where
  "charToHex c = [hex_nibble (code c div 16), hex_nibble (code c mod 16)]"

definition is_xdigit :: "char \<Rightarrow> bool" where
  "is_xdigit c \<longleftrightarrow> is_digit c \<or> (65 \<le> code c \<and> code c \<le> 70) \<or> (97 \<le> code c \<and> code c \<le> 102)"

definition hex_value :: "char \<Rightarrow> nat" where
  "hex_value c =
     (if is_digit c then code c - 48
      else if 97 \<le> code c \<and> code c \<le> 102 then code c - 97 + 10
      else if 65 \<le> code c \<and> code c \<le> 70 then code c - 65 + 10
      else code c)"

fun uri_decode :: "string \<Rightarrow> string" where
  "uri_decode [] = []"
| "uri_decode (c # rest) =
     (if c = CHR ''+'' then CHR '' '' # uri_decode rest
      else if c = CHR ''%'' then
        (case rest of
           h1 # h2 # rest' \<Rightarrow>
             (if is_xdigit h1 \<and> is_xdigit h2
              then char_of (hex_value h1 * 16 + hex_value h2) # uri_decode rest'
              else CHR ''%'' # uri_decode rest)
         | _ \<Rightarrow> CHR ''%'' # uri_decode rest)
      else c # uri_decode rest)"

declare uri_decode.simps(2) [simp del]

definition uri_unreserved :: "char \<Rightarrow> bool" where
  "uri_unreserved c \<longleftrightarrow> is_alnum c \<or> c \<in> set ''-_.!~*()''"

fun uri_encode :: "string \<Rightarrow> string" where
  "uri_encode [] = []"
| "uri_encode (c # cs) =
     (if c = CHR '' '' then CHR ''+'' # uri_encode cs
      else if uri_unreserved c then c # uri_encode cs
      else CHR ''%'' # charToHex c @ uri_encode cs)"

section \<open>Form bodies\<close>

text \<open>
  One iteration reads a key up to \<open>=\<close> and a value up to \<open>&\<close>; \<open>i\<close> then skips the \<open>&\<close>. The loop ends
  when nothing is left. \<open>None\<close> is the return value false; the pairs read before an error stay in the
  output parameter, which both callers discard.
\<close>

function parse_form_loop ::
  "string \<Rightarrow> (string \<times> string) list \<Rightarrow> (string \<times> string) list option" where
  "parse_form_loop s ret =
     (let k = takeWhile (\<lambda>c. c \<noteq> CHR ''='') s;
          r1 = dropWhile (\<lambda>c. c \<noteq> CHR ''='') s
      in case r1 of
           [] \<Rightarrow> None
         | _ # r2 \<Rightarrow>
             (let key = uri_decode k;
                  value = uri_decode (takeWhile (\<lambda>c. c \<noteq> CHR ''&'') r2);
                  r3 = dropWhile (\<lambda>c. c \<noteq> CHR ''&'') r2
              in if key = [] then None
                 else if value = [] then None
                 else (case r3 of
                         [] \<Rightarrow> Some (ret @ [(key, value)])
                       | _ # r4 \<Rightarrow>
                           (if r4 = [] then Some (ret @ [(key, value)])
                            else parse_form_loop r4 (ret @ [(key, value)])))))"
  by pat_completeness auto
termination
proof (relation "measure (\<lambda>(s, ret). length s)", goal_cases)
  case (2 s ret k r1 c r2 key val r3 d r4)
  have "length (d # r4) \<le> length r2" "length (c # r2) \<le> length s"
    by (metis 2 length_dropWhile_le)+
  then show ?case by simp
qed simp

declare parse_form_loop.simps [simp del]

definition parse_form_url_encoded :: "string \<Rightarrow> (string \<times> string) list option" where
  "parse_form_url_encoded s = parse_form_loop s []"

section \<open>Cookies\<close>

definition cookie_space :: "char \<Rightarrow> bool" where
  "cookie_space c \<longleftrightarrow> code c \<in> {32, 9, 13, 10}"

definition trim :: "string \<Rightarrow> string" where
  "trim s = rev (dropWhile cookie_space (rev (dropWhile cookie_space s)))"

definition unquote :: "string \<Rightarrow> string" where
  "unquote s =
     (if 2 \<le> length s \<and> hd s = CHR 0x22 \<and> last s = CHR 0x22 then butlast (tl s) else s)"

definition parse_cookie_pair :: "(string \<rightharpoonup> string) \<Rightarrow> string \<Rightarrow> (string \<rightharpoonup> string)" where
  "parse_cookie_pair cookies pair =
     (case find_char pair (CHR ''='') 0 of
        None \<Rightarrow> cookies
      | Some eq_pos \<Rightarrow>
          (let key = trim (take eq_pos pair);
               val = unquote (trim (drop (Suc eq_pos) pair))
           in if key = [] then cookies else map_emplace cookies key val))"

function parse_cookies_loop :: "string \<Rightarrow> (string \<rightharpoonup> string) \<Rightarrow> (string \<rightharpoonup> string)" where
  "parse_cookies_loop header cookies =
     (if header = [] then cookies
      else case find_char header (CHR '';'') 0 of
             None \<Rightarrow> parse_cookie_pair cookies header
           | Some e \<Rightarrow>
               parse_cookies_loop (drop (Suc e) header) (parse_cookie_pair cookies (take e header)))"
  by pat_completeness auto
termination
  by (relation "measure (\<lambda>(s, cookies). length s)") auto

declare parse_cookies_loop.simps [simp del]

definition parse_cookies :: "string \<Rightarrow> (string \<rightharpoonup> string)" where
  "parse_cookies header = parse_cookies_loop header Map.empty"

text \<open>\<open>encode_fn\<close> is a function pointer: \<open>None\<close> is \<open>nullptr\<close>.\<close>

record CookieOptions =
  encode_fn :: "(string \<Rightarrow> string) option"
  max_age :: int
  expires :: string
  cookie_domain :: string
  cookie_path :: string
  http_only :: bool
  secure :: bool
  partitioned :: bool
  priority :: string
  same_site :: string

definition default_cookie_options :: CookieOptions where
  "default_cookie_options = \<lparr>encode_fn = Some uri_encode, max_age = -1, expires = [],
     cookie_domain = [], cookie_path = [], http_only = False, secure = False,
     partitioned = False, priority = [], same_site = []\<rparr>"

definition in_range :: "nat \<Rightarrow> nat \<Rightarrow> char \<Rightarrow> bool" where
  "in_range lo hi c \<longleftrightarrow> lo \<le> code c \<and> code c \<le> hi"

lemma in_range_Char [simp]:
  "in_range lo hi (Char b0 b1 b2 b3 b4 b5 b6 b7) \<longleftrightarrow>
   lo \<le> code (Char b0 b1 b2 b3 b4 b5 b6 b7) \<and> code (Char b0 b1 b2 b3 b4 b5 b6 b7) \<le> hi"
  by (simp only: in_range_def)

definition cookie_name_char :: "char \<Rightarrow> bool" where
  "cookie_name_char c \<longleftrightarrow> in_range 0x21 0x3A c \<or> code c = 0x3C \<or> in_range 0x3E 0x7E c"

definition cookie_value_char :: "char \<Rightarrow> bool" where
  "cookie_value_char c \<longleftrightarrow> in_range 0x21 0x3A c \<or> in_range 0x3C 0x7E c"

definition path_value_char :: "char \<Rightarrow> bool" where
  "path_value_char c \<longleftrightarrow> in_range 0x20 0x3A c \<or> in_range 0x3D 0x7E c"

definition cookie_name_regex :: "string \<Rightarrow> bool" where
  "cookie_name_regex s \<longleftrightarrow> s \<noteq> [] \<and> list_all cookie_name_char s"

definition cookie_value_regex :: "string \<Rightarrow> bool" where
  "cookie_value_regex s \<longleftrightarrow> list_all cookie_value_char s"

definition path_value_regex :: "string \<Rightarrow> bool" where
  "path_value_regex s \<longleftrightarrow> list_all path_value_char s"

text \<open>
  \<open>domain_value_regex\<close>, read off the expression: an optional dot, then labels separated by dots, each
  of 1 to 63 letters, digits and hyphens that neither starts nor ends with a hyphen.
\<close>

fun split_on :: "char \<Rightarrow> string \<Rightarrow> string list" where
  "split_on d [] = [[]]"
| "split_on d (c # cs) =
     (if c = d then [] # split_on d cs
      else (case split_on d cs of [] \<Rightarrow> [[c]] | p # ps \<Rightarrow> (c # p) # ps))"

definition domain_label :: "string \<Rightarrow> bool" where
  "domain_label l \<longleftrightarrow> l \<noteq> [] \<and> length l \<le> 63 \<and> list_all (\<lambda>c. is_alnum c \<or> c = CHR ''-'') l \<and>
     is_alnum (hd l) \<and> is_alnum (last l)"

definition domain_value_regex :: "string \<Rightarrow> bool" where
  "domain_value_regex s \<longleftrightarrow>
     list_all domain_label (split_on (CHR ''.'') (if s \<noteq> [] \<and> hd s = CHR ''.'' then tl s else s))"

text \<open>\<open>serialize_cookie(name, value)\<close>: an invalid value is reported but still used.\<close>

definition serialize_cookie :: "string \<Rightarrow> string \<Rightarrow> string" where
  "serialize_cookie name value =
     (if \<not> cookie_name_regex name then [] else name @ ''='' @ uri_encode value)"

definition priority_attribute :: "string \<Rightarrow> string" where
  "priority_attribute p =
     (case p of
        [] \<Rightarrow> []
      | c # _ \<Rightarrow>
          (if c \<in> set ''lL'' then ''; Priority=Low''
           else if c \<in> set ''mM'' then ''; Priority=Medium''
           else if c \<in> set ''hH'' then ''; Priority=High''
           else []))"

definition same_site_attribute :: "string \<Rightarrow> string" where
  "same_site_attribute p =
     (case p of
        [] \<Rightarrow> []
      | c # _ \<Rightarrow>
          (if c \<in> set ''tsS'' then ''; SameSite=Strict''
           else if c \<in> set ''lL'' then ''; SameSite=Lax''
           else if c \<in> set ''nN'' then ''; SameSite=None''
           else []))"

definition serialize_cookie_options :: "string \<Rightarrow> string \<Rightarrow> CookieOptions \<Rightarrow> string" where
  "serialize_cookie_options name value0 options =
     (let value = (case encode_fn options of Some f \<Rightarrow> f value0 | None \<Rightarrow> value0)
      in if \<not> cookie_name_regex name then []
         else if \<not> cookie_value_regex value then []
         else name @ ''='' @ value
           @ (if max_age options \<ge> 0 then ''; Max-Age='' @ show_int (max_age options) else [])
           @ (if cookie_domain options = [] \<or> \<not> domain_value_regex (cookie_domain options) then []
              else ''; Domain='' @ cookie_domain options)
           @ (if cookie_path options = [] \<or> \<not> path_value_regex (cookie_path options) then []
              else ''; Path='' @ cookie_path options)
           @ (if expires options = [] then [] else ''; Expires='' @ expires options)
           @ (if http_only options then ''; HttpOnly'' else [])
           @ (if secure options then ''; Secure'' else [])
           @ (if partitioned options then ''; Partitioned'' else [])
           @ priority_attribute (priority options)
           @ same_site_attribute (same_site options))"

section \<open>Query strings\<close>

text \<open>
  \<open>parse_query_string\<close>: \<open>start\<close> is the position of the separator, so every key begins with the
  \<open>?\<close> or \<open>&\<close> before it. Only the position \<open>end\<close> of the \emph{first} \<open>&\<close> from \<open>start\<close> on is used; since
  \<open>path[start]\<close> is that very \<open>&\<close> from the second round on, the loop does not move. It is modelled
  with fuel, \<open>None\<close> for a loop that has not ended.
\<close>

fun parse_query_loop ::
  "nat \<Rightarrow> string \<Rightarrow> nat option \<Rightarrow> (string \<rightharpoonup> string) \<Rightarrow> (string \<rightharpoonup> string) option" where
  "parse_query_loop 0 path start ret = None"
| "parse_query_loop (Suc fuel) path start ret =
     (case start of
        None \<Rightarrow> Some ret
      | Some st \<Rightarrow>
          (let eq = find_char path (CHR ''='') st;
               e = find_char path (CHR ''&'') st
           in case (eq, e) of
                (None, None) \<Rightarrow> Some (map_emplace ret (drop st path) [])
              | (None, Some e') \<Rightarrow>
                  parse_query_loop fuel path e (map_emplace ret (substr path st (e' - st)) [])
              | (Some q, None) \<Rightarrow>
                  Some (map_emplace ret (substr path st (q - st)) (drop (q + 1) path))
              | (Some q, Some e') \<Rightarrow>
                  (if q + 1 \<le> e'
                   then parse_query_loop fuel path e
                          (map_emplace ret (substr path st (q - st)) (substr path (q + 1) (e' - q - 1)))
                   else parse_query_loop fuel path e
                          (map_emplace ret (substr path st (q - st)) (drop (q + 1) path)))))"

definition parse_query_string :: "nat \<Rightarrow> string \<Rightarrow> (string \<rightharpoonup> string) option" where
  "parse_query_string fuel path = parse_query_loop fuel path (find_char path (CHR ''?'') 0) Map.empty"

section \<open>Percent coding: lemmas\<close>

lemma hex_nibble_xdigit: "n < 16 \<Longrightarrow> is_xdigit (hex_nibble n)"
  by (auto simp: is_xdigit_def is_digit_def hex_nibble_def code_char_of)

lemma hex_value_nibble: "n < 16 \<Longrightarrow> hex_value (hex_nibble n) = n"
  by (auto simp: hex_value_def is_digit_def hex_nibble_def code_char_of)

lemma hex_nibble_alnum: "n < 16 \<Longrightarrow> is_alnum (hex_nibble n)"
  by (auto simp: is_alnum_def is_digit_def is_upper_def hex_nibble_def code_char_of)

lemma hex_pair: "char_of (hex_value (hex_nibble (code c div 16)) * 16 +
    hex_value (hex_nibble (code c mod 16))) = c"
proof -
  have "code c div 16 < 16" using code_less_256 [of c] by simp
  then show ?thesis by (simp add: hex_value_nibble) (simp add: code_def)
qed

lemma unreserved_not_special: "uri_unreserved c \<Longrightarrow> c \<notin> set '' +%=&;''"
  by (auto simp: uri_unreserved_def is_alnum_def is_digit_def is_upper_def is_lower_def code_def)

lemma uri_decode_plus: "uri_decode (CHR ''+'' # t) = CHR '' '' # uri_decode t"
  by (simp add: uri_decode.simps)

lemma uri_decode_plain: "c \<noteq> CHR ''+'' \<Longrightarrow> c \<noteq> CHR ''%'' \<Longrightarrow> uri_decode (c # t) = c # uri_decode t"
  by (subst uri_decode.simps) simp

lemma uri_decode_hex:
  "is_xdigit h1 \<Longrightarrow> is_xdigit h2 \<Longrightarrow> uri_decode (CHR ''%'' # h1 # h2 # t) =
   char_of (hex_value h1 * 16 + hex_value h2) # uri_decode t"
  by (subst uri_decode.simps) simp

lemma uri_decode_encode_append: "uri_decode (uri_encode s @ t) = s @ uri_decode t"
proof (induction s)
  case (Cons c s)
  have "code c div 16 < 16" "code c mod 16 < 16" using code_less_256 [of c] by simp_all
  then have hex: "uri_decode (CHR ''%'' # charToHex c @ t) = c # uri_decode t" for t
    by (simp only: charToHex_def append.simps uri_decode_hex hex_nibble_xdigit hex_pair)
  consider "c = CHR '' ''" | "c \<noteq> CHR '' ''" "uri_unreserved c" | "c \<noteq> CHR '' ''" "\<not> uri_unreserved c"
    by blast
  then show ?case
  proof cases
    case 2
    with Cons unreserved_not_special [of c] show ?thesis by (simp add: uri_decode_plain)
  next
    case 3
    with Cons hex [of "uri_encode s @ t"] show ?thesis by simp
  qed (use Cons in \<open>simp add: uri_decode_plus\<close>)
qed simp

lemma charToHex_unreserved: "x \<in> set (charToHex c) \<Longrightarrow> uri_unreserved x"
proof -
  have "code c div 16 < 16" "code c mod 16 < 16" using code_less_256 [of c] by simp_all
  moreover assume "x \<in> set (charToHex c)"
  ultimately show ?thesis by (auto simp only: charToHex_def list.set uri_unreserved_def hex_nibble_alnum)
qed

lemma uri_encode_alphabet: "c \<in> set (uri_encode s) \<Longrightarrow> uri_unreserved c \<or> c = CHR ''+'' \<or> c = CHR ''%''"
  by (induction s) (auto dest: charToHex_unreserved split: if_splits)

lemma unreserved_value_char: "uri_unreserved c \<Longrightarrow> cookie_value_char c"
  by (auto simp: uri_unreserved_def cookie_value_char_def in_range_def is_alnum_def is_digit_def
      is_upper_def is_lower_def code_def)

lemma uri_encode_value: "cookie_value_regex (uri_encode s)"
proof -
  have "cookie_value_char c" if "c \<in> set (uri_encode s)" for c
    using uri_encode_alphabet [OF that] unreserved_value_char [of c]
    by (auto simp: cookie_value_char_def in_range_def code_def)
  then show ?thesis by (simp add: cookie_value_regex_def list_all_iff)
qed

lemma uri_encode_no_separator: "c \<in> set (uri_encode s) \<Longrightarrow> c \<notin> set ''=&; ''"
  using uri_encode_alphabet [of c s] unreserved_not_special [of c] by auto

lemma uri_encode_eq_Nil [simp]: "uri_encode s = [] \<longleftrightarrow> s = []"
  by (cases s) auto

lemma uri_decode_encode: "uri_decode (uri_encode s) = s"
  using uri_decode_encode_append [of s "[]"] by simp

section \<open>Form bodies: lemmas\<close>

text \<open>The body a browser sends for a list of fields.\<close>

definition form_field :: "string \<times> string \<Rightarrow> string" where
  "form_field kv = uri_encode (fst kv) @ ''='' @ uri_encode (snd kv)"

fun form_body :: "(string \<times> string) list \<Rightarrow> string" where
  "form_body [] = []"
| "form_body [kv] = form_field kv"
| "form_body (kv # kvs) = form_field kv @ ''&'' @ form_body kvs"

lemma takeWhile_sep: "d \<notin> set xs \<Longrightarrow> takeWhile (\<lambda>c. c \<noteq> d) (xs @ d # ys) = xs"
  by (induction xs) auto

lemma dropWhile_sep: "d \<notin> set xs \<Longrightarrow> dropWhile (\<lambda>c. c \<noteq> d) (xs @ d # ys) = d # ys"
  by (induction xs) auto

lemma takeWhile_all: "d \<notin> set xs \<Longrightarrow> takeWhile (\<lambda>c. c \<noteq> d) xs = xs"
  by (induction xs) auto

lemma dropWhile_all: "d \<notin> set xs \<Longrightarrow> dropWhile (\<lambda>c. c \<noteq> d) xs = []"
  by (induction xs) auto

lemmas span_simps = takeWhile_sep dropWhile_sep takeWhile_all dropWhile_all

lemma encode_no_eq: "CHR ''='' \<notin> set (uri_encode s)" and encode_no_amp: "CHR ''&'' \<notin> set (uri_encode s)"
  using uri_encode_no_separator by fastforce+

lemma parse_form_last:
  "k \<noteq> [] \<Longrightarrow> v \<noteq> [] \<Longrightarrow> parse_form_loop (form_field (k, v)) ret = Some (ret @ [(k, v)])"
  by (subst parse_form_loop.simps)
    (simp add: form_field_def span_simps encode_no_eq encode_no_amp uri_decode_encode Let_def)

lemma parse_form_step:
  assumes "k \<noteq> []" and "v \<noteq> []" and "rest \<noteq> []"
  shows "parse_form_loop (form_field (k, v) @ ''&'' @ rest) ret = parse_form_loop rest (ret @ [(k, v)])"
proof -
  have "form_field (k, v) @ ''&'' @ rest =
      uri_encode k @ CHR ''='' # (uri_encode v @ CHR ''&'' # rest)"
    by (simp add: form_field_def)
  with assms show ?thesis
    by (subst parse_form_loop.simps)
      (simp add: span_simps encode_no_eq encode_no_amp uri_decode_encode Let_def)
qed

lemma form_body_nonempty: "kvs \<noteq> [] \<Longrightarrow> form_body kvs \<noteq> []"
  by (cases kvs rule: form_body.cases) (auto simp: form_field_def)

lemma parse_form_body:
  "kvs \<noteq> [] \<Longrightarrow> \<forall>(k, v) \<in> set kvs. k \<noteq> [] \<and> v \<noteq> [] \<Longrightarrow>
   parse_form_loop (form_body kvs) ret = Some (ret @ kvs)"
proof (induction kvs arbitrary: ret rule: form_body.induct)
  case (2 kv)
  then show ?case using parse_form_last [of "fst kv" "snd kv"] by auto
next
  case (3 kv kv' kvs)
  have "fst kv \<noteq> []" "snd kv \<noteq> []" "form_body (kv' # kvs) \<noteq> []"
    using "3.prems" by (auto simp: form_body_nonempty)
  with 3 show ?case using parse_form_step [of "fst kv" "snd kv" "form_body (kv' # kvs)"] by auto
qed simp

section \<open>Cookies: lemmas\<close>

lemma value_char_not_space: "cookie_value_char c \<Longrightarrow> \<not> cookie_space c"
  by (auto simp: cookie_value_char_def cookie_space_def in_range_def)

lemma value_char_not_semicolon: "cookie_value_char c \<Longrightarrow> c \<noteq> CHR '';''"
  by (auto simp: cookie_value_char_def in_range_def code_def)

lemma name_char_value: "cookie_name_char c \<Longrightarrow> cookie_value_char c \<and> c \<noteq> CHR ''=''"
  by (auto simp: cookie_name_char_def cookie_value_char_def in_range_def code_def)

lemma dropWhile_not: "list_all (\<lambda>c. \<not> P c) s \<Longrightarrow> dropWhile P s = s"
  by (cases s) auto

lemma trim_value: "cookie_value_regex s \<Longrightarrow> trim s = s"
proof -
  assume "cookie_value_regex s"
  then have "list_all (\<lambda>c. \<not> cookie_space c) s"
    by (simp add: cookie_value_regex_def list_all_iff value_char_not_space)
  then show ?thesis by (simp add: trim_def dropWhile_not)
qed

lemma trim_space_name: "cookie_name_regex s \<Longrightarrow> trim (CHR '' '' # s) = s"
proof -
  assume "cookie_name_regex s"
  then have "cookie_value_regex s"
    by (simp add: cookie_name_regex_def cookie_value_regex_def list_all_iff name_char_value)
  then have "trim s = s" by (rule trim_value)
  then show ?thesis by (simp add: trim_def cookie_space_def code_def)
qed

lemma name_value_regex: "cookie_name_regex s \<Longrightarrow> cookie_value_regex s"
  by (simp add: cookie_name_regex_def cookie_value_regex_def list_all_iff name_char_value)

lemma name_no_eq: "cookie_name_regex s \<Longrightarrow> CHR ''='' \<notin> set s"
  by (auto simp: cookie_name_regex_def list_all_iff dest: name_char_value)

lemma value_no_semicolon: "cookie_value_regex s \<Longrightarrow> CHR '';'' \<notin> set s"
  by (auto simp: cookie_value_regex_def list_all_iff dest: value_char_not_semicolon)

text \<open>A value that \<open>unquote\<close> leaves alone.\<close>

definition plain_value :: "string \<Rightarrow> bool" where
  "plain_value v \<longleftrightarrow> cookie_value_regex v \<and> unquote v = v"

lemma unquote_plain: "CHR 0x22 \<notin> set v \<Longrightarrow> unquote v = v"
  by (cases v) (auto simp: unquote_def)

lemma uri_encode_plain: "plain_value (uri_encode v)"
proof -
  have "CHR 0x22 \<notin> set (uri_encode v)"
    using uri_encode_alphabet [of "CHR 0x22" v]
    by (auto simp: uri_unreserved_def is_alnum_def is_digit_def is_upper_def is_lower_def code_def)
  then show ?thesis by (simp add: plain_value_def uri_encode_value unquote_plain)
qed

lemma parse_cookie_pair_plain:
  assumes "cookie_name_regex n" and "plain_value v" and "sp = [] \<or> sp = '' ''"
  shows "parse_cookie_pair m (sp @ n @ ''='' @ v) = map_emplace m n v"
proof -
  have eq: "CHR ''='' \<notin> set (sp @ n)" using assms name_no_eq by auto
  have "find_char (sp @ n @ ''='' @ v) (CHR ''='') 0 = Some (length (sp @ n))"
    using find_char_append_hit [OF eq, of v] by simp
  moreover have "trim (sp @ n) = n"
    using assms(1,3) trim_value trim_space_name name_value_regex by auto
  moreover have "trim v = v" "unquote v = v" using assms(2) by (auto simp: plain_value_def trim_value)
  ultimately show ?thesis
    using assms(1) by (simp add: parse_cookie_pair_def cookie_name_regex_def)
qed

text \<open>The \<open>Cookie\<close> header a browser sends back.\<close>

fun cookie_header :: "(string \<times> string) list \<Rightarrow> string" where
  "cookie_header [] = []"
| "cookie_header [(n, v)] = n @ ''='' @ v"
| "cookie_header ((n, v) # cs) = n @ ''='' @ v @ ''; '' @ cookie_header cs"

lemma parse_cookies_loop_header:
  "cs \<noteq> [] \<Longrightarrow> \<forall>(n, v) \<in> set cs. cookie_name_regex n \<and> plain_value v \<Longrightarrow> sp = [] \<or> sp = '' '' \<Longrightarrow>
   parse_cookies_loop (sp @ cookie_header cs) m = foldl (\<lambda>m (n, v). map_emplace m n v) m cs"
proof (induction cs arbitrary: sp m rule: cookie_header.induct)
  case (2 n v)
  let ?h = "sp @ n @ ''='' @ v"
  have "CHR '';'' \<notin> set ?h"
    using 2 value_no_semicolon [of v] value_no_semicolon [OF name_value_regex, of n]
    by (auto simp: plain_value_def)
  then have "find_char ?h (CHR '';'') 0 = None" by (simp add: find_char_None_iff)
  with 2 show ?case
    by (subst parse_cookies_loop.simps) (simp add: parse_cookie_pair_plain [of n v sp, simplified])
next
  case (3 n v c cs)
  let ?p = "sp @ n @ ''='' @ v" and ?r = "CHR '' '' # cookie_header (c # cs)"
  have "CHR '';'' \<notin> set ?p"
    using 3 value_no_semicolon [of v] value_no_semicolon [OF name_value_regex, of n]
    by (auto simp: plain_value_def)
  from find_char_append_hit [OF this, of ?r]
  have f: "find_char (sp @ cookie_header ((n, v) # c # cs)) (CHR '';'') 0 = Some (length ?p)"
    by simp
  have "parse_cookies_loop (sp @ cookie_header ((n, v) # c # cs)) m =
      parse_cookies_loop ?r (parse_cookie_pair m ?p)"
    using f by (subst parse_cookies_loop.simps) simp
  also have "\<dots> = parse_cookies_loop ?r (map_emplace m n v)"
    using 3 parse_cookie_pair_plain [of n v sp m] by auto
  also have "\<dots> = foldl (\<lambda>m (n, v). map_emplace m n v) (map_emplace m n v) (c # cs)"
    using "3.IH" [of "'' ''"] "3.prems" by simp
  finally show ?case by simp
qed simp

lemma foldl_emplace_distinct:
  "distinct (map fst cs) \<Longrightarrow> fst ` set cs \<inter> dom m = {} \<Longrightarrow>
   foldl (\<lambda>m (n, v). map_emplace m n v) m cs = m ++ map_of cs"
proof (induction cs arbitrary: m)
  case (Cons c cs)
  obtain n v where c: "c = (n, v)" by (cases c)
  with Cons.prems have "m n = None" "n \<notin> fst ` set cs" "fst ` set cs \<inter> dom (m(n \<mapsto> v)) = {}"
    by auto
  with Cons c show ?case
    by (simp add: map_add_upd_left dom_map_of_conv_image_fst fun_upd_def [symmetric] del: fun_upd_apply)
qed simp

text \<open>The same header, written with \<open>serialize_cookie\<close>.\<close>

fun join :: "string \<Rightarrow> string list \<Rightarrow> string" where
  "join sep [] = []"
| "join sep [p] = p"
| "join sep (p # ps) = p @ sep @ join sep ps"

lemma join_serialize:
  "\<forall>(n, v) \<in> set cs. cookie_name_regex n \<Longrightarrow>
   join ''; '' (map (\<lambda>(n, v). serialize_cookie n v) cs) =
   cookie_header (map (\<lambda>(n, v). (n, uri_encode v)) cs)"
  by (induction cs rule: cookie_header.induct) (auto simp: serialize_cookie_def)

lemma parse_cookies_header:
  assumes "cs \<noteq> []" and "distinct (map fst cs)"
    and "\<forall>(n, v) \<in> set cs. cookie_name_regex n \<and> plain_value v"
  shows "parse_cookies (cookie_header cs) = map_of cs"
  using parse_cookies_loop_header [OF assms(1,3), of "[]" Map.empty]
    foldl_emplace_distinct [OF assms(2), of Map.empty]
  by (simp add: parse_cookies_def)

lemma split_on_chars: "c \<in> set s \<Longrightarrow> c = d \<or> (\<exists>p \<in> set (split_on d s). c \<in> set p)"
  by (induction s) (auto split: list.splits)

lemma split_on_append: "split_on d (s @ d # t) = split_on d s @ split_on d t"
proof (induction s)
  case (Cons c s)
  have "split_on d s \<noteq> []" for s by (cases s) (auto split: list.split)
  with Cons show ?case by (cases "split_on d s") auto
qed simp

lemma split_on_absent: "d \<notin> set s \<Longrightarrow> split_on d s = [s]"
  by (induction s) auto

lemma alnum_printable: "is_alnum c \<Longrightarrow> in_range 0x20 0x7E c"
  by (auto simp: is_alnum_def is_digit_def is_upper_def is_lower_def in_range_def)

lemma labels_printable: "list_all domain_label (split_on (CHR ''.'') t) \<Longrightarrow> list_all (in_range 0x20 0x7E) t"
proof -
  assume d: "list_all domain_label (split_on (CHR ''.'') t)"
  have "in_range 0x20 0x7E c" if "c \<in> set t" for c
  proof -
    from split_on_chars [OF that, of "CHR ''.''"] consider "c = CHR ''.''"
      | p where "p \<in> set (split_on (CHR ''.'') t)" "c \<in> set p" by blast
    then show ?thesis
    proof cases
      case 2
      with d have "is_alnum c \<or> c = CHR ''-''"
        by (auto simp: list_all_iff domain_label_def)
      then show ?thesis using alnum_printable by auto
    qed simp
  qed
  then show ?thesis by (simp add: list_all_iff)
qed

lemma domain_printable: "domain_value_regex s \<Longrightarrow> list_all (in_range 0x20 0x7E) s"
proof (cases "s \<noteq> [] \<and> hd s = CHR ''.''")
  case True
  moreover assume "domain_value_regex s"
  ultimately have "list_all (in_range 0x20 0x7E) (tl s)" "hd s = CHR ''.''" "s \<noteq> []"
    by (simp_all add: domain_value_regex_def labels_printable)
  then show ?thesis by (cases s) simp_all
next
  case False
  moreover assume "domain_value_regex s"
  ultimately show ?thesis
    by (intro labels_printable) (simp only: domain_value_regex_def if_False)
qed

lemma show_int_printable: "list_all (in_range 0x20 0x7E) (show_int i)"
proof -
  have "list_all (in_range 0x20 0x7E) (show_nat n)" for n
    using show_nat_digits [of n] by (auto simp: list_all_iff is_digit_def in_range_def)
  then show ?thesis by (simp add: show_int_def in_range_def code_def)
qed

lemma value_printable: "cookie_value_regex v \<Longrightarrow> list_all (in_range 0x20 0x7E) v"
  by (auto simp: cookie_value_regex_def list_all_iff cookie_value_char_def in_range_def)

lemma path_printable: "path_value_regex v \<Longrightarrow> list_all (in_range 0x20 0x7E) v"
  by (auto simp: path_value_regex_def list_all_iff path_value_char_def in_range_def)

lemma attribute_printable:
  "list_all (in_range 0x20 0x7E) (priority_attribute p)"
  "list_all (in_range 0x20 0x7E) (same_site_attribute p)"
  by (auto simp: priority_attribute_def same_site_attribute_def in_range_def code_def split: list.split)

lemma list_all_if: "(b \<Longrightarrow> list_all P x) \<Longrightarrow> (\<not> b \<Longrightarrow> list_all P y) \<Longrightarrow> list_all P (if b then x else y)"
  by simp

section \<open>Query strings: lemmas\<close>

lemma find_char_at: "i < length s \<Longrightarrow> s ! i = c \<Longrightarrow> find_char s c i = Some i"
  by (simp add: find_char_def Cons_nth_drop_Suc [symmetric])

lemma parse_query_stuck:
  assumes "st < length path" and "path ! st = CHR ''&''"
  shows "parse_query_loop fuel path (Some st) ret = None"
proof (induction fuel arbitrary: ret)
  case (Suc fuel)
  have "find_char path (CHR ''&'') st = Some st" using assms by (rule find_char_at)
  with Suc show ?case by (simp add: Let_def split: option.split)
qed simp

lemma parse_query_diverges:
  assumes "find_char path (CHR ''?'') 0 = Some st" and "find_char path (CHR ''&'') st = Some e"
  shows "parse_query_string fuel path = None"
proof (cases fuel)
  case (Suc n)
  have "parse_query_loop n path (Some e) ret = None" for ret
    by (rule parse_query_stuck) (use find_char_Some_bound [OF assms(2)] find_char_Some_nth [OF assms(2)] in simp_all)
  with Suc assms show ?thesis
    by (simp add: parse_query_string_def Let_def split: option.split)
qed (simp add: parse_query_string_def)

section \<open>Properties\<close>

text \<open>
  C4. Percent coding loses nothing: \<open>uri_decode\<close> inverts \<open>uri_encode\<close> on every byte string, and
  the coded text consists of unreserved characters, \<open>+\<close> and \<open>%\<close> only, so it can stand in a
  cookie value or in a form field.
\<close>

theorem uri_coding_roundtrip:
  "uri_decode (uri_encode s) = s \<and>
   list_all (\<lambda>c. uri_unreserved c \<or> c = CHR ''+'' \<or> c = CHR ''%'') (uri_encode s) \<and>
   cookie_value_regex (uri_encode s)"
  using uri_encode_alphabet by (auto simp: uri_decode_encode list_all_iff uri_encode_value)

text \<open>
  A form body parses back: for any non-empty list of fields with non-empty names and values,
  \<open>parse_form_url_encoded\<close> of the coded body returns exactly the fields, in order.
\<close>

theorem parse_form_roundtrip:
  assumes "kvs \<noteq> []" and "\<forall>(k, v) \<in> set kvs. k \<noteq> [] \<and> v \<noteq> []"
  shows "parse_form_url_encoded (form_body kvs) = Some kvs"
  using parse_form_body [OF assms, of "[]"] by (simp add: parse_form_url_encoded_def)

theorem parse_form_roundtrip_witness:
  "parse_form_url_encoded (form_body [(''username'', ''bob''), (''password'', ''a&b=c %'')]) =
   Some [(''username'', ''bob''), (''password'', ''a&b=c %'')]"
  by (rule parse_form_roundtrip) simp_all

text \<open>
  A cookie comes back as it was set: if a browser returns the cookies made with
  \<open>serialize_cookie\<close>, under distinct valid names, \<open>parse_cookies\<close> maps each name to its coded
  value, whatever bytes the value had, and knows no other name.
\<close>

theorem parse_cookies_roundtrip:
  assumes "cs \<noteq> []" and "distinct (map fst cs)" and "\<forall>(n, v) \<in> set cs. cookie_name_regex n"
  shows "parse_cookies (join ''; '' (map (\<lambda>(n, v). serialize_cookie n v) cs)) =
    map_of (map (\<lambda>(n, v). (n, uri_encode v)) cs)"
proof -
  let ?cs = "map (\<lambda>(n, v). (n, uri_encode v)) cs"
  have "map fst ?cs = map fst cs" by auto
  then have "distinct (map fst ?cs)" using assms(2) by (simp only:)
  with assms have "parse_cookies (cookie_header ?cs) = map_of ?cs"
    by (intro parse_cookies_header) (auto simp: uri_encode_plain)
  with join_serialize [OF assms(3)] show ?thesis by simp
qed

theorem parse_cookies_roundtrip_witness:
  "parse_cookies (join ''; '' (map (\<lambda>(n, v). serialize_cookie n v)
     [(''theme'', ''dark; x''), (''fiy_auth'', ''.Ab_9'')])) =
   map_of (map (\<lambda>(n, v). (n, uri_encode v)) [(''theme'', ''dark; x''), (''fiy_auth'', ''.Ab_9'')])"
  by (rule parse_cookies_roundtrip)
    (simp_all add: cookie_name_regex_def cookie_name_char_def in_range_def code_def)

text \<open>
  No header injection through a cookie: as long as the unchecked \<open>expires\<close> option is printable
  ASCII, the value \<open>serialize_cookie\<close> produces is, so it never holds CR, LF or another control
  character; and a name or value outside the cookie alphabet yields no cookie at all.
\<close>

theorem serialize_cookie_printable:
  assumes "list_all (in_range 0x20 0x7E) (expires options)"
  shows "list_all (in_range 0x20 0x7E) (serialize_cookie_options name v options) \<and>
    (encode_fn options = None \<and> (\<not> cookie_name_regex name \<or> \<not> cookie_value_regex v) \<longrightarrow>
     serialize_cookie_options name v options = [])"
proof
  let ?p = "list_all (in_range 0x20 0x7E)"
  have eq: "?p ''=''" by simp
  let ?v = "case encode_fn options of Some f \<Rightarrow> f v | None \<Rightarrow> v"
  show "?p (serialize_cookie_options name v options)"
  proof (cases "cookie_name_regex name \<and> cookie_value_regex ?v")
    case True
    have age: "?p (if 0 \<le> max_age options then ''; Max-Age='' @ show_int (max_age options) else [])"
      by (rule list_all_if) (simp_all add: show_int_printable)
    have dom: "?p (if cookie_domain options = [] \<or> \<not> domain_value_regex (cookie_domain options) then []
        else ''; Domain='' @ cookie_domain options)"
      by (rule list_all_if) (simp_all add: domain_printable)
    have path: "?p (if cookie_path options = [] \<or> \<not> path_value_regex (cookie_path options) then []
        else ''; Path='' @ cookie_path options)"
      by (rule list_all_if) (simp_all add: path_printable)
    have exp: "?p (if expires options = [] then [] else ''; Expires='' @ expires options)"
      by (rule list_all_if) (simp_all add: assms)
    have flags: "?p (if b then ''; HttpOnly'' else [])" "?p (if b then ''; Secure'' else [])"
      "?p (if b then ''; Partitioned'' else [])" for b
      by (rule list_all_if; simp)+
    from True have "?p name" "?p ?v" using value_printable name_value_regex by blast+
    with True age dom path exp flags eq attribute_printable show ?thesis
      unfolding serialize_cookie_options_def Let_def
      by (simp only: list_all_append simp_thms if_False)
  qed (auto simp: serialize_cookie_options_def Let_def)
  show "encode_fn options = None \<and> (\<not> cookie_name_regex name \<or> \<not> cookie_value_regex v) \<longrightarrow>
      serialize_cookie_options name v options = []"
    by (auto simp: serialize_cookie_options_def)
qed

theorem serialize_cookie_printable_witness:
  "list_all (in_range 0x20 0x7E)
     (serialize_cookie_options ''fiy_auth'' ''.Ab9''
       (default_cookie_options\<lparr>encode_fn := None, cookie_path := ''/'', http_only := True\<rparr>)) \<and>
   serialize_cookie_options ''fiy_auth'' ''.Ab9''
       (default_cookie_options\<lparr>encode_fn := None, cookie_path := ''/'', http_only := True\<rparr>) =
     ''fiy_auth=.Ab9; Path=/; HttpOnly''"
  using serialize_cookie_printable
    [of "default_cookie_options\<lparr>encode_fn := None, cookie_path := ''/'', http_only := True\<rparr>"
      "''fiy_auth''" "''.Ab9''"]
  by (simp add: default_cookie_options_def serialize_cookie_options_def cookie_name_regex_def
      cookie_name_char_def cookie_value_regex_def cookie_value_char_def path_value_regex_def
      path_value_char_def in_range_def code_def priority_attribute_def same_site_attribute_def)

text \<open>
  \<open>parse_query_string\<close> does not return on a query string with a \<open>&\<close> in it, however long it
  runs: after the first parameter the loop stays at the separator it has just found.
\<close>

theorem parse_query_string_diverges:
  assumes "CHR ''?'' \<notin> set p" and "CHR ''&'' \<notin> set q"
  shows "parse_query_string fuel (p @ ''?'' @ q @ ''&'' @ r) = None"
proof -
  let ?path = "p @ ''?'' @ q @ ''&'' @ r" and ?e = "length p + 1 + length q"
  have st: "find_char ?path (CHR ''?'') 0 = Some (length p)"
    using find_char_append_hit [OF assms(1), of "q @ ''&'' @ r"] by simp
  have "takeWhile (\<lambda>x. x \<noteq> CHR ''&'') (''?'' @ q @ ''&'' @ r) = ''?'' @ q"
    using takeWhile_sep [of "CHR ''&''" "''?'' @ q" r] assms(2) by simp
  then have e: "find_char ?path (CHR ''&'') (length p) = Some ?e"
    by (simp add: find_char_def)
  from parse_query_diverges [OF st e] show ?thesis .
qed

theorem parse_query_string_diverges_witness:
  "parse_query_string 1000 ''/search?q=a&page=2'' = None"
  using parse_query_string_diverges [of "''/search''" "''q=a''" 1000 "''page=2''"] by simp

end
