(* ===== verification/Tokens.thy ===== *)
theory Tokens
  imports WebUtils
begin

text \<open>
  \<open>Crypto::get_token_string\<close> of \<open>util/Crypto.hpp\<close> and the loop \<open>draw a token until it is not in
  use\<close>, which \<open>LocalUsers::authorize_user\<close>, \<open>Peers::new_token_stub\<close> and
  \<open>ModConnectorNet::start\<close> share. The random device is a parameter: \<open>rng i\<close> is the list of numbers
  drawn for the \<open>i\<close>-th token, each in \<open>0 .. 62\<close> as the distribution promises.

  The tables that hold tokens are an interface: a locale with the two operations the loop uses.
  Each of the three tables interprets it.
\<close>

section \<open>Token strings\<close>

definition token_charset :: string where
  "token_charset = ''ABCDEFGHIJKLMNOPQRSTUVWXYZabcdefghijklmnopqrstuvwxyz0123456789_''"

definition TOKEN_LEN :: nat where
  "TOKEN_LEN = 24"

text \<open>One character per number drawn, after the leading dot.\<close>

definition get_token_string :: "nat list \<Rightarrow> string" where
  "get_token_string draws = CHR ''.'' # map (\<lambda>d. token_charset ! d) draws"

definition fair_draws :: "nat list \<Rightarrow> bool" where
  "fair_draws draws \<longleftrightarrow> length draws = TOKEN_LEN - 1 \<and> list_all (\<lambda>d. d \<le> 62) draws"

definition token_char :: "char \<Rightarrow> bool" where
  "token_char c \<longleftrightarrow> is_alnum c \<or> c = CHR ''_'' \<or> c = CHR ''.''"

lemma length_token_charset: "length token_charset = 63"
  by (simp add: token_charset_def)

lemma token_charset_chars: "list_all token_char token_charset"
  by code_simp

lemma token_chars: "fair_draws draws \<Longrightarrow> list_all token_char (get_token_string draws)"
proof -
  assume fair: "fair_draws draws"
  have "token_char (token_charset ! d)" if "d \<in> set draws" for d
  proof -
    have "d < length token_charset"
      using fair that by (auto simp: fair_draws_def list_all_iff length_token_charset)
    then show ?thesis using token_charset_chars by (simp add: list_all_length)
  qed
  moreover have "token_char (CHR ''.'')" by (simp add: token_char_def)
  ultimately show ?thesis by (auto simp: get_token_string_def list_all_iff)
qed

lemma token_char_value: "token_char c \<Longrightarrow> cookie_value_char c \<and> c \<noteq> CHR 0x22 \<and> c \<noteq> CHR ''\<newline>''"
  by (auto simp: token_char_def cookie_value_char_def in_range_def is_alnum_def is_digit_def
      is_upper_def is_lower_def)

lemma length_token: "fair_draws draws \<Longrightarrow> length (get_token_string draws) = TOKEN_LEN"
  by (simp add: fair_draws_def get_token_string_def TOKEN_LEN_def)

lemma token_plain_value: "fair_draws draws \<Longrightarrow> plain_value (get_token_string draws)"
  using token_chars [of draws] token_char_value
  by (auto simp: plain_value_def cookie_value_regex_def list_all_iff intro!: unquote_plain)

section \<open>Drawing a fresh token\<close>

text \<open>
  \<open>used\<close> says whether a token is in the table, \<open>i\<close> counts the tokens drawn so far. The loop ends at
  the first token that is not used; a generator that never produces one keeps it running.
\<close>

partial_function (option) draw_fresh ::
  "(string \<Rightarrow> bool) \<Rightarrow> (nat \<Rightarrow> nat list) \<Rightarrow> nat \<Rightarrow> (string \<times> nat) option" where
  "draw_fresh used rng i =
     (let t = get_token_string (rng i)
      in if used t then draw_fresh used rng (Suc i) else Some (t, Suc i))"

lemma draw_fresh_raw:
  assumes ret: "draw_fresh used rng i = Some r"
  shows "\<not> used (fst r) \<and> i < snd r \<and> fst r = get_token_string (rng (snd r - 1))"
proof (rule draw_fresh.raw_induct
    [where P = "\<lambda>used rng i r. \<not> used (fst r) \<and> i < snd r \<and> fst r = get_token_string (rng (snd r - 1))",
      OF _ ret])
  fix f :: "(string \<Rightarrow> bool) \<Rightarrow> (nat \<Rightarrow> nat list) \<Rightarrow> nat \<Rightarrow> (string \<times> nat) option"
    and used :: "string \<Rightarrow> bool" and rng i r
  assume IH: "\<And>used rng i r. f used rng i = Some r \<Longrightarrow>
      \<not> used (fst r) \<and> i < snd r \<and> fst r = get_token_string (rng (snd r - 1))"
    and eq: "(let t = get_token_string (rng i)
      in if used t then f used rng (Suc i) else Some (t, Suc i)) = Some r"
  show "\<not> used (fst r) \<and> i < snd r \<and> fst r = get_token_string (rng (snd r - 1))"
  proof (cases "used (get_token_string (rng i))")
    case True
    with eq have "f used rng (Suc i) = Some r" by (simp add: Let_def)
    from IH [OF this] show ?thesis by (meson Suc_lessD)
  next
    case False
    with eq show ?thesis by (auto simp: Let_def)
  qed
qed

lemma draw_fresh_result:
  "draw_fresh used rng i = Some (t, j) \<Longrightarrow> \<not> used t \<and> i < j \<and> t = get_token_string (rng (j - 1))"
  using draw_fresh_raw [of used rng i "(t, j)"] unfolding fst_conv snd_conv .

lemma draw_fresh_returns:
  "\<not> used (get_token_string (rng (i + n))) \<Longrightarrow> \<exists>t j. draw_fresh used rng i = Some (t, j)"
proof (induction n arbitrary: i)
  case 0
  then show ?case by (subst draw_fresh.simps) (simp add: Let_def)
next
  case (Suc n)
  then have "\<exists>t j. draw_fresh used rng (Suc i) = Some (t, j)" by simp
  then show ?case by (subst draw_fresh.simps) (simp add: Let_def)
qed

section \<open>Token tables\<close>

locale token_table =
  fixes has :: "'t \<Rightarrow> string \<Rightarrow> bool"
    and find :: "'t \<Rightarrow> string \<Rightarrow> 'e option"
    and add :: "'t \<Rightarrow> string \<Rightarrow> 'e \<Rightarrow> 't"
  assumes has_iff: "has tab t \<longleftrightarrow> find tab t \<noteq> None"
    and find_add: "find (add tab t e) = (find tab)(t \<mapsto> e)"
begin

text \<open>A token that was drawn against the table disturbs no entry that is already there.\<close>

lemma fresh_add_keeps:
  assumes "draw_fresh (has tab) rng i = Some (t, j)" and "find tab x = Some e'"
  shows "x \<noteq> t \<and> find (add tab t e) x = Some e'"
proof -
  have "\<not> has tab t" using draw_fresh_result [OF assms(1)] by blast
  with assms(2) have "x \<noteq> t" by (auto simp: has_iff)
  with assms(2) show ?thesis by (simp add: find_add)
qed

lemma fresh_add_finds:
  "draw_fresh (has tab) rng i = Some (t, j) \<Longrightarrow> find (add tab t e) t = Some e"
  by (simp add: find_add)

lemma fresh_add_dom:
  "draw_fresh (has tab) rng i = Some (t, j) \<Longrightarrow>
   dom (find (add tab t e)) = insert t (dom (find tab)) \<and> t \<notin> dom (find tab)"
  using draw_fresh_result [of "has tab" rng i t j] by (auto simp: find_add has_iff dom_def)

end

text \<open>
  Every token is a cookie value as it is: 24 characters, a dot and then letters, digits and
  underscores, so it needs no coding in \<open>Set-Cookie\<close> and comes back from the \<open>Cookie\<close> header
  unchanged, next to any other cookie.
\<close>

theorem token_survives_cookie:
  assumes "fair_draws draws" and "cookie_name_regex n" and "n \<noteq> ''fiy_auth''"
  shows "length (get_token_string draws) = TOKEN_LEN \<and>
    parse_cookies (''fiy_auth='' @ get_token_string draws @ ''; '' @ serialize_cookie n v) ''fiy_auth'' =
      Some (get_token_string draws)"
proof -
  let ?cs = "[(''fiy_auth'', get_token_string draws), (n, uri_encode v)]"
  have name: "cookie_name_regex ''fiy_auth''"
    by (simp add: cookie_name_regex_def cookie_name_char_def)
  have "parse_cookies (cookie_header ?cs) = map_of ?cs"
    by (rule parse_cookies_header) (use assms name token_plain_value uri_encode_plain in auto)
  moreover have "cookie_header ?cs =
      ''fiy_auth='' @ get_token_string draws @ ''; '' @ serialize_cookie n v"
    using assms(2) by (simp add: serialize_cookie_def)
  ultimately show ?thesis using assms(1) by (simp add: length_token)
qed

theorem token_survives_cookie_witness:
  "length (get_token_string [0..<23]) = TOKEN_LEN \<and>
   parse_cookies (''fiy_auth='' @ get_token_string [0..<23] @ ''; '' @ serialize_cookie ''theme'' ''a;b'') ''fiy_auth'' =
     Some (get_token_string [0..<23])"
  by (rule token_survives_cookie)
    (simp_all add: fair_draws_def TOKEN_LEN_def list_all_iff cookie_name_regex_def cookie_name_char_def)

end
