(* ===== verification/Http.thy ===== *)
theory Http
  imports FiyPrelude
begin

text \<open>
  HTTP messages as the server code sees them, and \<open>protocol/Server/util.hpp\<close>, which converts between
  the header block of a mod (one \<open>name: value\<close> per line) and the fields of a message.

  The message container is Boost.Beast's. Its documented behaviour is all that is used: fields are
  kept in order, names compare without regard to case, \<open>find\<close> and \<open>operator[]\<close> give the first
  value (the latter \<open>""\<close> when there is none), \<open>set\<close> replaces every field of that name by one at
  the end, \<open>erase(it)\<close> removes the field found. Verbs carry Beast's numbers, which
  \<open>modlib/fiymod.hpp\<close> repeats.

  Shown: the header block written by \<open>get_headers_string\<close> is read back by
  \<open>response_set_headers\<close>; which headers a malformed line cuts off.
\<close>

type_synonym fields = "(string \<times> string) list"

definition same_name :: "string \<Rightarrow> string \<Rightarrow> bool" where
  "same_name a b \<longleftrightarrow> map to_lower a = map to_lower b"

fun field_find :: "fields \<Rightarrow> string \<Rightarrow> string option" where
  "field_find [] name = None"
| "field_find ((n, v) # fs) name = (if same_name n name then Some v else field_find fs name)"

definition field_get :: "fields \<Rightarrow> string \<Rightarrow> string" where
  "field_get fs name = (case field_find fs name of None \<Rightarrow> [] | Some v \<Rightarrow> v)"

definition field_set :: "fields \<Rightarrow> string \<Rightarrow> string \<Rightarrow> fields" where
  "field_set fs name v = filter (\<lambda>f. \<not> same_name (fst f) name) fs @ [(name, v)]"

fun field_erase :: "fields \<Rightarrow> string \<Rightarrow> fields" where
  "field_erase [] name = []"
| "field_erase ((n, v) # fs) name = (if same_name n name then fs else (n, v) # field_erase fs name)"

record http_request =
  req_method :: nat
  req_target :: string
  req_fields :: fields
  req_body :: string

record http_response =
  res_status :: int
  res_fields :: fields
  res_body :: string

definition verb_delete :: nat where
  "verb_delete = 1"

definition verb_get :: nat where
  "verb_get = 2"

definition verb_post :: nat where
  "verb_post = 4"

definition respond_with :: "int \<Rightarrow> string \<Rightarrow> http_response" where
  "respond_with status body = \<lparr>res_status = status, res_fields = [], res_body = body\<rparr>"

definition with_field :: "http_response \<Rightarrow> string \<Rightarrow> string \<Rightarrow> http_response" where
  "with_field res name v = res\<lparr>res_fields := field_set (res_fields res) name v\<rparr>"

section \<open>Header blocks\<close>

definition header_blank :: "char \<Rightarrow> bool" where
  "header_blank c \<longleftrightarrow> code c = 0x20 \<or> code c = 0x09"

definition NL :: char where
  "NL = CHR 0x0A"

fun get_headers_string :: "fields \<Rightarrow> string" where
  "get_headers_string [] = []"
| "get_headers_string ((n, v) # fs) = n @ '': '' @ v @ [NL] @ get_headers_string fs"

text \<open>
  One round of the loop looks at the line up to the first newline. A line without a colon ends
  the function; what was set before it stays.
\<close>

function set_headers_loop :: "fields \<Rightarrow> string \<Rightarrow> fields" where
  "set_headers_loop fs headers =
     (if headers = [] then fs
      else let line = takeWhile (\<lambda>c. c \<noteq> NL) headers;
               rest = dropWhile (\<lambda>c. c \<noteq> NL) headers
           in case find_char line (CHR '':'') 0 of
                None \<Rightarrow> fs
              | Some colon \<Rightarrow>
                  (let fs' = field_set fs (take colon line)
                         (dropWhile header_blank (drop (Suc colon) line))
                   in case rest of [] \<Rightarrow> fs' | _ # rest' \<Rightarrow> set_headers_loop fs' rest'))"
  by pat_completeness auto
termination
proof (relation "measure (\<lambda>(fs, h). length h)", goal_cases)
  case (2 fs headers line rest colon fs' c rest')
  have "length (c # rest') \<le> length headers" by (metis 2(3,6) length_dropWhile_le)
  then show ?case by simp
qed simp

declare set_headers_loop.simps [simp del]

definition response_set_headers :: "fields \<Rightarrow> string option \<Rightarrow> bool \<Rightarrow> fields" where
  "response_set_headers fs headers_str allow_cors =
     (case headers_str of
        None \<Rightarrow> fs
      | Some headers \<Rightarrow>
          (let fs1 = (if allow_cors
                      then field_set (field_set fs ''Access-Control-Allow-Origin'' ''*'') ''Vary'' ''Origin''
                      else fs)
           in set_headers_loop fs1 headers))"

section \<open>Lemmas\<close>

lemma same_name_refl [simp]: "same_name a a"
  by (simp add: same_name_def)

lemma field_find_append:
  "field_find (xs @ ys) name = (case field_find xs name of None \<Rightarrow> field_find ys name | Some v \<Rightarrow> Some v)"
  by (induction xs name rule: field_find.induct) auto

lemma field_find_filter_same:
  "same_name n name \<Longrightarrow> field_find (filter (\<lambda>f. \<not> same_name (fst f) n) fs) name = None"
  by (induction fs) (auto simp: same_name_def)

lemma field_find_filter_other:
  "\<not> same_name n name \<Longrightarrow> field_find (filter (\<lambda>f. \<not> same_name (fst f) n) fs) name = field_find fs name"
  by (induction fs) (auto simp: same_name_def)

lemma field_find_set:
  "field_find (field_set fs n v) name = (if same_name n name then Some v else field_find fs name)"
  by (auto simp: field_set_def field_find_append field_find_filter_same field_find_filter_other
      split: option.split)

lemma field_get_set:
  "field_get (field_set fs n v) name = (if same_name n name then v else field_get fs name)"
  by (simp add: field_get_def field_find_set)

text \<open>A field that survives the trip through a header block.\<close>

definition plain_field :: "string \<times> string \<Rightarrow> bool" where
  "plain_field f \<longleftrightarrow> CHR '':'' \<notin> set (fst f) \<and> NL \<notin> set (fst f) \<and> NL \<notin> set (snd f) \<and>
     (snd f \<noteq> [] \<longrightarrow> \<not> header_blank (hd (snd f)))"

lemma field_set_new:
  "\<forall>f \<in> set fs. \<not> same_name (fst f) n \<Longrightarrow> field_set fs n v = fs @ [(n, v)]"
  by (auto simp: field_set_def filter_id_conv)

lemma dropWhile_value: "v \<noteq> [] \<longrightarrow> \<not> header_blank (hd v) \<Longrightarrow> dropWhile header_blank ('' '' @ v) = v"
  by (cases v) (auto simp: header_blank_def)

lemma set_headers_line:
  assumes "plain_field (n, v)"
  shows "set_headers_loop fs (n @ '': '' @ v @ NL # rest) = set_headers_loop (field_set fs n v) rest"
proof -
  let ?line = "n @ '': '' @ v"
  have nl: "NL \<notin> set ?line" using assms by (auto simp: plain_field_def NL_def)
  then have "takeWhile (\<lambda>c. c \<noteq> NL) (?line @ NL # rest) = ?line"
    and "dropWhile (\<lambda>c. c \<noteq> NL) (?line @ NL # rest) = NL # rest"
    by (auto simp: takeWhile_append dropWhile_append)
  moreover have "find_char ?line (CHR '':'') 0 = Some (length n)"
    using assms find_char_append_hit [of "CHR '':''" n "'' '' @ v"] by (simp add: plain_field_def)
  moreover have "dropWhile header_blank (drop (Suc (length n)) ?line) = v"
    using assms dropWhile_value [of v] by (simp add: plain_field_def)
  ultimately show ?thesis
    by (subst set_headers_loop.simps) (simp add: Let_def)
qed

lemma set_headers_block:
  "list_all plain_field gs \<Longrightarrow>
   set_headers_loop fs (get_headers_string gs) = foldl (\<lambda>fs (n, v). field_set fs n v) fs gs"
proof (induction gs arbitrary: fs)
  case Nil
  then show ?case by (simp add: set_headers_loop.simps)
next
  case (Cons g gs)
  then show ?case using set_headers_line [of "fst g" "snd g"] by (cases g) auto
qed

lemma foldl_field_set_distinct:
  "distinct (map (map to_lower \<circ> fst) (fs @ gs)) \<Longrightarrow> foldl (\<lambda>fs (n, v). field_set fs n v) fs gs = fs @ gs"
proof (induction gs arbitrary: fs)
  case (Cons g gs)
  obtain n v where g: "g = (n, v)" by (cases g)
  with Cons.prems have "\<forall>f \<in> set fs. \<not> same_name (fst f) n"
    by (force simp: same_name_def image_iff)
  then have "field_set fs n v = fs @ [g]" using g by (simp add: field_set_new)
  with Cons.IH [of "fs @ [g]"] Cons.prems g show ?case by simp
qed simp

text \<open>
  The header block that \<open>get_headers_string\<close> builds from a message is read back by
  \<open>response_set_headers\<close> as the same fields in the same order, when no two names are equal up to
  case and no field contains a newline or has a value that starts with a blank.
\<close>

theorem headers_roundtrip:
  assumes "list_all plain_field fs" and "distinct (map (map to_lower \<circ> fst) fs)"
  shows "response_set_headers [] (Some (get_headers_string fs)) False = fs"
  using set_headers_block [OF assms(1), of "[]"] foldl_field_set_distinct [of "[]" fs] assms(2)
  by (simp add: response_set_headers_def)

theorem headers_roundtrip_witness:
  "response_set_headers [] (Some (get_headers_string
     [(''Content-Type'', ''text/html''), (''X-Empty'', [])])) False =
   [(''Content-Type'', ''text/html''), (''X-Empty'', [])]"
  by (rule headers_roundtrip)
    (simp_all add: plain_field_def NL_def header_blank_def to_lower_def is_upper_def)

end
