(* ===== verification/LocalUsers.thy ===== *)
theory LocalUsers
  imports Tokens
begin

text \<open>
  \<open>protocol/users\<close>: the accounts of this instance. \<open>LocalUsers\<close> keeps a cache of accounts, a set of
  session tokens and the SQLite table \<open>Users\<close>. The table is a map from the primary key to a row;
  \<open>db_up\<close> says whether statements succeed, since every statement may throw \<open>SQLite::Exception\<close>.
  The token set compares tokens by \<open>m_token\<close> only (\<open>TokenEquals\<close>), so it is a map from token strings.
  SHA-512 is a parameter \<open>sha512\<close>, the random tokens are drawn as in theory \<open>Tokens\<close>.

  An operation returns the new state next to its result, because a statement that throws leaves
  the changes made before it.

  Shown: the invariant that ties the caches to the table, over all reachable states; what a login,
  the periodic job, a logout and a deletion do to the set of sessions; what the password check
  answers, including for accounts that do not exist.
\<close>

section \<open>Accounts, tokens, rows\<close>

record LocalUser =
  username :: string
  is_admin :: bool
  email :: string
  joined_ts :: int

record AuthToken =
  m_user :: "LocalUser option"
  m_token :: string
  m_expiration :: int

record user_row =
  isAdmin :: int
  hashedPassword :: string
  row_email :: string
  joinTs :: int

record users_state =
  users_db :: "string \<rightharpoonup> user_row"
  m_username_cache :: "string \<rightharpoonup> LocalUser"
  m_token_cache :: "string \<rightharpoonup> AuthToken"
  db_up :: bool

definition SESSION_LIFETIME :: int where
  "SESSION_LIFETIME = 60 * 60 * 24 * 14"

definition USERNAME_MAX_LENGTH :: nat where
  "USERNAME_MAX_LENGTH = 32"

definition NAME_MAX_LENGTH :: nat where
  "NAME_MAX_LENGTH = 128"

definition EMAIL_MAX_LENGTH :: nat where
  "EMAIL_MAX_LENGTH = 255"

definition PASSWORD_HASH_SIZE :: nat where
  "PASSWORD_HASH_SIZE = 64"

definition no_token :: AuthToken where
  "no_token = \<lparr>m_user = None, m_token = [], m_expiration = 0\<rparr>"

definition new_auth_token :: "LocalUser \<Rightarrow> string \<Rightarrow> int \<Rightarrow> AuthToken" where
  "new_auth_token user token now =
     \<lparr>m_user = Some user, m_token = token, m_expiration = now + SESSION_LIFETIME\<rparr>"

definition token_is_expired :: "AuthToken \<Rightarrow> int \<Rightarrow> bool" where
  "token_is_expired t now \<longleftrightarrow> now > m_expiration t"

definition hash_password :: "(string \<Rightarrow> string) \<Rightarrow> string \<Rightarrow> string \<Rightarrow> string" where
  "hash_password sha512 salt password = sha512 (password @ salt)"

definition check_password_hash :: "(string \<Rightarrow> string) \<Rightarrow> string \<Rightarrow> string \<Rightarrow> string \<Rightarrow> bool" where
  "check_password_hash sha512 salt provided_password db_hp =
     (if length db_hp < PASSWORD_HASH_SIZE then False
      else let hp = hash_password sha512 salt provided_password
           in list_all (\<lambda>i. hp ! i = db_hp ! i) [0..<PASSWORD_HASH_SIZE])"

section \<open>Operations of LocalUsers\<close>

definition add_user ::
  "(string \<Rightarrow> string) \<Rightarrow> string \<Rightarrow> users_state \<Rightarrow> LocalUser \<Rightarrow> string \<Rightarrow> users_state \<times> bool result" where
  "add_user sha512 salt s user password =
     (if \<not> db_up s \<or> users_db s (username user) \<noteq> None then (s, Inl DatabaseError)
      else (s\<lparr>users_db := (users_db s)(username user \<mapsto>
                \<lparr>isAdmin = (if is_admin user then 1 else 0),
                 hashedPassword = hash_password sha512 salt password,
                 row_email = email user, joinTs = joined_ts user\<rparr>)\<rparr>, Inr True))"

text \<open>The join time is read back with \<open>getUInt\<close>, so modulo \<open>2 ^ 32\<close>.\<close>

definition user_of_row :: "string \<Rightarrow> user_row \<Rightarrow> LocalUser" where
  "user_of_row name row =
     \<lparr>username = name, is_admin = (isAdmin row \<noteq> 0), email = row_email row,
      joined_ts = joinTs row mod 2 ^ 32\<rparr>"

definition get_user :: "users_state \<Rightarrow> string \<Rightarrow> users_state \<times> LocalUser option result" where
  "get_user s name =
     (case m_username_cache s name of
        Some u \<Rightarrow> (s, Inr (Some u))
      | None \<Rightarrow>
          (if \<not> db_up s then (s, Inl DatabaseError)
           else case users_db s name of
                  None \<Rightarrow> (s, Inr None)
                | Some row \<Rightarrow>
                    (let user = user_of_row name row
                     in (s\<lparr>m_username_cache := (m_username_cache s)(name \<mapsto> user)\<rparr>, Inr (Some user)))))"

text \<open>\<open>auth_user(username, password)\<close>: 0, 1 or -1.\<close>

definition auth_user_password ::
  "(string \<Rightarrow> string) \<Rightarrow> string \<Rightarrow> users_state \<Rightarrow> string \<Rightarrow> string \<Rightarrow> int" where
  "auth_user_password sha512 salt s name password =
     (if \<not> db_up s then -1
      else case users_db s name of
             None \<Rightarrow> 0
           | Some row \<Rightarrow>
               (if check_password_hash sha512 salt password (hashedPassword row) then 0 else 1))"

text \<open>\<open>auth_user(auth_token)\<close>.\<close>

definition auth_user_token :: "users_state \<Rightarrow> string \<Rightarrow> LocalUser option" where
  "auth_user_token s token =
     (case m_token_cache s token of None \<Rightarrow> None | Some t \<Rightarrow> m_user t)"

definition cron :: "users_state \<Rightarrow> int \<Rightarrow> users_state" where
  "cron s now =
     s\<lparr>m_token_cache := (\<lambda>k. case m_token_cache s k of
          None \<Rightarrow> None
        | Some t \<Rightarrow> if token_is_expired t now then None else Some t)\<rparr>"

definition deauth_token :: "users_state \<Rightarrow> string \<Rightarrow> users_state" where
  "deauth_token s token = s\<lparr>m_token_cache := (m_token_cache s)(token := None)\<rparr>"

definition token_cache_has :: "users_state \<Rightarrow> string \<Rightarrow> bool" where
  "token_cache_has s t \<longleftrightarrow> m_token_cache s t \<noteq> None"

definition token_cache_insert :: "users_state \<Rightarrow> string \<Rightarrow> AuthToken \<Rightarrow> users_state" where
  "token_cache_insert s t tok = s\<lparr>m_token_cache := (m_token_cache s)(t \<mapsto> tok)\<rparr>"

definition authorize_user ::
  "(nat \<Rightarrow> nat list) \<Rightarrow> nat \<Rightarrow> int \<Rightarrow> users_state \<Rightarrow> LocalUser \<Rightarrow> (users_state \<times> AuthToken \<times> nat) option" where
  "authorize_user rng i now s user =
     map_option (\<lambda>(t, j). let tok = new_auth_token user t now in (token_cache_insert s t tok, tok, j))
       (draw_fresh (token_cache_has s) rng i)"

definition login_user ::
  "(string \<Rightarrow> string) \<Rightarrow> string \<Rightarrow> (nat \<Rightarrow> nat list) \<Rightarrow> nat \<Rightarrow> int \<Rightarrow> users_state \<Rightarrow> string \<Rightarrow> string \<Rightarrow>
   (users_state \<times> AuthToken result \<times> nat) option" where
  "login_user sha512 salt rng i now s name password =
     (case get_user s name of
        (s1, Inl e) \<Rightarrow> Some (s1, Inl e, i)
      | (s1, Inr None) \<Rightarrow> Some (s1, Inr no_token, i)
      | (s1, Inr (Some user)) \<Rightarrow>
          (if auth_user_password sha512 salt s1 name password \<noteq> 0 then Some (s1, Inr no_token, i)
           else map_option (\<lambda>(s2, tok, j). (s2, Inr tok, j)) (authorize_user rng i now s1 user)))"

text \<open>
  The predicate of \<open>erase_if\<close>. \<open>t.m_user == user\<close> compares pointers; two pointers to one account
  have its name, so the value comparison that stands for it adds nothing to the second disjunct.
  A token without an account is dereferenced.
\<close>

definition token_of_user :: "LocalUser \<Rightarrow> string \<Rightarrow> AuthToken \<Rightarrow> bool result" where
  "token_of_user user name t =
     (case m_user t of
        None \<Rightarrow> Inl UndefinedBehaviour
      | Some u \<Rightarrow> Inr (u = user \<or> username u = name))"

definition erase_tokens_of :: "LocalUser \<Rightarrow> string \<Rightarrow> (string \<rightharpoonup> AuthToken) \<Rightarrow> (string \<rightharpoonup> AuthToken)" where
  "erase_tokens_of user name tab =
     (\<lambda>k. case tab k of
        None \<Rightarrow> None
      | Some t \<Rightarrow> (case token_of_user user name t of Inr True \<Rightarrow> None | _ \<Rightarrow> Some t))"

text \<open>
  The second component is the list of mods that were told, in order; it stands even when the
  statement that follows throws. The token table holds no token without an account (shown below),
  so the undefined case is not reached.
\<close>

definition delete_user ::
  "string list \<Rightarrow> users_state \<Rightarrow> string \<Rightarrow> users_state \<times> string list \<times> unit result" where
  "delete_user mods s name =
     (case get_user s name of
        (s1, Inl e) \<Rightarrow> (s1, [], Inl e)
      | (s1, Inr None) \<Rightarrow> (s1, [], Inr ())
      | (s1, Inr (Some user)) \<Rightarrow>
          (let s2 = s1\<lparr>m_token_cache := erase_tokens_of user name (m_token_cache s1)\<rparr>;
               s3 = s2\<lparr>m_username_cache := (m_username_cache s2)(name := None)\<rparr>
           in if \<not> db_up s then (s3, mods, Inl DatabaseError)
              else (s3\<lparr>users_db := (users_db s3)(name := None)\<rparr>, mods, Inr ())))"

section \<open>The token table as an interface\<close>

interpretation session_table: token_table token_cache_has m_token_cache token_cache_insert
  by unfold_locales (simp_all add: token_cache_has_def token_cache_insert_def)

section \<open>Invariant\<close>

definition users_inv :: "users_state \<Rightarrow> bool" where
  "users_inv s \<longleftrightarrow>
     (\<forall>n u. m_username_cache s n = Some u \<longrightarrow> (\<exists>row. users_db s n = Some row \<and> u = user_of_row n row)) \<and>
     (\<forall>k t. m_token_cache s k = Some t \<longrightarrow> m_token t = k \<and>
        (\<exists>n row. users_db s n = Some row \<and> m_user t = Some (user_of_row n row)))"

lemma users_invI:
  assumes "\<And>n u. m_username_cache s n = Some u \<Longrightarrow> \<exists>row. users_db s n = Some row \<and> u = user_of_row n row"
    and "\<And>k t. m_token_cache s k = Some t \<Longrightarrow>
      m_token t = k \<and> (\<exists>n row. users_db s n = Some row \<and> m_user t = Some (user_of_row n row))"
  shows "users_inv s"
  using assms by (simp add: users_inv_def)

lemma username_user_of_row [simp]: "username (user_of_row n row) = n"
  by (simp add: user_of_row_def)

lemma users_inv_cache:
  "users_inv s \<Longrightarrow> m_username_cache s n = Some u \<Longrightarrow> \<exists>row. users_db s n = Some row \<and> u = user_of_row n row"
  by (simp add: users_inv_def)

lemma users_inv_token:
  "users_inv s \<Longrightarrow> m_token_cache s k = Some t \<Longrightarrow>
   m_token t = k \<and> (\<exists>n row. users_db s n = Some row \<and> m_user t = Some (user_of_row n row))"
  by (simp add: users_inv_def)

lemma get_user_cases:
  assumes "users_inv s"
  obtains (err) "get_user s n = (s, Inl DatabaseError)" "\<not> db_up s"
  | (none) "get_user s n = (s, Inr None)" "users_db s n = None"
  | (found) s' row where "get_user s n = (s', Inr (Some (user_of_row n row)))" "users_db s n = Some row"
      "users_inv s'" "users_db s' = users_db s" "m_token_cache s' = m_token_cache s" "db_up s' = db_up s"
proof (cases "m_username_cache s n")
  case (Some u)
  with assms users_inv_cache obtain row where "users_db s n = Some row" "u = user_of_row n row" by blast
  with Some assms found [of s row] show thesis by (simp add: get_user_def)
next
  case None
  show thesis
  proof (cases "db_up s")
    case False
    with None err show thesis by (simp add: get_user_def)
  next
    case True
    show thesis
    proof (cases "users_db s n")
      case None': None
      with None True none show thesis by (simp add: get_user_def)
    next
      case (Some row)
      let ?s = "s\<lparr>m_username_cache := (m_username_cache s)(n \<mapsto> user_of_row n row)\<rparr>"
      have "users_inv ?s" using assms Some by (auto simp: users_inv_def)
      with None True Some found [of ?s row] show thesis by (simp add: get_user_def Let_def)
    qed
  qed
qed

lemma get_user_inv:
  assumes inv: "users_inv s"
  shows "users_inv (fst (get_user s n))"
  using inv
  by (cases rule: get_user_cases [where n = n, consumes 1]) (simp_all add: inv)

lemma add_user_inv: "users_inv s \<Longrightarrow> users_inv (fst (add_user sha512 salt s u pw))"
  unfolding users_inv_def add_user_def by (auto; metis option.distinct(1))

lemma cron_lookup: "m_token_cache (cron s now) k = Some t \<longleftrightarrow>
    m_token_cache s k = Some t \<and> \<not> token_is_expired t now"
  by (auto simp: cron_def split: option.splits)

lemma cron_inv: "users_inv s \<Longrightarrow> users_inv (cron s now)"
proof (rule users_invI)
  assume inv: "users_inv s"
  have same: "users_db (cron s now) = users_db s" "m_username_cache (cron s now) = m_username_cache s"
    by (simp_all add: cron_def)
  show "\<exists>row. users_db (cron s now) n = Some row \<and> u = user_of_row n row"
    if "m_username_cache (cron s now) n = Some u" for n u
    using users_inv_cache [OF inv, of n u] that same by simp
  show "m_token t = k \<and> (\<exists>n row. users_db (cron s now) n = Some row \<and> m_user t = Some (user_of_row n row))"
    if "m_token_cache (cron s now) k = Some t" for k t
    using users_inv_token [OF inv, of k t] that same by (simp add: cron_lookup)
qed

lemma deauth_inv: "users_inv s \<Longrightarrow> users_inv (deauth_token s t)"
  by (simp add: users_inv_def deauth_token_def)

lemma authorize_user_inv:
  assumes inv: "users_inv s" and row: "users_db s n = Some row"
    and auth: "authorize_user rng i now s (user_of_row n row) = Some (s', tok, j)"
  shows "users_inv s' \<and> users_db s' = users_db s \<and> db_up s' = db_up s"
proof -
  from auth obtain t where t: "tok = new_auth_token (user_of_row n row) t now" "s' = token_cache_insert s t tok"
    by (auto simp: authorize_user_def Let_def)
  have "users_inv s'"
  proof (rule users_invI)
    show "\<exists>row. users_db s' m = Some row \<and> u = user_of_row m row"
      if "m_username_cache s' m = Some u" for m u
      using users_inv_cache [OF inv, of m u] that t by (simp add: token_cache_insert_def)
    show "m_token t' = k \<and> (\<exists>n row. users_db s' n = Some row \<and> m_user t' = Some (user_of_row n row))"
      if "m_token_cache s' k = Some t'" for k t'
    proof (cases "k = t")
      case True
      with that t row have "users_db s' n = Some row" "m_user t' = Some (user_of_row n row)" "m_token t' = k"
        by (simp_all add: token_cache_insert_def new_auth_token_def) auto
      then show ?thesis by blast
    next
      case False
      with that t users_inv_token [OF inv, of k t'] show ?thesis by (simp add: token_cache_insert_def)
    qed
  qed
  with t show ?thesis by (simp add: token_cache_insert_def)
qed

lemma login_user_inv:
  assumes "users_inv s" and "login_user sha512 salt rng i now s n pw = Some (s', r, j)"
  shows "users_inv s'"
  using assms(1)
proof (cases rule: get_user_cases [where n = n, consumes 1])
  case (found s1 row)
  then show ?thesis
    using assms authorize_user_inv [of s1 n row rng i now]
    by (auto simp: login_user_def split: if_splits)
qed (use assms in \<open>auto simp: login_user_def\<close>)

lemma erase_tokens_lookup:
  "erase_tokens_of user name tab k = Some t \<Longrightarrow>
   tab k = Some t \<and> (\<forall>u. m_user t = Some u \<longrightarrow> username u \<noteq> name)"
  by (auto simp: erase_tokens_of_def token_of_user_def split: option.splits sum.splits bool.splits)

lemma delete_user_inv:
  assumes "users_inv s"
  shows "users_inv (fst (delete_user mods s n))"
  using assms
proof (cases rule: get_user_cases [where n = n, consumes 1])
  case (found s1 row)
  let ?tab = "erase_tokens_of (user_of_row n row) n (m_token_cache s1)"
  let ?s2 = "s1\<lparr>m_token_cache := ?tab, m_username_cache := (m_username_cache s1)(n := None)\<rparr>"
  have tok: "m_token t = k \<and> (\<exists>n' row. n' \<noteq> n \<and> users_db s1 n' = Some row \<and> m_user t = Some (user_of_row n' row))"
    if "?tab k = Some t" for k t
    using erase_tokens_lookup [OF that] users_inv_token [OF found(3), of k t] by fastforce
  have "users_inv ?s2"
  proof (rule users_invI)
    show "\<exists>row. users_db ?s2 m = Some row \<and> u = user_of_row m row"
      if "m_username_cache ?s2 m = Some u" for m u
      using that users_inv_cache [OF found(3), of m u] by (simp split: if_splits)
    show "m_token t = k \<and> (\<exists>m row. users_db ?s2 m = Some row \<and> m_user t = Some (user_of_row m row))"
      if "m_token_cache ?s2 k = Some t" for k t
      using that tok [of k t] by auto
  qed
  moreover have "users_inv (?s2\<lparr>users_db := (users_db ?s2)(n := None)\<rparr>)"
  proof (rule users_invI)
    let ?s3 = "?s2\<lparr>users_db := (users_db ?s2)(n := None)\<rparr>"
    show "\<exists>row. users_db ?s3 m = Some row \<and> u = user_of_row m row"
      if "m_username_cache ?s3 m = Some u" for m u
      using that users_inv_cache [OF found(3), of m u] by (simp split: if_splits)
    show "m_token t = k \<and> (\<exists>m row. users_db ?s3 m = Some row \<and> m_user t = Some (user_of_row m row))"
      if "m_token_cache ?s3 k = Some t" for k t
    proof -
      from that tok [of k t] obtain m row where "m_token t = k" "m \<noteq> n" "users_db s1 m = Some row"
        "m_user t = Some (user_of_row m row)" by auto
      then show ?thesis by auto
    qed
  qed
  ultimately show ?thesis using found(1) by (simp add: delete_user_def Let_def)
qed (simp_all add: delete_user_def assms)

section \<open>Reachable states\<close>

datatype users_op =
    AddUser LocalUser string
  | Login int string string
  | GetUser string
  | Logout string
  | Cron int
  | DeleteUser "string list" string
  | DbFault bool

inductive users_step ::
  "(string \<Rightarrow> string) \<Rightarrow> string \<Rightarrow> users_state \<Rightarrow> users_op \<Rightarrow> users_state \<Rightarrow> bool"
  for sha512 :: "string \<Rightarrow> string" and salt :: string where
  step_add: "users_step sha512 salt s (AddUser u pw) (fst (add_user sha512 salt s u pw))"
| step_login: "login_user sha512 salt rng i now s n pw = Some (s', r, j) \<Longrightarrow>
    users_step sha512 salt s (Login now n pw) s'"
| step_get: "users_step sha512 salt s (GetUser n) (fst (get_user s n))"
| step_logout: "users_step sha512 salt s (Logout t) (deauth_token s t)"
| step_cron: "users_step sha512 salt s (Cron now) (cron s now)"
| step_delete: "users_step sha512 salt s (DeleteUser mods n) (fst (delete_user mods s n))"
| step_fault: "users_step sha512 salt s (DbFault b) (s\<lparr>db_up := b\<rparr>)"

text \<open>The server starts with whatever is in the table and empty caches.\<close>

definition users_init :: "users_state \<Rightarrow> bool" where
  "users_init s \<longleftrightarrow> m_username_cache s = Map.empty \<and> m_token_cache s = Map.empty"

inductive users_reachable :: "(string \<Rightarrow> string) \<Rightarrow> string \<Rightarrow> users_state \<Rightarrow> bool"
  for sha512 :: "string \<Rightarrow> string" and salt :: string where
  reach_init: "users_init s \<Longrightarrow> users_reachable sha512 salt s"
| reach_step: "users_reachable sha512 salt s \<Longrightarrow> users_step sha512 salt s e s' \<Longrightarrow>
    users_reachable sha512 salt s'"

inductive_cases users_step_cronE: "users_step sha512 salt s (Cron now) s'"
inductive_cases users_step_logoutE: "users_step sha512 salt s (Logout t) s'"

lemma users_step_inv: "users_step sha512 salt s e s' \<Longrightarrow> users_inv s \<Longrightarrow> users_inv s'"
proof (induction rule: users_step.induct)
  case (step_get s n)
  then show ?case by (rule get_user_inv)
next
  case (step_fault s b)
  then show ?case by (simp add: users_inv_def)
qed (simp_all add: add_user_inv login_user_inv deauth_inv cron_inv delete_user_inv)

lemma users_reachable_inv: "users_reachable sha512 salt s \<Longrightarrow> users_inv s"
proof (induction rule: users_reachable.induct)
  case (reach_init s)
  then show ?case by (simp add: users_init_def users_inv_def)
next
  case (reach_step s e s')
  then show ?case by (blast intro: users_step_inv)
qed

section \<open>Sessions: lemmas\<close>

lemma authorize_user_session:
  assumes "authorize_user rng i now s user = Some (s', tok, j)"
  shows "m_user tok = Some user \<and> m_expiration tok = now + SESSION_LIFETIME \<and>
    m_token_cache s (m_token tok) = None \<and> m_token_cache s' = (m_token_cache s)(m_token tok \<mapsto> tok)"
proof -
  from assms obtain t where t: "draw_fresh (token_cache_has s) rng i = Some (t, j)"
    "tok = new_auth_token user t now" "s' = token_cache_insert s t tok"
    by (auto simp: authorize_user_def Let_def)
  from session_table.fresh_add_dom [OF t(1)] have "m_token_cache s t = None" by (auto simp: dom_def)
  with t show ?thesis by (simp add: new_auth_token_def token_cache_insert_def)
qed

lemma login_user_session:
  assumes inv: "users_inv s" and login: "login_user sha512 salt rng i now s n pw = Some (s', Inr tok, j)"
    and ok: "m_user tok \<noteq> None"
  shows "\<exists>row. users_db s n = Some row \<and> m_user tok = Some (user_of_row n row) \<and>
    check_password_hash sha512 salt pw (hashedPassword row) \<and>
    m_expiration tok = now + SESSION_LIFETIME \<and> m_token_cache s (m_token tok) = None \<and>
    m_token_cache s' = (m_token_cache s)(m_token tok \<mapsto> tok)"
  using inv
proof (cases rule: get_user_cases [where n = n, consumes 1])
  case (found s1 row)
  with login ok have a: "auth_user_password sha512 salt s1 n pw = 0"
    "authorize_user rng i now s1 (user_of_row n row) = Some (s', tok, j)"
    by (auto simp: login_user_def no_token_def split: if_splits)
  from a(1) found have "check_password_hash sha512 salt pw (hashedPassword row)"
    by (auto simp: auth_user_password_def split: if_splits)
  with authorize_user_session [OF a(2)] found show ?thesis by simp
qed (use login ok in \<open>auto simp: login_user_def no_token_def\<close>)

lemma session_account:
  "users_inv s \<Longrightarrow> auth_user_token s t = Some u \<Longrightarrow>
   \<exists>row. users_db s (username u) = Some row \<and> u = user_of_row (username u) row"
  using users_inv_token [of s t] by (fastforce simp: auth_user_token_def split: option.splits)

lemma auth_user_token_cron:
  "auth_user_token (cron s now) k =
   (case m_token_cache s k of None \<Rightarrow> None | Some t \<Rightarrow> if token_is_expired t now then None else m_user t)"
  by (simp add: auth_user_token_def cron_def split: option.split)

lemma check_password_hash_iff:
  "length (sha512 (pw @ salt)) = PASSWORD_HASH_SIZE \<Longrightarrow> length hp = PASSWORD_HASH_SIZE \<Longrightarrow>
   check_password_hash sha512 salt pw hp \<longleftrightarrow> sha512 (pw @ salt) = hp"
  by (auto simp: check_password_hash_def hash_password_def Let_def list_all_iff intro: nth_equalityI)

section \<open>Properties\<close>


definition demo_hash :: "string \<Rightarrow> string" where
  "demo_hash x = take 64 (x @ replicate 64 (CHR ''#''))"

definition demo_row :: user_row where
  "demo_row = \<lparr>isAdmin = 0, hashedPassword = demo_hash ''pw.salt'', row_email = ''a@b'', joinTs = 7\<rparr>"

definition demo_users :: users_state where
  "demo_users = \<lparr>users_db = [''alice'' \<mapsto> demo_row], m_username_cache = Map.empty,
     m_token_cache = Map.empty, db_up = True\<rparr>"

definition demo_token :: AuthToken where
  "demo_token = new_auth_token (user_of_row ''alice'' demo_row) (get_token_string [1, 2]) 100"

definition demo_session :: users_state where
  "demo_session = demo_users\<lparr>m_username_cache := [''alice'' \<mapsto> user_of_row ''alice'' demo_row],
     m_token_cache := [get_token_string [1, 2] \<mapsto> demo_token]\<rparr>"

lemma demo_login:
  "login_user demo_hash ''.salt'' (\<lambda>_. [1, 2]) 0 100 demo_users ''alice'' ''pw'' =
   Some (demo_session, Inr demo_token, 1)"
proof -
  have "check_password_hash demo_hash ''.salt'' ''pw'' (demo_hash ''pw.salt'')"
    by (simp add: check_password_hash_def hash_password_def list_all_iff demo_hash_def
        PASSWORD_HASH_SIZE_def)
  then show ?thesis
    by (simp add: login_user_def get_user_def demo_users_def auth_user_password_def demo_row_def
        authorize_user_def draw_fresh.simps token_cache_has_def token_cache_insert_def
        demo_session_def demo_token_def Let_def)
qed

lemma demo_reachable: "users_reachable demo_hash ''.salt'' demo_session"
proof (rule reach_step [OF reach_init])
  show "users_init demo_users" by (simp add: users_init_def demo_users_def)
  show "users_step demo_hash ''.salt'' demo_users (Login 100 ''alice'' ''pw'') demo_session"
    by (rule step_login [OF demo_login])
qed


text \<open>
  C6. A successful login opens exactly one session: the password matched, the new token was in
  nobody's use, every other token authenticates as before, and the new one authenticates as the
  user until a clean-up that runs more than two weeks (1209600 seconds) later.
\<close>

theorem login_opens_one_session:
  assumes "users_reachable sha512 salt s"
    and "login_user sha512 salt rng i now s n pw = Some (s', Inr tok, j)"
    and "m_user tok \<noteq> None"
  shows "\<exists>row. users_db s n = Some row \<and> check_password_hash sha512 salt pw (hashedPassword row) \<and>
    auth_user_token s (m_token tok) = None \<and>
    (\<forall>t. auth_user_token s' t =
       (if t = m_token tok then Some (user_of_row n row) else auth_user_token s t)) \<and>
    (\<forall>now'. auth_user_token (cron s' now') (m_token tok) =
       (if now' > now + 1209600 then None else Some (user_of_row n row)))"
  using login_user_session [OF users_reachable_inv [OF assms(1)] assms(2,3)]
  by (auto simp: auth_user_token_cron token_is_expired_def SESSION_LIFETIME_def)
    (auto simp: auth_user_token_def)

theorem login_opens_one_session_witness:
  "auth_user_token (cron demo_session 1209700) (get_token_string [1, 2]) =
     Some (user_of_row ''alice'' demo_row) \<and>
   auth_user_token (cron demo_session 1209701) (get_token_string [1, 2]) = None"
proof -
  have r: "users_reachable demo_hash ''.salt'' demo_users"
    by (rule reach_init) (simp add: users_init_def demo_users_def)
  have u: "m_user demo_token \<noteq> None" and t: "m_token demo_token = get_token_string [1, 2]"
    by (simp_all add: demo_token_def new_auth_token_def)
  from login_opens_one_session [OF r demo_login u] show ?thesis
    unfolding t by (auto simp: demo_users_def)
qed

text \<open>
  C5. Deleting an account ends all of its sessions: after \<open>delete_user\<close> returned, in any
  reachable state, no token authenticates as that user, the user is neither cached nor in the
  table, every session of another account is untouched, and if the account existed every mod was told.
\<close>

theorem delete_user_ends_sessions:
  assumes "users_reachable sha512 salt s" and "delete_user mods s n = (s', told, Inr ())"
  shows "(\<forall>t u. auth_user_token s' t = Some u \<longrightarrow> username u \<noteq> n) \<and>
    get_user s' n = (s', if db_up s' then Inr None else Inl DatabaseError) \<and> users_db s' n = None \<and>
    (\<forall>t u. auth_user_token s t = Some u \<and> username u \<noteq> n \<longrightarrow> auth_user_token s' t = Some u) \<and>
    (users_db s n \<noteq> None \<longrightarrow> told = mods)"
proof -
  have inv: "users_inv s" using assms(1) by (rule users_reachable_inv)
  then show ?thesis
  proof (cases rule: get_user_cases [where n = n, consumes 1])
    case err
    with assms(2) show ?thesis by (simp add: delete_user_def)
  next
    case none
    with assms(2) have s': "s' = s" by (simp add: delete_user_def)
    have "m_username_cache s n = None"
      using none users_inv_cache [OF inv, of n] by fastforce
    moreover have "username u \<noteq> n" if "auth_user_token s t = Some u" for t u
      using session_account [OF inv that] none by auto
    ultimately show ?thesis
      using none s' by (auto simp: get_user_def split: if_splits)
  next
    case (found s1 row)
    let ?tab = "erase_tokens_of (user_of_row n row) n (m_token_cache s1)"
    from assms(2) found have s': "m_token_cache s' = ?tab" "m_username_cache s' n = None"
      "users_db s' n = None" "told = mods" and up: "db_up s'"
      by (auto simp: delete_user_def Let_def split: if_splits)
    have gone: "username u \<noteq> n" if "auth_user_token s' t = Some u" for t u
      using that s'(1) erase_tokens_lookup [of "user_of_row n row" n "m_token_cache s1" t]
      by (auto simp: auth_user_token_def split: option.splits)
    have kept: "auth_user_token s' t = Some u" if "auth_user_token s t = Some u" "username u \<noteq> n" for t u
    proof -
      from that(1) obtain tok where tok: "m_token_cache s t = Some tok" "m_user tok = Some u"
        by (auto simp: auth_user_token_def split: option.splits)
      with that(2) have "token_of_user (user_of_row n row) n tok = Inr False"
        by (auto simp: token_of_user_def)
      with tok found(5) s'(1) show ?thesis
        by (simp add: auth_user_token_def erase_tokens_of_def)
    qed
    show ?thesis using gone kept s' up by (auto simp: get_user_def)
  qed
qed

theorem delete_user_ends_sessions_witness:
  "auth_user_token (fst (delete_user [''git''] demo_session ''alice'')) (get_token_string [1, 2]) = None \<and>
   users_db (fst (delete_user [''git''] demo_session ''alice'')) ''alice'' = None \<and>
   snd (delete_user [''git''] demo_session ''alice'') = ([''git''], Inr ())"
proof -
  let ?r = "delete_user [''git''] demo_session ''alice''"
  let ?tab = "erase_tokens_of (user_of_row ''alice'' demo_row) ''alice'' (m_token_cache demo_session)"
  have r: "snd ?r = ([''git''], Inr ())" "m_token_cache (fst ?r) = ?tab"
    by (simp_all add: delete_user_def get_user_def demo_session_def demo_users_def Let_def)
  have d: "?r = (fst ?r, [''git''], Inr ())" using r(1) by (metis prod.collapse)
  have none: "auth_user_token (fst ?r) (get_token_string [1, 2]) = None"
    unfolding auth_user_token_def r(2)
    by (simp add: erase_tokens_of_def token_of_user_def demo_session_def demo_token_def new_auth_token_def)
  have "users_db (fst ?r) ''alice'' = None"
    using delete_user_ends_sessions [OF demo_reachable d] by blast
  with none r(1) show ?thesis by simp
qed

text \<open>
  The password check after a sign-up: for an account just created, \<open>auth_user\<close> answers 0
  exactly for the passwords whose salted hash is that of the password given, and 1 for others. For
  a name that is not in the table it also answers 0, the code for success, whatever the password.
\<close>

theorem password_check:
  assumes "\<And>x. length (sha512 x) = PASSWORD_HASH_SIZE"
    and "add_user sha512 salt s user pw = (s', Inr True)"
  shows "auth_user_password sha512 salt s' (username user) pw' =
      (if sha512 (pw' @ salt) = sha512 (pw @ salt) then 0 else 1) \<and>
    (n \<noteq> username user \<and> users_db s n = None \<longrightarrow> auth_user_password sha512 salt s' n pw' = 0)"
  using assms(2) check_password_hash_iff [of sha512 pw' salt "sha512 (pw @ salt)"] assms(1)
  by (auto simp: add_user_def auth_user_password_def hash_password_def split: if_splits)

theorem password_check_witness:
  "auth_user_password demo_hash ''.salt''
     (fst (add_user demo_hash ''.salt'' demo_users \<lparr>username = ''bob'', is_admin = False, email = [], joined_ts = 0\<rparr> ''x''))
     ''bob'' ''y'' = 1 \<and>
   auth_user_password demo_hash ''.salt''
     (fst (add_user demo_hash ''.salt'' demo_users \<lparr>username = ''bob'', is_admin = False, email = [], joined_ts = 0\<rparr> ''x''))
     ''nobody'' ''y'' = 0"
proof -
  let ?u = "\<lparr>username = ''bob'', is_admin = False, email = [], joined_ts = 0\<rparr>"
  have len: "length (demo_hash x) = PASSWORD_HASH_SIZE" for x
    by (simp add: demo_hash_def PASSWORD_HASH_SIZE_def)
  obtain s' where s': "add_user demo_hash ''.salt'' demo_users ?u ''x'' = (s', Inr True)"
    by (simp add: add_user_def demo_users_def)
  have "demo_hash (''y'' @ ''.salt'') \<noteq> demo_hash (''x'' @ ''.salt'')"
    by (simp add: demo_hash_def)
  with password_check [OF len s', of "''y''" "''nobody''"] s' show ?thesis
    by (simp add: demo_users_def)
qed

end
