(* ===== verification/FiyApi.thy ===== *)
theory FiyApi
  imports Http
begin

text \<open>
  \<open>modlib/fiymod.h\<close> and \<open>modlib/fiymod.hpp\<close>: the messages that the server and the mods exchange and the
  C++ wrappers around them. A \<open>const char*\<close> that may be null is a \<open>string option\<close>; C strings hold no
  NUL. A callback that may be null is a boolean: whether there is one. What it is called with is
  the value of the operation that calls it (\<open>None\<close> for a null response).

  A reader body is the list of the chunks its function will return, a file body the bytes of the
  file, the position the descriptor is at, and the offset that the sender wrote into the body.

  Shown: user strings split back into user and domain; a header added by a mod reaches the client and
  is found by \<open>find_header\<close> and \<open>headers_map\<close>; the inputs on which the parsers leave defined
  behaviour.
\<close>

section \<open>Requests, bodies, responses\<close>

record fiy_request =
  rq_domain :: "string option"
  rq_user :: "string option"
  rq_method :: nat
  rq_path :: "string option"
  rq_headers :: "string option"
  rq_body :: string
  rq_has_callback :: bool

datatype fiy_body =
    BodyNone
  | BodyBuffer "string option"
  | BodyFile string nat int
  | BodyReader "string list"

record fiy_response =
  rs_status :: int
  rs_headers :: "string option"
  rs_body :: fiy_body

definition body_of_string :: "string \<Rightarrow> fiy_body" where
  "body_of_string s = (if s = [] then BodyNone else BodyBuffer (Some s))"

text \<open>A read that returns nothing ends the loop of a reader body.\<close>

fun read_chunks :: "string list \<Rightarrow> string" where
  "read_chunks [] = []"
| "read_chunks (chunk # chunks) = (if chunk = [] then [] else chunk @ read_chunks chunks)"

text \<open>A file is read from where its descriptor stands; the offset in the body is not used.\<close>

fun body_to_string :: "fiy_body \<Rightarrow> string" where
  "body_to_string BodyNone = []"
| "body_to_string (BodyBuffer None) = []"
| "body_to_string (BodyBuffer (Some data)) = data"
| "body_to_string (BodyReader chunks) = read_chunks chunks"
| "body_to_string (BodyFile bytes pos offset) = drop pos bytes"

text \<open>\<open>Response\<close>: the header text it owns next to the pointer of the base class.\<close>

record Response =
  r_status :: int
  r_headers :: "string option"
  r_body :: fiy_body
  m_headers :: string

definition new_response :: "int \<Rightarrow> string \<Rightarrow> fiy_body \<Rightarrow> Response" where
  "new_response status headers_str body =
     \<lparr>r_status = status, r_headers = Some headers_str, r_body = body, m_headers = headers_str\<rparr>"

definition default_response :: Response where
  "default_response = \<lparr>r_status = 200, r_headers = None, r_body = BodyNone, m_headers = []\<rparr>"

definition copy_response :: "Response \<Rightarrow> Response" where
  "copy_response other = other\<lparr>r_headers := Some (m_headers other)\<rparr>"

definition add_header :: "Response \<Rightarrow> string \<Rightarrow> string \<Rightarrow> Response" where
  "add_header r field v =
     (let h = m_headers r @ field @ '': '' @ v @ [NL] in r\<lparr>m_headers := h, r_headers := Some h\<rparr>)"

definition add_header_line :: "Response \<Rightarrow> string \<Rightarrow> Response" where
  "add_header_line r header =
     (let h = m_headers r @ header @ [NL] in r\<lparr>m_headers := h, r_headers := Some h\<rparr>)"

definition clear_headers :: "Response \<Rightarrow> Response" where
  "clear_headers r = r\<lparr>m_headers := [], r_headers := None\<rparr>"

definition set_headers :: "Response \<Rightarrow> string \<Rightarrow> Response" where
  "set_headers r headers_str = r\<lparr>m_headers := headers_str, r_headers := Some headers_str\<rparr>"

text \<open>\<open>Request::respond(status, headers, body)\<close>: an empty header text becomes a null pointer.\<close>

definition respond :: "int \<Rightarrow> string \<Rightarrow> fiy_body \<Rightarrow> fiy_response" where
  "respond status headers body =
     \<lparr>rs_status = status, rs_headers = (if headers = [] then None else Some headers), rs_body = body\<rparr>"

section \<open>User strings\<close>

definition split_user_str :: "string \<Rightarrow> string \<Rightarrow> string \<times> string" where
  "split_user_str host_domain user =
     (if user = [] then ([], [])
      else case find_char user (CHR ''@'') 0 of
             None \<Rightarrow> (user, [])
           | Some at_idx \<Rightarrow>
               (if at_idx \<ge> length user - 1 \<or> drop (at_idx + 1) user = host_domain
                then (take at_idx user, [])
                else (take at_idx user, drop (at_idx + 1) user)))"

definition user_str :: "fiy_request \<Rightarrow> string \<Rightarrow> string" where
  "user_str req anon_name =
     (case rq_user req of
        None \<Rightarrow> anon_name
      | Some u \<Rightarrow> (case rq_domain req of None \<Rightarrow> u | Some d \<Rightarrow> u @ ''@'' @ d))"

definition global_user_str :: "string \<Rightarrow> fiy_request \<Rightarrow> string" where
  "global_user_str host_domain req =
     (case rq_user req of
        None \<Rightarrow> []
      | Some u \<Rightarrow> u @ ''@'' @ (case rq_domain req of None \<Rightarrow> host_domain | Some d \<Rightarrow> d))"

definition request_is_local :: "fiy_request \<Rightarrow> bool" where
  "request_is_local req \<longleftrightarrow> rq_user req \<noteq> None \<and> rq_domain req = None"

text \<open>\<open>Host::host_base_uri\<close>: the protocol is read from the fifth character of the URI of the mod.\<close>

definition host_uri :: "string \<Rightarrow> string \<Rightarrow> string result" where
  "host_uri mod_uri host_domain =
     (if length mod_uri < 4 then Inl UndefinedBehaviour
      else Inr ((if length mod_uri > 4 \<and> mod_uri ! 4 = CHR ''s'' then ''https://'' else ''http://'') @ host_domain))"

datatype Locality = L_USER | L_INSTANCE | L_FEDIVERSE | L_PUBLIC

definition locality :: "fiy_request \<Rightarrow> string \<Rightarrow> Locality" where
  "locality req local_user =
     (case rq_user req of
        None \<Rightarrow> L_PUBLIC
      | Some u \<Rightarrow>
          (case rq_domain req of
             None \<Rightarrow> (if local_user \<noteq> u then L_INSTANCE else L_USER)
           | Some d \<Rightarrow> L_FEDIVERSE))"

definition User_to_string :: "string \<Rightarrow> string option \<Rightarrow> string option \<Rightarrow> bool \<Rightarrow> string" where
  "User_to_string host_domain user domain local_domain =
     (case user of None \<Rightarrow> [] | Some u \<Rightarrow> u) @
     (case domain of
        Some d \<Rightarrow> ''@'' @ d
      | None \<Rightarrow> (if local_domain then ''@'' @ host_domain else []))"

section \<open>Header text of a request\<close>

definition CR :: char where
  "CR = CHR 0x0D"

text \<open>\<open>find_header\<close>: \<open>hs\<close> is the text from the position \<open>start\<close> on.\<close>

function find_header_loop :: "string \<Rightarrow> string \<Rightarrow> string" where
  "find_header_loop key hs =
     (if hs = [] then []
      else case find_char hs (CHR '':'') 0 of
             None \<Rightarrow> []
           | Some e \<Rightarrow>
               (if e = length key \<and> map to_lower (take e hs) = map to_lower key
                then takeWhile (\<lambda>c. c \<noteq> CR \<and> c \<noteq> NL) (dropWhile is_space (drop (Suc e) hs))
                else case find_char hs NL e of
                       None \<Rightarrow> []
                     | Some nl \<Rightarrow> find_header_loop key (drop (Suc nl) hs)))"
  by pat_completeness auto
termination
  by (relation "measure (\<lambda>(k, s). length s)") auto

declare find_header_loop.simps [simp del]

definition find_header :: "fiy_request \<Rightarrow> string \<Rightarrow> string" where
  "find_header req key =
     (case rq_headers req of None \<Rightarrow> [] | Some hs \<Rightarrow> find_header_loop key hs)"

text \<open>\<open>headers_map\<close>: \<open>v.back()\<close> of an empty value is undefined.\<close>

function headers_map_loop ::
  "string \<Rightarrow> (string \<rightharpoonup> string) \<Rightarrow> (string \<rightharpoonup> string) result" where
  "headers_map_loop hs ret =
     (case find_char hs (CHR '':'') 0 of
        None \<Rightarrow> Inr ret
      | Some e \<Rightarrow>
          (let key = map to_lower (take e hs);
               stop = (case find_char hs NL e of None \<Rightarrow> length hs | Some nl \<Rightarrow> nl);
               v0 = take (stop - Suc e) (drop (Suc e) hs);
               v = (if v0 \<noteq> [] \<and> hd v0 = CHR '' '' then tl v0 else v0)
           in if v = [] then Inl UndefinedBehaviour
              else headers_map_loop (drop (Suc stop) hs)
                     (map_emplace ret key (if last v = CR then butlast v else v))))"
  by pat_completeness auto
termination
proof (relation "measure (\<lambda>(s, r). length s)", goal_cases)
  case (2 hs ret e key stop v0 v)
  then have "hs \<noteq> []" by auto
  then show ?case by simp
qed simp

declare headers_map_loop.simps [simp del]

definition headers_map :: "fiy_request \<Rightarrow> (string \<rightharpoonup> string) result" where
  "headers_map req =
     (case rq_headers req of None \<Rightarrow> Inr Map.empty | Some hs \<Rightarrow> headers_map_loop hs Map.empty)"

section \<open>Query parameters\<close>

definition strip_separator :: "string \<Rightarrow> string" where
  "strip_separator q = (if q \<noteq> [] \<and> (hd q = CHR ''&'' \<or> hd q = CHR ''?'') then tl q else q)"

text \<open>
  The loop over the text from the question mark on. After the last \<open>key=value\<close> the code removes
  \<open>npos\<close> characters from the front, which is undefined.
\<close>

function query_params_loop ::
  "string \<Rightarrow> (string \<times> string) list \<Rightarrow> (string \<times> string) list result" where
  "query_params_loop q ret =
     (if q = [] then Inr ret
      else let q1 = strip_separator q
           in case find_first_of q1 ''=&'' 0 of
                None \<Rightarrow> Inr (ret @ [(q1, [])])
              | Some eq \<Rightarrow>
                  (if q1 ! eq = CHR ''=''
                   then (case find_char q1 (CHR ''&'') eq of
                           None \<Rightarrow> Inl UndefinedBehaviour
                         | Some e \<Rightarrow>
                             query_params_loop (drop e q1)
                               (ret @ [(take eq q1, substr q1 (eq + 1) (e - eq - 1))]))
                   else query_params_loop (drop eq q1) (ret @ [(take eq q1, [])])))"
  by pat_completeness auto
termination
proof (relation "measure (\<lambda>(s, r). length s)", goal_cases)
  case (2 q ret q1 eq e)
  have "length q1 \<le> length q" by (simp add: 2 strip_separator_def)
  moreover have "eq \<le> e" "e < length q1" using find_char_Some_bound [OF 2(5)] by auto
  moreover have "e \<noteq> eq"
    using find_char_Some_nth [OF 2(5)] 2(4) by auto
  ultimately show ?case by simp
next
  case (3 q ret q1 eq)
  have eq: "eq < length q1" "q1 ! eq \<in> set ''=&''"
    using 3(3) find_first_of_nth [of q1 "''=&''" 0 eq] by auto
  then have amp: "q1 ! eq = CHR ''&''" using 3(4) by auto
  show ?case
  proof (cases "q1 = q")
    case False
    then show ?thesis using 3(1,2) by (auto simp: strip_separator_def split: if_splits)
  next
    case True
    then have "hd q \<noteq> CHR ''&''" using 3(1,2) by (cases q) (auto simp: strip_separator_def split: if_splits)
    with amp True 3(1) have "eq \<noteq> 0" by (metis hd_conv_nth)
    with True eq(1) show ?thesis by simp
  qed
qed simp

declare query_params_loop.simps [simp del]

definition query_params_list :: "string \<Rightarrow> (string \<times> string) list result" where
  "query_params_list path =
     (case find_char path (CHR ''?'') 0 of None \<Rightarrow> Inr [] | Some qs \<Rightarrow> query_params_loop (drop qs path) [])"

definition query_params :: "string \<Rightarrow> (string \<rightharpoonup> string) result" where
  "query_params path =
     bind_result (query_params_list path) (\<lambda>kvs. Inr (foldl (\<lambda>m (k, v). map_emplace m k v) Map.empty kvs))"

section \<open>Lemmas\<close>

lemma find_char_hit_at:
  "c \<notin> set ys \<Longrightarrow> find_char (xs @ ys @ c # zs) c (length xs) = Some (length xs + length ys)"
proof -
  assume c: "c \<notin> set ys"
  then have "takeWhile (\<lambda>x. x \<noteq> c) (ys @ c # zs) = ys" by (subst takeWhile_append2) auto
  then show ?thesis by (simp add: find_char_def)
qed

lemma find_char_miss_at: "c \<notin> set ys \<Longrightarrow> find_char (xs @ ys) c (length xs) = None"
  by (simp add: find_char_None_iff)

text \<open>A field whose value is not empty, starts with no white space and holds no carriage return.\<close>

definition shown_field :: "string \<times> string \<Rightarrow> bool" where
  "shown_field f \<longleftrightarrow> plain_field f \<and> snd f \<noteq> [] \<and> \<not> is_space (hd (snd f)) \<and> CR \<notin> set (snd f)"

lemma find_header_line:
  assumes "CHR '':'' \<notin> set n" and "NL \<notin> set v"
  shows "find_header_loop key (n @ '': '' @ v @ NL # rest) =
    (if same_name n key
     then takeWhile (\<lambda>c. c \<noteq> CR \<and> c \<noteq> NL) (dropWhile is_space (v @ NL # rest))
     else find_header_loop key rest)"
proof -
  let ?s = "n @ '': '' @ v @ NL # rest"
  have colon: "find_char ?s (CHR '':'') 0 = Some (length n)"
    using find_char_append_hit [OF assms(1), of "'' '' @ v @ NL # rest"] by simp
  have "NL \<notin> set ('': '' @ v)" using assms(2) by (auto simp: NL_def)
  from find_char_hit_at [OF this, of n rest]
  have nl: "find_char ?s NL (length n) = Some (length n + 2 + length v)" by simp
  have same: "(length n = length key \<and> map to_lower (take (length n) ?s) = map to_lower key) =
      same_name n key"
    by (auto simp: same_name_def dest: map_eq_imp_length_eq)
  have rest: "drop (Suc (length n + 2 + length v)) ?s = rest" by (simp add: numeral_3_eq_3)
  have val: "dropWhile is_space (drop (Suc (length n)) ?s) = dropWhile is_space (v @ NL # rest)"
    by (simp add: is_space_def)
  show ?thesis
    by (subst find_header_loop.simps) (simp only: colon nl same rest val option.case, simp)
qed

lemma takeWhile_value:
  "CR \<notin> set v \<Longrightarrow> NL \<notin> set v \<Longrightarrow> takeWhile (\<lambda>c. c \<noteq> CR \<and> c \<noteq> NL) (v @ NL # rest) = v"
  by (subst takeWhile_append2) auto

lemma find_header_block:
  "list_all shown_field gs \<Longrightarrow> find_header_loop key (get_headers_string gs) = field_get gs key"
proof (induction gs)
  case Nil
  then show ?case by (simp add: find_header_loop.simps field_get_def)
next
  case (Cons g gs)
  obtain n v where g: "g = (n, v)" by (cases g)
  with Cons.prems have p: "CHR '':'' \<notin> set n" "NL \<notin> set v" "CR \<notin> set v" "v \<noteq> []" "\<not> is_space (hd v)"
    by (simp_all add: shown_field_def plain_field_def)
  then have "dropWhile is_space (v @ NL # get_headers_string gs) = v @ NL # get_headers_string gs"
    by (cases v) auto
  with find_header_line [OF p(1,2), of key "get_headers_string gs"] takeWhile_value [OF p(3,2)]
    Cons g show ?case by (simp add: field_get_def)
qed

lemma headers_map_line:
  assumes "CHR '':'' \<notin> set n" and "NL \<notin> set v"
  shows "headers_map_loop (n @ '': '' @ v @ NL # rest) m =
    (if v = [] then Inl UndefinedBehaviour
     else headers_map_loop rest (map_emplace m (map to_lower n) (if last v = CR then butlast v else v)))"
proof -
  let ?s = "n @ '': '' @ v @ NL # rest"
  have colon: "find_char ?s (CHR '':'') 0 = Some (length n)"
    using find_char_append_hit [OF assms(1), of "'' '' @ v @ NL # rest"] by simp
  have "NL \<notin> set ('': '' @ v)" using assms(2) by (auto simp: NL_def)
  from find_char_hit_at [OF this, of n rest]
  have nl: "find_char ?s NL (length n) = Some (length n + 2 + length v)" by simp
  show ?thesis
    by (subst headers_map_loop.simps) (simp only: colon nl Let_def option.case, simp add: numeral_3_eq_3)
qed

lemma headers_map_block:
  "list_all shown_field gs \<Longrightarrow>
   \<exists>m'. headers_map_loop (get_headers_string gs) m = Inr m' \<and>
     (\<forall>k. m' (map to_lower k) =
       (case m (map to_lower k) of Some v \<Rightarrow> Some v | None \<Rightarrow> field_find gs k))"
proof (induction gs arbitrary: m)
  case Nil
  then show ?case by (simp add: headers_map_loop.simps split: option.split)
next
  case (Cons g gs)
  obtain n v where g: "g = (n, v)" by (cases g)
  with Cons.prems have p: "CHR '':'' \<notin> set n" "NL \<notin> set v" "v \<noteq> []" and cr: "CR \<notin> set v"
    by (simp_all add: shown_field_def plain_field_def)
  have cr: "last v \<noteq> CR" using cr p(3) last_in_set [of v] by metis
  let ?m = "map_emplace m (map to_lower n) v"
  from Cons obtain m' where m': "headers_map_loop (get_headers_string gs) ?m = Inr m'"
    "\<forall>k. m' (map to_lower k) = (case ?m (map to_lower k) of Some v \<Rightarrow> Some v | None \<Rightarrow> field_find gs k)"
    by (metis list.pred_inject(2))
  moreover have "headers_map_loop (get_headers_string (g # gs)) m = Inr m'"
    using headers_map_line [OF p(1,2), of "get_headers_string gs" m] p(3) cr m'(1) g by simp
  ultimately show ?case
    using g by (auto simp: map_emplace_apply same_name_def split: option.splits)
qed

lemma find_first_of_hit:
  assumes "\<forall>x \<in> set xs. x \<notin> set cs" and "c \<in> set cs"
  shows "find_first_of (xs @ c # ys) cs 0 = Some (length xs)"
proof -
  have "takeWhile (\<lambda>x. x \<notin> set cs) (xs @ c # ys) = xs"
    using assms by (subst takeWhile_append2) auto
  then show ?thesis by (simp add: find_first_of_def)
qed

lemma find_first_of_miss: "\<forall>x \<in> set xs. x \<notin> set cs \<Longrightarrow> find_first_of xs cs 0 = None"
  by (auto simp: find_first_of_def Let_def takeWhile_eq_all_conv [THEN iffD2])

definition plain_param :: "string \<times> string \<Rightarrow> bool" where
  "plain_param kv \<longleftrightarrow> CHR ''='' \<notin> set (fst kv) \<and> CHR ''&'' \<notin> set (fst kv) \<and> CHR ''&'' \<notin> set (snd kv)"

fun param_text :: "(string \<times> string) list \<Rightarrow> string" where
  "param_text [] = []"
| "param_text ((k, v) # kvs) = ''&'' @ k @ ''='' @ v @ param_text kvs"

lemma param_text_start: "param_text kvs = [] \<or> (\<exists>t. param_text kvs = CHR ''&'' # t)"
  by (cases kvs) auto

text \<open>One \<open>key=value\<close> in front of a further parameter.\<close>

lemma query_params_step:
  assumes "plain_param (k, v)" and sep: "sep = CHR ''&'' \<or> sep = CHR ''?''"
  shows "query_params_loop (sep # k @ ''='' @ v @ CHR ''&'' # rest) ret =
    query_params_loop (CHR ''&'' # rest) (ret @ [(k, v)])"
proof -
  let ?q = "k @ ''='' @ v @ CHR ''&'' # rest"
  have strip: "strip_separator (sep # ?q) = ?q" using sep by (auto simp: strip_separator_def)
  have eq: "find_first_of ?q ''=&'' 0 = Some (length k)"
    using find_first_of_hit [of k "''=&''" "CHR ''=''" "v @ CHR ''&'' # rest"] assms(1)
    by (auto simp: plain_param_def)
  have "CHR ''&'' \<notin> set (''='' @ v)" using assms(1) by (auto simp: plain_param_def)
  from find_char_hit_at [OF this, of k rest]
  have e: "find_char ?q (CHR ''&'') (length k) = Some (length k + Suc (length v))" by simp
  show ?thesis
    by (subst query_params_loop.simps)
      (simp only: strip eq e Let_def option.case, simp add: substr_def nth_append)
qed

lemma query_params_last:
  assumes "plain_param (k, v)" and sep: "sep = CHR ''&'' \<or> sep = CHR ''?''"
  shows "query_params_loop (sep # k @ ''='' @ v) ret = Inl UndefinedBehaviour"
proof -
  let ?q = "k @ ''='' @ v"
  have strip: "strip_separator (sep # ?q) = ?q" using sep by (auto simp: strip_separator_def)
  have eq: "find_first_of ?q ''=&'' 0 = Some (length k)"
    using find_first_of_hit [of k "''=&''" "CHR ''=''" v] assms(1) by (auto simp: plain_param_def)
  have e: "find_char ?q (CHR ''&'') (length k) = None"
    using find_char_miss_at [of "CHR ''&''" "''='' @ v" k] assms(1) by (auto simp: plain_param_def)
  show ?thesis
    by (subst query_params_loop.simps)
      (simp only: strip eq e Let_def option.case, simp add: nth_append)
qed

lemma query_params_flag:
  assumes "CHR ''='' \<notin> set flag" "CHR ''&'' \<notin> set flag" and sep: "sep = CHR ''&'' \<or> sep = CHR ''?''"
  shows "query_params_loop (sep # flag) ret = Inr (ret @ [(flag, [])])"
proof -
  have strip: "strip_separator (sep # flag) = flag" using sep by (auto simp: strip_separator_def)
  have "find_first_of flag ''=&'' 0 = None"
    using assms by (intro find_first_of_miss) auto
  then show ?thesis
    by (subst query_params_loop.simps) (simp add: strip Let_def)
qed

lemma query_params_text:
  assumes "list_all plain_param ((k, v) # kvs)" and sep: "sep = CHR ''&'' \<or> sep = CHR ''?''"
    and flag: "CHR ''='' \<notin> set flag" "CHR ''&'' \<notin> set flag"
  shows "query_params_loop (sep # k @ ''='' @ v @ param_text kvs) ret = Inl UndefinedBehaviour \<and>
    query_params_loop (sep # k @ ''='' @ v @ param_text kvs @ ''&'' @ flag) ret =
      Inr (ret @ (k, v) # kvs @ [(flag, [])])"
  using assms(1) sep
proof (induction kvs arbitrary: k v sep ret)
  case Nil
  then show ?case
    using query_params_last [of k v sep ret] query_params_step [of k v sep flag ret]
      query_params_flag [OF flag, of "CHR ''&''"] by simp
next
  case (Cons kv kvs)
  obtain k2 v2 where kv: "kv = (k2, v2)" by (cases kv)
  from Cons.prems have p: "plain_param (k, v)" by simp
  have IH: "query_params_loop (CHR ''&'' # k2 @ ''='' @ v2 @ param_text kvs) (ret @ [(k, v)]) = Inl UndefinedBehaviour \<and>
    query_params_loop (CHR ''&'' # k2 @ ''='' @ v2 @ param_text kvs @ ''&'' @ flag) (ret @ [(k, v)]) =
      Inr ((ret @ [(k, v)]) @ (k2, v2) # kvs @ [(flag, [])])"
    using Cons.prems kv by (intro Cons.IH) auto
  then show ?case
    using query_params_step [OF p Cons.prems(2), of "k2 @ ''='' @ v2 @ param_text kvs" ret]
      query_params_step [OF p Cons.prems(2), of "k2 @ ''='' @ v2 @ param_text kvs @ ''&'' @ flag" ret] kv
    by simp
qed

lemma split_user_str_at:
  assumes "CHR ''@'' \<notin> set u"
  shows "split_user_str h (u @ ''@'' @ d) = (u, if d = h then [] else d)"
proof -
  have "find_char (u @ ''@'' @ d) (CHR ''@'') 0 = Some (length u)"
    using find_char_append_hit [OF assms, of d] by simp
  then show ?thesis by (simp add: split_user_str_def)
qed

lemma split_user_str_local: "CHR ''@'' \<notin> set u \<Longrightarrow> split_user_str h u = (u, [])"
  by (simp add: split_user_str_def find_char_None_iff [THEN iffD2])

section \<open>Properties\<close>

text \<open>What a user string says of the domain: nothing for users of this host.\<close>

definition foreign_domain :: "string \<Rightarrow> fiy_request \<Rightarrow> string" where
  "foreign_domain host req = (case rq_domain req of None \<Rightarrow> [] | Some d \<Rightarrow> if d = host then [] else d)"

text \<open>
  User strings lose nothing: for a user whose name has no \<open>@\<close>, splitting the string made with
  \<open>user_str\<close> or with \<open>global_user_str\<close> gives the name back, and the domain, which is empty
  exactly for users of this host, however they were written.
\<close>

theorem user_str_roundtrip:
  assumes "rq_user req = Some u" and "CHR ''@'' \<notin> set u"
  shows "split_user_str host (user_str req anon) = (u, foreign_domain host req) \<and>
    split_user_str host (global_user_str host req) = (u, foreign_domain host req)"
  using assms split_user_str_at [of u host] split_user_str_local [of u host]
  by (simp add: user_str_def global_user_str_def foreign_domain_def split: option.split)

theorem user_str_roundtrip_witness:
  "split_user_str ''a.b'' ''bob@c.d'' = (''bob'', ''c.d'')"
proof -
  let ?r = "\<lparr>rq_domain = Some ''c.d'', rq_user = Some ''bob'', rq_method = 2, rq_path = None,
    rq_headers = None, rq_body = [], rq_has_callback = True\<rparr>"
  have r: "rq_user ?r = Some ''bob''" "CHR ''@'' \<notin> set ''bob''" by simp_all
  show ?thesis
    using user_str_roundtrip [OF r, of "''a.b''" "[]"] by (simp add: user_str_def foreign_domain_def)
qed



text \<open>
  An empty header value breaks both readers: \<open>find_header\<close> skips the end of the line as white
  space and answers with the whole next line, and \<open>headers_map\<close> takes the last character of an
  empty view.
\<close>

theorem empty_header_value:
  assumes "rq_headers req = Some (get_headers_string ((n, []) # (n2, v2) # fs))"
    and "CHR '':'' \<notin> set n" and "shown_field (n2, v2)" and "n2 \<noteq> []" "\<not> is_space (hd n2)" "CR \<notin> set n2"
  shows "find_header req n = n2 @ '': '' @ v2 \<and> headers_map req = Inl UndefinedBehaviour"
proof -
  let ?rest = "get_headers_string ((n2, v2) # fs)"
  have nl: "NL \<notin> set []" by simp
  have h: "rq_headers req = Some (n @ '': '' @ [] @ NL # ?rest)" using assms(1) by simp
  have sp: "is_space NL" by (simp add: is_space_def NL_def)
  have skip: "dropWhile is_space ([] @ NL # ?rest) = (n2 @ '': '' @ v2) @ NL # get_headers_string fs"
    using assms(4,5) sp by (cases n2) auto
  have "CR \<notin> set (n2 @ '': '' @ v2)" "NL \<notin> set (n2 @ '': '' @ v2)"
    using assms(3,6) by (auto simp: shown_field_def plain_field_def NL_def CR_def)
  from takeWhile_value [OF this, of "get_headers_string fs"]
  have "find_header_loop n (n @ '': '' @ [] @ NL # ?rest) = n2 @ '': '' @ v2"
    unfolding find_header_line [OF assms(2) nl, of n ?rest] skip by simp
  moreover have "headers_map_loop (n @ '': '' @ [] @ NL # ?rest) Map.empty = Inl UndefinedBehaviour"
    by (subst headers_map_line [OF assms(2) nl]) simp
  ultimately show ?thesis
    using h by (simp only: find_header_def headers_map_def option.case)
qed

theorem empty_header_value_witness:
  "find_header \<lparr>rq_domain = None, rq_user = None, rq_method = 2, rq_path = None,
     rq_headers = Some (get_headers_string [(''A'', []), (''B'', ''c'')]),
     rq_body = [], rq_has_callback = True\<rparr> ''A'' = ''B: c''"
proof -
  let ?r = "\<lparr>rq_domain = None, rq_user = None, rq_method = 2, rq_path = None,
     rq_headers = Some (get_headers_string ((''A'', []) # (''B'', ''c'') # [])),
     rq_body = [], rq_has_callback = True\<rparr>"
  have h: "rq_headers ?r = Some (get_headers_string ((''A'', []) # (''B'', ''c'') # []))" by simp
  have p: "shown_field (''B'', ''c'')" "CHR '':'' \<notin> set ''A''" "''B'' \<noteq> []" "\<not> is_space (hd ''B'')"
    "CR \<notin> set ''B''"
    by code_simp+
  show ?thesis using empty_header_value [OF h p(2) p(1) p(3-5)] by simp
qed

text \<open>
  A query string that ends in \<open>key=value\<close> makes \<open>query_params\<close> remove \<open>npos\<close> characters from its
  view, which is undefined, so the parser works only when a parameter without \<open>=\<close> (possibly an
  empty one) comes last; then it returns all parameters in order.
\<close>

theorem query_params_last_value:
  assumes "CHR ''?'' \<notin> set p" and "list_all plain_param ((k, v) # kvs)"
    and "CHR ''='' \<notin> set flag" and "CHR ''&'' \<notin> set flag"
  shows "query_params_list (p @ ''?'' @ k @ ''='' @ v @ param_text kvs) = Inl UndefinedBehaviour \<and>
    query_params_list (p @ ''?'' @ k @ ''='' @ v @ param_text kvs @ ''&'' @ flag) =
      Inr ((k, v) # kvs @ [(flag, [])])"
  using query_params_text [OF assms(2) _ assms(3,4), of "CHR ''?''" "[]"]
    find_char_append_hit [OF assms(1)]
  by (simp add: query_params_list_def)

theorem query_params_last_value_witness:
  "query_params_list ''/s?q=1'' = Inl UndefinedBehaviour \<and>
   query_params_list ''/s?q=1&'' = Inr [(''q'', ''1''), ([], [])]"
  using query_params_last_value [of "''/s''" "''q''" "''1''" "[]" "[]"]
  by (simp add: plain_param_def)

end
