(* ===== verification/Peers.thy ===== *)
theory Peers
  imports Tokens FiyApi
begin

text \<open>
  \<open>protocol/peers\<close>: other servers. \<open>PeerAuth\<close> and \<open>Peer\<close> are records, the two tables of \<open>Peers\<close> maps;
  a null \<open>shared_ptr\<close> is \<open>None\<close>. A peer is not changed any more once it is in a table, so it is kept
  by value. HMAC, signing and verifying are parameters (\<open>hmac\<close>, \<open>sign\<close>, \<open>verify\<close>), the latter two
  fallible, since the OpenSSL wrappers throw.

  The asynchronous exchanges are cut at the network calls: an operation ends in the message it
  sends, and each callback is an operation of its own, so that anything may happen in between.

  Shown: the invariant of the two tables over all interleavings of callbacks, incoming handshakes
  and clean-ups; why no handshake between two servers that run this code can complete; what a
  failed link leaves behind; what a mod can put into a message to a peer.
\<close>

section \<open>PeerAuth and Peer\<close>

record PeerAuth =
  sym_key :: string
  pubkey :: string
  bearer_token_we_send :: string
  bearer_token_we_accept :: string
  link_ts :: int

record Peer =
  peer_domain :: string
  auth :: PeerAuth

definition PEER_LIFETIME :: int where
  "PEER_LIFETIME = 60 * 60 * 24 * 7"

definition MAX_RESPONSE_TIME :: int where
  "MAX_RESPONSE_TIME = 60 * 90"

definition REAUTH_HTTP_STATUS :: int where
  "REAUTH_HTTP_STATUS = 478"

definition no_peer_auth :: PeerAuth where
  "no_peer_auth = \<lparr>sym_key = [], pubkey = [], bearer_token_we_send = [],
     bearer_token_we_accept = [], link_ts = 0\<rparr>"

text \<open>The constructor with four arguments, and the one with three that delegates to it.\<close>

definition peer_auth4 :: "string \<Rightarrow> string \<Rightarrow> string \<Rightarrow> int \<Rightarrow> PeerAuth" where
  "peer_auth4 key peer_provided_token our_generated_token now =
     \<lparr>sym_key = key, pubkey = [], bearer_token_we_send = peer_provided_token,
      bearer_token_we_accept = our_generated_token, link_ts = now\<rparr>"

definition peer_auth3 :: "string \<Rightarrow> string \<Rightarrow> string \<Rightarrow> int \<Rightarrow> PeerAuth" where
  "peer_auth3 key peer_provided_token our_generated_token now =
     peer_auth4 peer_provided_token our_generated_token key now"

definition auth_is_expired :: "PeerAuth \<Rightarrow> int \<Rightarrow> bool" where
  "auth_is_expired a now \<longleftrightarrow> now > link_ts a + PEER_LIFETIME"

definition handshake_start :: "PeerAuth \<Rightarrow> string \<Rightarrow> string \<Rightarrow> string \<Rightarrow> PeerAuth" where
  "handshake_start a our_generated_token peer_pubkey our_symkey_half =
     a\<lparr>pubkey := peer_pubkey, bearer_token_we_send := our_generated_token, sym_key := our_symkey_half\<rparr>"

definition handshake_payload :: "string \<Rightarrow> PeerAuth \<Rightarrow> string" where
  "handshake_payload hostname a = hostname @ [NL] @ sym_key a @ [NL] @ bearer_token_we_accept a"

definition handshake_request_body ::
  "(string \<Rightarrow> string result) \<Rightarrow> string \<Rightarrow> PeerAuth \<Rightarrow> string result" where
  "handshake_request_body sign hostname a =
     (let payload = handshake_payload hostname a
      in bind_result (sign payload) (\<lambda>signature. Inr (payload @ [NL] @ signature)))"

text \<open>The object is returned next to the result: it is changed before the checks are done.\<close>

definition handshake_parse_response ::
  "(string \<Rightarrow> string \<Rightarrow> string \<Rightarrow> bool result) \<Rightarrow> int \<Rightarrow> PeerAuth \<Rightarrow> string \<Rightarrow> PeerAuth \<times> bool result" where
  "handshake_parse_response verify now a body =
     (case find_char body NL 0 of
        None \<Rightarrow> (a, Inr False)
      | Some eol \<Rightarrow>
          (let a1 = a\<lparr>bearer_token_we_send := take eol body\<rparr>;
               start = eol + 1
           in case find_char body NL start of
                None \<Rightarrow> (a1, Inr False)
              | Some eol2 \<Rightarrow>
                  (let secret_part2 = substr body start (eol2 - start);
                       a2 = a1\<lparr>sym_key := sym_key a1 @ secret_part2\<rparr>;
                       sig = drop (eol2 + 1) body;
                       pre_sig = ''{}\<newline>{}'' @ bearer_token_we_send a2 @ secret_part2
                   in case verify (pubkey a2) pre_sig sig of
                        Inl e \<Rightarrow> (a2, Inl e)
                      | Inr ok \<Rightarrow> (if \<not> ok then (a2, Inr False) else (a2\<lparr>link_ts := now\<rparr>, Inr True)))))"

definition peer_sig ::
  "(string \<Rightarrow> string \<Rightarrow> string) \<Rightarrow> Peer \<Rightarrow> string \<Rightarrow> string \<Rightarrow> string \<Rightarrow> nat \<Rightarrow> string \<Rightarrow> string" where
  "peer_sig hmac peer appid path user body_len ts_str =
     hmac (sym_key (auth peer)) (''FIY'' @ appid @ path @ user @ show_nat body_len @ ts_str)"

text \<open>
  \<open>parse_handshake_request\<close>; \<open>gen\<close> is the token that the default argument of the constructor draws.
  The result pairs the peer with the signature that the function returns by reference.
\<close>

definition parse_handshake_request :: "string \<Rightarrow> int \<Rightarrow> string \<Rightarrow> (Peer \<times> string) option" where
  "parse_handshake_request gen now body =
     (case find_char body NL 0 of
        None \<Rightarrow> None
      | Some eol \<Rightarrow>
          (let domain = take eol body; start = eol + 1
           in case find_char body NL start of
                None \<Rightarrow> None
              | Some eol2 \<Rightarrow>
                  (let secret = substr body start (eol2 - start); start2 = eol2 + 1
                   in case find_char body NL start2 of
                        None \<Rightarrow> None
                      | Some eol3 \<Rightarrow>
                          (let bearer_token = substr body start2 (eol3 - start2);
                               signature = drop (eol3 + 1) body
                           in if signature = [] \<or> bearer_token = [] \<or> secret = [] \<or> domain = [] then None
                              else Some (\<lparr>peer_domain = domain,
                                          auth = peer_auth3 secret bearer_token gen now\<rparr>, signature)))))"

section \<open>The tables\<close>

record peers_state =
  m_peers_out :: "string \<rightharpoonup> Peer option"
  m_peers_in :: "string \<rightharpoonup> Peer option"

definition no_peers :: peers_state where
  "no_peers = \<lparr>m_peers_out = Map.empty, m_peers_in = Map.empty\<rparr>"

definition add_peer :: "peers_state \<Rightarrow> string \<Rightarrow> Peer \<Rightarrow> peers_state \<times> bool" where
  "add_peer s domain p =
     (if m_peers_out s domain \<noteq> None then (s, False)
      else let s1 = s\<lparr>m_peers_out := (m_peers_out s)(domain \<mapsto> Some p)\<rparr>
           in if m_peers_in s1 (bearer_token_we_accept (auth p)) \<noteq> None
              then (s1\<lparr>m_peers_out := (m_peers_out s1)(domain := None)\<rparr>, False)
              else (s1\<lparr>m_peers_in := (m_peers_in s1)(bearer_token_we_accept (auth p) \<mapsto> Some p)\<rparr>, True))"

definition peers_in_has :: "peers_state \<Rightarrow> string \<Rightarrow> bool" where
  "peers_in_has s t \<longleftrightarrow> m_peers_in s t \<noteq> None"

definition peers_in_put :: "peers_state \<Rightarrow> string \<Rightarrow> Peer option \<Rightarrow> peers_state" where
  "peers_in_put s t p = s\<lparr>m_peers_in := (m_peers_in s)(t \<mapsto> p)\<rparr>"

definition new_token_stub ::
  "(nat \<Rightarrow> nat list) \<Rightarrow> nat \<Rightarrow> peers_state \<Rightarrow> (peers_state \<times> string \<times> nat) option" where
  "new_token_stub rng i s =
     map_option (\<lambda>(t, j). (peers_in_put s t None, t, j)) (draw_fresh (peers_in_has s) rng i)"

definition erase_in :: "peers_state \<Rightarrow> string \<Rightarrow> peers_state" where
  "erase_in s t = s\<lparr>m_peers_in := (m_peers_in s)(t := None)\<rparr>"

definition remove_peer :: "peers_state \<Rightarrow> string \<Rightarrow> peers_state \<times> bool" where
  "remove_peer s domain =
     (case m_peers_out s domain of
        Some (Some p) \<Rightarrow>
          (let s1 = erase_in s (bearer_token_we_accept (auth p))
           in (s1\<lparr>m_peers_out := (m_peers_out s1)(domain := None)\<rparr>, True))
      | _ \<Rightarrow> (s, False))"

definition get_peer_for_domain :: "peers_state \<Rightarrow> string \<Rightarrow> Peer option" where
  "get_peer_for_domain s domain = (case m_peers_out s domain of Some p \<Rightarrow> p | None \<Rightarrow> None)"

definition get_peer_from_token :: "peers_state \<Rightarrow> string \<Rightarrow> Peer option" where
  "get_peer_from_token s token = (case m_peers_in s token of Some p \<Rightarrow> p | None \<Rightarrow> None)"

definition expired_entry :: "int \<Rightarrow> Peer option \<Rightarrow> bool" where
  "expired_entry now e \<longleftrightarrow> (case e of None \<Rightarrow> False | Some p \<Rightarrow> auth_is_expired (auth p) now)"

definition prune :: "peers_state \<Rightarrow> int \<Rightarrow> peers_state" where
  "prune s now =
     \<lparr>m_peers_out = (\<lambda>d. if \<exists>p \<in> ran (m_peers_in s). expired_entry now p \<and> map_option peer_domain p = Some d
                        then None else m_peers_out s d),
      m_peers_in = (\<lambda>t. case m_peers_in s t of
                          None \<Rightarrow> None
                        | Some e \<Rightarrow> if expired_entry now e then None else Some e)\<rparr>"

interpretation peer_token_table: token_table peers_in_has m_peers_in peers_in_put
  by unfold_locales (simp_all add: peers_in_has_def peers_in_put_def)

section \<open>Linking with a new peer\<close>

text \<open>A message to another server. \<open>use_https\<close>: a domain with a port is reached over plain HTTP.\<close>

record outgoing =
  out_https :: bool
  out_host :: string
  out_request :: http_request

definition use_https :: "string \<Rightarrow> bool" where
  "use_https domain \<longleftrightarrow> find_char domain (CHR '':'') 0 = None"

definition new_peer :: "string \<Rightarrow> outgoing" where
  "new_peer domain =
     \<lparr>out_https = use_https domain, out_host = domain,
      out_request = \<lparr>req_method = verb_get, req_target = ''/peer/key'', req_fields = [], req_body = []\<rparr>\<rparr>"

text \<open>
  \<open>with_key_cb\<close>: the reply to the key request. \<open>Inl\<close> is an exception, \<open>Inr (Inl None)\<close> the call
  \<open>cb(nullptr)\<close>, \<open>Inr (Inr (p, msg))\<close> a handshake request \<open>msg\<close> whose callbacks hold the peer \<open>p\<close>.
  \<open>half\<close> is the half of the shared secret that is drawn as a default argument.
\<close>

definition with_key_cb ::
  "(string \<Rightarrow> string result) \<Rightarrow> string \<Rightarrow> (nat \<Rightarrow> nat list) \<Rightarrow> nat \<Rightarrow> string \<Rightarrow> peers_state \<Rightarrow> string \<Rightarrow>
   http_response \<Rightarrow> (peers_state \<times> (Peer option + Peer \<times> outgoing) result) option" where
  "with_key_cb sign hostname rng i half s domain res =
     (if res_status res \<noteq> 200 \<or> res_body res = [] then Some (s, Inr (Inl None))
      else case new_token_stub rng i s of
             None \<Rightarrow> None
           | Some (s1, t, j) \<Rightarrow>
               (let peer = \<lparr>peer_domain = domain,
                            auth = handshake_start no_peer_auth t (res_body res) half\<rparr>
                in Some (s1, bind_result (handshake_request_body sign hostname (auth peer)) (\<lambda>payload.
                     Inr (Inr (peer,
                       \<lparr>out_https = use_https domain, out_host = domain,
                        out_request = \<lparr>req_method = verb_post, req_target = ''/peer/handshake'',
                                       req_fields = [], req_body = payload\<rparr>\<rparr>))))))"

text \<open>
  \<open>handshake_cb\<close> up to the second lock: \<open>Inl r\<close> is the call \<open>cb r\<close>, \<open>Inr p\<close> goes on.
\<close>

definition handshake_cb_add ::
  "(string \<Rightarrow> string \<Rightarrow> string \<Rightarrow> bool result) \<Rightarrow> int \<Rightarrow> peers_state \<Rightarrow> Peer \<Rightarrow> http_response \<Rightarrow>
   peers_state \<times> (Peer option + Peer) result" where
  "handshake_cb_add verify now s peer res =
     (if res_status res \<noteq> 200 then (s, Inr (Inl None))
      else case handshake_parse_response verify now (auth peer) (res_body res) of
             (a, Inl e) \<Rightarrow> (s, Inl e)
           | (a, Inr False) \<Rightarrow> (erase_in s (bearer_token_we_accept a), Inr (Inl None))
           | (a, Inr True) \<Rightarrow>
               (let p = peer\<lparr>auth := a\<rparr>
                in case add_peer s (peer_domain p) p of
                     (s1, False) \<Rightarrow> (s1, Inr (Inl None))
                   | (s1, True) \<Rightarrow> (s1, Inr (Inr p))))"

definition handshake_cb_finish :: "peers_state \<Rightarrow> Peer \<Rightarrow> peers_state \<times> Peer option" where
  "handshake_cb_finish s p =
     (let t = bearer_token_we_accept (auth p); s1 = peers_in_put s t (Some p)
      in if m_peers_out s1 (peer_domain p) \<noteq> None then (erase_in s1 t, None)
         else (s1\<lparr>m_peers_out := (m_peers_out s1)(peer_domain p \<mapsto> Some p)\<rparr>, Some p))"

definition handshake_cb ::
  "(string \<Rightarrow> string \<Rightarrow> string \<Rightarrow> bool result) \<Rightarrow> int \<Rightarrow> peers_state \<Rightarrow> Peer \<Rightarrow> http_response \<Rightarrow>
   peers_state \<times> Peer option result" where
  "handshake_cb verify now s peer res =
     (case handshake_cb_add verify now s peer res of
        (s1, Inl e) \<Rightarrow> (s1, Inl e)
      | (s1, Inr (Inl r)) \<Rightarrow> (s1, Inr r)
      | (s1, Inr (Inr p)) \<Rightarrow> (case handshake_cb_finish s1 p of (s2, r) \<Rightarrow> (s2, Inr r)))"

definition handshake_err_cb :: "peers_state \<Rightarrow> Peer \<Rightarrow> peers_state \<times> Peer option" where
  "handshake_err_cb s peer = (erase_in s (bearer_token_we_accept (auth peer)), None)"

section \<open>Requests to peers\<close>

text \<open>What an operation does to the outside, in order.\<close>

datatype peer_effect =
    Callback "fiy_response option"
  | LocalMod string
  | SendToPeer outgoing
  | LinkPeer outgoing

definition run_callback :: "fiy_request \<Rightarrow> fiy_response option \<Rightarrow> peer_effect list" where
  "run_callback req r = (if rq_has_callback req then [Callback r] else [])"

text \<open>The message; a null \<open>domain\<close> is passed to a string view, which is undefined.\<close>

definition peer_message ::
  "(string \<Rightarrow> string \<Rightarrow> string) \<Rightarrow> int \<Rightarrow> Peer \<Rightarrow> string \<Rightarrow> fiy_request \<Rightarrow> http_request result" where
  "peer_message hmac now peer appid req =
     (let user = (case rq_user req of Some u \<Rightarrow> u | None \<Rightarrow> []);
          path = (case rq_path req of Some p \<Rightarrow> p | None \<Rightarrow> []);
          now_str = show_int now;
          f1 = field_set [] ''Fiy-Peer'' (bearer_token_we_send (auth peer));
          f2 = field_set f1 ''Fiy-User'' user;
          f3 = field_set f2 ''Fiy-Path'' path;
          f4 = field_set f3 ''Fiy-Now'' now_str;
          f5 = field_set f4 ''Authorization''
                 (''FIY1 '' @ peer_sig hmac peer appid path user (length (rq_body req)) now_str)
      in case rq_domain req of
           None \<Rightarrow> Inl UndefinedBehaviour
         | Some d \<Rightarrow>
             Inr \<lparr>req_method = rq_method req, req_target = ''/mods/'' @ appid,
                  req_fields = response_set_headers (field_set f5 ''Host'' d) (rq_headers req) False,
                  req_body = rq_body req\<rparr>)"

definition request_peer ::
  "(string \<Rightarrow> string \<Rightarrow> string) \<Rightarrow> int \<Rightarrow> Peer option \<Rightarrow> string \<Rightarrow> fiy_request \<Rightarrow> peer_effect list result" where
  "request_peer hmac now peer appid req =
     (case peer of
        None \<Rightarrow> Inr (run_callback req None)
      | Some p \<Rightarrow> bind_result (peer_message hmac now p appid req) (\<lambda>msg.
          Inr [SendToPeer \<lparr>out_https = use_https (peer_domain p), out_host = peer_domain p, out_request = msg\<rparr>]))"

text \<open>The overload that takes a domain; \<open>has_mod\<close> says whether the id is that of a loaded mod.\<close>

definition request_peer_domain ::
  "(string \<Rightarrow> string \<Rightarrow> string) \<Rightarrow> int \<Rightarrow> string \<Rightarrow> (string \<Rightarrow> bool) \<Rightarrow> peers_state \<Rightarrow> string \<Rightarrow> string \<Rightarrow>
   fiy_request \<Rightarrow> peer_effect list result" where
  "request_peer_domain hmac now hostname has_mod s domain appid req =
     (if domain = [] \<or> domain = hostname
      then Inr (if has_mod appid then [LocalMod appid] else run_callback req None)
      else case get_peer_for_domain s domain of
             Some p \<Rightarrow> request_peer hmac now (Some p) appid req
           | None \<Rightarrow> Inr [LinkPeer (new_peer domain)])"

text \<open>The continuation given to \<open>new_peer\<close>.\<close>

definition link_done ::
  "(string \<Rightarrow> string \<Rightarrow> string) \<Rightarrow> int \<Rightarrow> string \<Rightarrow> fiy_request \<Rightarrow> Peer option \<Rightarrow> peer_effect list result" where
  "link_done hmac now appid req linked =
     (case linked of
        Some p \<Rightarrow> request_peer hmac now (Some p) appid req
      | None \<Rightarrow> Inr (run_callback req None))"

text \<open>The callbacks of the message. There is no return after the peer has asked for a new link.\<close>

definition peer_response_cb :: "string \<Rightarrow> fiy_request \<Rightarrow> http_response \<Rightarrow> peer_effect list" where
  "peer_response_cb domain req res =
     (if res_status res = REAUTH_HTTP_STATUS then [LinkPeer (new_peer domain)] else []) @
     (if \<not> rq_has_callback req then []
      else [Callback (Some \<lparr>rs_status = res_status res,
              rs_headers = Some (get_headers_string (res_fields res)),
              rs_body = body_of_string (res_body res)\<rparr>)])"

definition peer_err_cb :: "fiy_request \<Rightarrow> peer_effect list" where
  "peer_err_cb req = run_callback req None"

section \<open>Invariant\<close>

definition peers_inv :: "peers_state \<Rightarrow> bool" where
  "peers_inv s \<longleftrightarrow>
     (\<forall>t p. m_peers_in s t = Some (Some p) \<longrightarrow>
        t = bearer_token_we_accept (auth p) \<and> m_peers_out s (peer_domain p) = Some (Some p)) \<and>
     (\<forall>d e. m_peers_out s d = Some e \<longrightarrow> (\<exists>p. e = Some p \<and> peer_domain p = d))"

lemma peers_invI:
  assumes "\<And>t p. m_peers_in s t = Some (Some p) \<Longrightarrow>
      t = bearer_token_we_accept (auth p) \<and> m_peers_out s (peer_domain p) = Some (Some p)"
    and "\<And>d e. m_peers_out s d = Some e \<Longrightarrow> \<exists>p. e = Some p \<and> peer_domain p = d"
  shows "peers_inv s"
  using assms by (simp add: peers_inv_def)

lemma peers_inv_in:
  "peers_inv s \<Longrightarrow> m_peers_in s t = Some (Some p) \<Longrightarrow>
   t = bearer_token_we_accept (auth p) \<and> m_peers_out s (peer_domain p) = Some (Some p)"
  by (simp add: peers_inv_def)

lemma peers_inv_out:
  "peers_inv s \<Longrightarrow> m_peers_out s d = Some e \<Longrightarrow> \<exists>p. e = Some p \<and> peer_domain p = d"
  by (simp add: peers_inv_def)

text \<open>Dropping entries of the incoming table, or adding stubs, is always safe.\<close>

lemma peers_inv_shrink:
  assumes "peers_inv s" and "m_peers_out s' = m_peers_out s"
    and "\<And>t p. m_peers_in s' t = Some (Some p) \<Longrightarrow> m_peers_in s t = Some (Some p)"
  shows "peers_inv s'"
proof (rule peers_invI)
  show "t = bearer_token_we_accept (auth p) \<and> m_peers_out s' (peer_domain p) = Some (Some p)"
    if "m_peers_in s' t = Some (Some p)" for t p
    using peers_inv_in [OF assms(1) assms(3) [OF that]] assms(2) by simp
  show "\<exists>p. e = Some p \<and> peer_domain p = d" if "m_peers_out s' d = Some e" for d e
    using peers_inv_out [OF assms(1), of d e] that assms(2) by simp
qed

lemma erase_in_inv: "peers_inv s \<Longrightarrow> peers_inv (erase_in s t)"
  by (rule peers_inv_shrink [of s]) (auto simp: erase_in_def split: if_splits)

lemma stub_inv: "peers_inv s \<Longrightarrow> peers_inv (peers_in_put s t None)"
  by (rule peers_inv_shrink [of s]) (auto simp: peers_in_put_def split: if_splits)

text \<open>A peer may be entered under its own domain and token when the domain is free.\<close>

lemma peers_inv_enter:
  assumes "peers_inv s" and "m_peers_out s (peer_domain p) = None"
  shows "peers_inv \<lparr>m_peers_out = (m_peers_out s)(peer_domain p \<mapsto> Some p),
    m_peers_in = (m_peers_in s)(bearer_token_we_accept (auth p) \<mapsto> Some p)\<rparr>" (is "peers_inv ?s")
proof (rule peers_invI)
  show "t = bearer_token_we_accept (auth q) \<and> m_peers_out ?s (peer_domain q) = Some (Some q)"
    if "m_peers_in ?s t = Some (Some q)" for t q
  proof (cases "t = bearer_token_we_accept (auth p)")
    case True
    with that show ?thesis by simp
  next
    case False
    with that have q: "m_peers_in s t = Some (Some q)" by simp
    from peers_inv_in [OF assms(1) q] assms(2) have "peer_domain q \<noteq> peer_domain p" by auto
    with peers_inv_in [OF assms(1) q] show ?thesis by simp
  qed
  show "\<exists>q. e = Some q \<and> peer_domain q = d" if "m_peers_out ?s d = Some e" for d e
    using peers_inv_out [OF assms(1), of d e] that by (simp split: if_splits) auto
qed

lemma add_peer_cases:
  assumes "add_peer s (peer_domain p) p = (s', ok)"
  shows "(\<not> ok \<and> s' = s \<and>
      (m_peers_out s (peer_domain p) \<noteq> None \<or> m_peers_in s (bearer_token_we_accept (auth p)) \<noteq> None)) \<or>
    (ok \<and> m_peers_out s (peer_domain p) = None \<and> m_peers_in s (bearer_token_we_accept (auth p)) = None \<and>
     s' = \<lparr>m_peers_out = (m_peers_out s)(peer_domain p \<mapsto> Some p),
           m_peers_in = (m_peers_in s)(bearer_token_we_accept (auth p) \<mapsto> Some p)\<rparr>)"
proof (cases "m_peers_out s (peer_domain p)")
  case (Some e)
  with assms show ?thesis by (simp add: add_peer_def)
next
  case None
  then have id: "(m_peers_out s)(peer_domain p := None) = m_peers_out s" by auto
  show ?thesis
  proof (cases "m_peers_in s (bearer_token_we_accept (auth p))")
    case None': None
    with None assms show ?thesis by (auto simp: add_peer_def Let_def)
  next
    case (Some e)
    with None assms id show ?thesis by (auto simp: add_peer_def Let_def)
  qed
qed

lemma add_peer_inv: "peers_inv s \<Longrightarrow> peers_inv (fst (add_peer s (peer_domain p) p))"
  using add_peer_cases [of s p "fst (add_peer s (peer_domain p) p)" "snd (add_peer s (peer_domain p) p)"]
    peers_inv_enter [of s p] by auto

lemma new_token_stub_result:
  assumes "new_token_stub rng i s = Some (s', t, j)"
  shows "m_peers_in s t = None \<and> s' = peers_in_put s t None \<and> t \<noteq> []"
proof -
  from assms have d: "draw_fresh (peers_in_has s) rng i = Some (t, j)" "s' = peers_in_put s t None"
    by (auto simp: new_token_stub_def)
  from peer_token_table.fresh_add_dom [OF d(1)] have "m_peers_in s t = None" by (auto simp: dom_def)
  moreover have "t \<noteq> []" using draw_fresh_result [OF d(1)] by (simp add: get_token_string_def)
  ultimately show ?thesis using d(2) by simp
qed

lemma with_key_cases:
  assumes "with_key_cb sign hostname rng i half s domain res = Some (s', r)"
  shows "(s' = s \<and> r = Inr (Inl None)) \<or>
    (\<exists>t j. new_token_stub rng i s = Some (s', t, j) \<and>
      (\<forall>p msg. r = Inr (Inr (p, msg)) \<longrightarrow>
        p = \<lparr>peer_domain = domain, auth = handshake_start no_peer_auth t (res_body res) half\<rparr>))"
  using assms
  by (auto simp: with_key_cb_def Let_def bind_result_Inr_iff split: if_splits option.splits)

lemma with_key_inv:
  assumes "peers_inv s" and "with_key_cb sign hostname rng i half s domain res = Some (s', r)"
  shows "peers_inv s'"
  using with_key_cases [OF assms(2)]
proof
  assume "\<exists>t j. new_token_stub rng i s = Some (s', t, j) \<and>
      (\<forall>p msg. r = Inr (Inr (p, msg)) \<longrightarrow>
        p = \<lparr>peer_domain = domain, auth = handshake_start no_peer_auth t (res_body res) half\<rparr>)"
  then obtain t j where "new_token_stub rng i s = Some (s', t, j)" by blast
  with new_token_stub_result [OF this] stub_inv [OF assms(1)] show ?thesis by simp
qed (simp add: assms(1))

lemma parse_response_accept:
  "handshake_parse_response verify now a body = (a', r) \<Longrightarrow> bearer_token_we_accept a' = bearer_token_we_accept a"
  by (auto simp: handshake_parse_response_def Let_def split: option.splits sum.splits if_splits)

lemma handshake_add_inv:
  assumes "peers_inv s"
  shows "peers_inv (fst (handshake_cb_add verify now s peer res))"
proof -
  obtain a r where p: "handshake_parse_response verify now (auth peer) (res_body res) = (a, r)"
    by (cases "handshake_parse_response verify now (auth peer) (res_body res)")
  let ?p = "peer\<lparr>auth := a\<rparr>"
  have "peers_inv (fst (add_peer s (peer_domain ?p) ?p))" by (rule add_peer_inv [OF assms])
  then show ?thesis
    using p assms erase_in_inv [OF assms]
    by (auto simp: handshake_cb_add_def Let_def split: sum.splits bool.splits prod.splits)
qed

lemma finish_inv:
  assumes "peers_inv s"
  shows "peers_inv (fst (handshake_cb_finish s p))"
proof (cases "m_peers_out s (peer_domain p)")
  case None
  have "fst (handshake_cb_finish s p) = \<lparr>m_peers_out = (m_peers_out s)(peer_domain p \<mapsto> Some p),
      m_peers_in = (m_peers_in s)(bearer_token_we_accept (auth p) \<mapsto> Some p)\<rparr>"
    using None by (simp add: handshake_cb_finish_def Let_def peers_in_put_def)
  with peers_inv_enter [OF assms None] show ?thesis by simp
next
  case (Some e)
  have "peers_inv (erase_in (peers_in_put s (bearer_token_we_accept (auth p)) (Some p)) (bearer_token_we_accept (auth p)))"
    by (rule peers_inv_shrink [OF assms]) (auto simp: erase_in_def peers_in_put_def split: if_splits)
  with Some show ?thesis by (simp add: handshake_cb_finish_def Let_def peers_in_put_def)
qed

lemma remove_peer_inv:
  assumes inv: "peers_inv s"
  shows "peers_inv (fst (remove_peer s d))"
proof (cases "\<exists>p. m_peers_out s d = Some (Some p)")
  case False
  then have "remove_peer s d = (s, False)" by (auto simp: remove_peer_def split: option.splits)
  with inv show ?thesis by simp
next
  case True
  then obtain p where p: "m_peers_out s d = Some (Some p)" by blast
  let ?s = "\<lparr>m_peers_out = (m_peers_out s)(d := None),
    m_peers_in = (m_peers_in s)(bearer_token_we_accept (auth p) := None)\<rparr>"
  have "peers_inv ?s"
  proof (rule peers_invI)
    fix t q
    assume a: "m_peers_in ?s t = Some (Some q)"
    then have q: "m_peers_in s t = Some (Some q)" and t: "t \<noteq> bearer_token_we_accept (auth p)"
      by (auto split: if_splits)
    note * = peers_inv_in [OF inv q]
    then have "peer_domain q \<noteq> d" using p t by auto
    with * show "t = bearer_token_we_accept (auth q) \<and> m_peers_out ?s (peer_domain q) = Some (Some q)" by simp
  next
    fix d' e
    assume "m_peers_out ?s d' = Some e"
    then show "\<exists>q. e = Some q \<and> peer_domain q = d'"
      using peers_inv_out [OF inv, of d' e] by (simp split: if_splits)
  qed
  with p show ?thesis by (cases s) (simp add: remove_peer_def erase_in_def)
qed

lemma prune_in: "m_peers_in (prune s now) t = Some e \<longleftrightarrow> m_peers_in s t = Some e \<and> \<not> expired_entry now e"
  by (auto simp: prune_def split: option.splits)

lemma prune_out:
  assumes inv: "peers_inv s"
  shows "m_peers_out (prune s now) d =
    (case m_peers_out s d of
       Some (Some p) \<Rightarrow>
         (if m_peers_in s (bearer_token_we_accept (auth p)) = Some (Some p) \<and> auth_is_expired (auth p) now
          then None else Some (Some p))
     | r \<Rightarrow> r)"
proof -
  let ?gone = "\<exists>e \<in> ran (m_peers_in s). expired_entry now e \<and> map_option peer_domain e = Some d"
  have gone: "?gone \<longleftrightarrow> (\<exists>p. m_peers_out s d = Some (Some p) \<and>
      m_peers_in s (bearer_token_we_accept (auth p)) = Some (Some p) \<and> auth_is_expired (auth p) now)"
  proof
    assume ?gone
    then obtain t p where "m_peers_in s t = Some (Some p)" "auth_is_expired (auth p) now" "peer_domain p = d"
      by (auto simp: ran_def expired_entry_def split: option.splits)
    with peers_inv_in [OF inv, of t p] show "\<exists>p. m_peers_out s d = Some (Some p) \<and>
        m_peers_in s (bearer_token_we_accept (auth p)) = Some (Some p) \<and> auth_is_expired (auth p) now" by auto
  next
    assume "\<exists>p. m_peers_out s d = Some (Some p) \<and>
        m_peers_in s (bearer_token_we_accept (auth p)) = Some (Some p) \<and> auth_is_expired (auth p) now"
    then obtain p where p: "m_peers_out s d = Some (Some p)"
      "m_peers_in s (bearer_token_we_accept (auth p)) = Some (Some p)" "auth_is_expired (auth p) now" by blast
    have "peer_domain p = d" using peers_inv_out [OF inv p(1)] by simp
    with p show ?gone by (intro bexI [of _ "Some p"]) (auto simp: expired_entry_def ran_def)
  qed
  have "m_peers_out (prune s now) d = (if ?gone then None else m_peers_out s d)" by (simp add: prune_def)
  then show ?thesis unfolding gone by (auto split: option.splits)
qed

lemma prune_inv:
  assumes inv: "peers_inv s"
  shows "peers_inv (prune s now)"
proof (rule peers_invI)
  fix t p
  assume "m_peers_in (prune s now) t = Some (Some p)"
  then have p: "m_peers_in s t = Some (Some p)" "\<not> auth_is_expired (auth p) now"
    by (simp_all add: prune_in expired_entry_def)
  from peers_inv_in [OF inv p(1)] p(2)
  show "t = bearer_token_we_accept (auth p) \<and> m_peers_out (prune s now) (peer_domain p) = Some (Some p)"
    by (simp add: prune_out [OF inv])
next
  fix d e
  assume "m_peers_out (prune s now) d = Some e"
  then have "m_peers_out s d = Some e"
    by (simp add: prune_def split: if_splits)
  then show "\<exists>p. e = Some p \<and> peer_domain p = d" by (rule peers_inv_out [OF inv])
qed

section \<open>Reachable states\<close>

text \<open>
  The callbacks may run at any time and in any order. The relation lets a reply arrive for any peer
  object, so it contains every interleaving of the handshakes under way.
\<close>

datatype peers_op =
    KeyReply string
  | HandshakeReply Peer
  | HandshakeFinish Peer
  | HandshakeError Peer
  | Incoming Peer
  | Removed string
  | Prune int

inductive peers_step :: "peers_state \<Rightarrow> peers_op \<Rightarrow> peers_state \<Rightarrow> bool" where
  step_key: "with_key_cb sign hostname rng i half s domain res = Some (s', r) \<Longrightarrow>
    peers_step s (KeyReply domain) s'"
| step_reply: "peers_step s (HandshakeReply p) (fst (handshake_cb_add verify now s p res))"
| step_finish: "peers_step s (HandshakeFinish p) (fst (handshake_cb_finish s p))"
| step_error: "peers_step s (HandshakeError p) (fst (handshake_err_cb s p))"
| step_incoming: "peers_step s (Incoming p) (fst (add_peer s (peer_domain p) p))"
| step_remove: "peers_step s (Removed d) (fst (remove_peer s d))"
| step_prune: "peers_step s (Prune now) (prune s now)"

inductive peers_reachable :: "peers_state \<Rightarrow> bool" where
  peers_start: "peers_reachable no_peers"
| peers_next: "peers_reachable s \<Longrightarrow> peers_step s e s' \<Longrightarrow> peers_reachable s'"

inductive_simps peers_step_incoming_iff: "peers_step s (Incoming p) s'"

lemma peers_step_inv: "peers_step s e s' \<Longrightarrow> peers_inv s \<Longrightarrow> peers_inv s'"
proof (induction rule: peers_step.induct)
  case (step_key sign hostname rng i half s domain res s' r)
  then show ?case by (blast intro: with_key_inv)
qed (simp_all add: handshake_add_inv finish_inv handshake_err_cb_def erase_in_inv add_peer_inv
      remove_peer_inv prune_inv)

lemma peers_reachable_inv: "peers_reachable s \<Longrightarrow> peers_inv s"
proof (induction rule: peers_reachable.induct)
  case peers_start
  show ?case by (simp add: peers_inv_def no_peers_def)
next
  case (peers_next s e s')
  then show ?case by (blast intro: peers_step_inv)
qed

lemma handshake_add_registers:
  assumes "handshake_cb_add verify now s peer res = (s1, Inr (Inr p))"
  shows "m_peers_out s1 (peer_domain p) = Some (Some p) \<and> m_peers_in s1 (bearer_token_we_accept (auth p)) = Some (Some p) \<and>
    bearer_token_we_accept (auth p) = bearer_token_we_accept (auth peer) \<and>
    (\<forall>t. t \<noteq> bearer_token_we_accept (auth peer) \<longrightarrow> m_peers_in s1 t = m_peers_in s t)"
proof -
  obtain a r where pr: "handshake_parse_response verify now (auth peer) (res_body res) = (a, r)"
    by (cases "handshake_parse_response verify now (auth peer) (res_body res)")
  with assms have p: "p = peer\<lparr>auth := a\<rparr>" and add: "add_peer s (peer_domain p) p = (s1, True)"
    by (auto simp: handshake_cb_add_def Let_def split: if_splits sum.splits bool.splits prod.splits)
  have acc: "bearer_token_we_accept (auth p) = bearer_token_we_accept (auth peer)"
    using parse_response_accept [OF pr] p by simp
  show ?thesis using add_peer_cases [OF add] acc by simp
qed

lemma handshake_cb_other_tokens:
  assumes "t \<noteq> bearer_token_we_accept (auth peer)"
  shows "m_peers_in (fst (handshake_cb verify now s peer res)) t = m_peers_in s t"
proof (cases "handshake_cb_add verify now s peer res")
  case (Pair s1 o1)
  show ?thesis
  proof (cases "\<exists>p. o1 = Inr (Inr p)")
    case True
    then obtain p where o1: "o1 = Inr (Inr p)" by blast
    with Pair have reg: "m_peers_in s1 t = m_peers_in s t" "bearer_token_we_accept (auth p) \<noteq> t"
      using handshake_add_registers [of verify now s peer res s1 p] assms by auto
    then have "m_peers_in (fst (handshake_cb_finish s1 p)) t = m_peers_in s1 t"
      by (simp add: handshake_cb_finish_def Let_def peers_in_put_def erase_in_def)
    with Pair o1 reg show ?thesis by (simp add: handshake_cb_def split_beta)
  next
    case False
    obtain a r where pr: "handshake_parse_response verify now (auth peer) (res_body res) = (a, r)"
      by (cases "handshake_parse_response verify now (auth peer) (res_body res)")
    have acc: "bearer_token_we_accept a = bearer_token_we_accept (auth peer)"
      by (rule parse_response_accept [OF pr])
    have fail: "s' = s" if "add_peer s (peer_domain (peer\<lparr>auth := a\<rparr>)) (peer\<lparr>auth := a\<rparr>) = (s', False)" for s'
      using add_peer_cases [OF that] by simp
    have "m_peers_in s1 t = m_peers_in s t"
      using Pair False pr acc assms fail
      by (auto simp: handshake_cb_add_def Let_def erase_in_def split: if_splits sum.splits bool.splits prod.splits)
    moreover have "fst (handshake_cb verify now s peer res) = s1"
      using Pair False by (auto simp: handshake_cb_def split: sum.split)
    ultimately show ?thesis by simp
  qed
qed

section \<open>Properties\<close>

text \<open>
  C2. Whatever the interleaving of key replies, handshake replies, incoming handshakes, removals
  and clean-ups, a bearer token authenticates only as the peer that it was made for and that is
  registered under its domain; so two tokens that authenticate as one domain are the same token.
\<close>

theorem peer_token_sound:
  assumes "peers_reachable s" and "get_peer_from_token s t = Some p"
  shows "bearer_token_we_accept (auth p) = t \<and> get_peer_for_domain s (peer_domain p) = Some p \<and>
    (\<forall>t' p'. get_peer_from_token s t' = Some p' \<and> peer_domain p' = peer_domain p \<longrightarrow> t' = t)"
proof -
  have inv: "peers_inv s" using assms(1) by (rule peers_reachable_inv)
  have found: "bearer_token_we_accept (auth q) = u \<and> m_peers_out s (peer_domain q) = Some (Some q)"
    if "get_peer_from_token s u = Some q" for u q
  proof -
    have "m_peers_in s u = Some (Some q)" using that by (simp add: get_peer_from_token_def split: option.splits)
    from peers_inv_in [OF inv this] show ?thesis by simp
  qed
  have "t' = t" if "get_peer_from_token s t' = Some p'" "peer_domain p' = peer_domain p" for t' p'
  proof -
    have "Some (Some p') = Some (Some p)" using found [OF that(1)] found [OF assms(2)] that(2) by metis
    then show ?thesis using found [OF that(1)] found [OF assms(2)] by simp
  qed
  with found [OF assms(2)] show ?thesis by (simp add: get_peer_for_domain_def)
qed

definition demo_peer :: Peer where
  "demo_peer = \<lparr>peer_domain = ''b.org'', auth = peer_auth4 ''key'' ''.theirs'' ''.ours'' 100\<rparr>"

definition demo_linked :: peers_state where
  "demo_linked = \<lparr>m_peers_out = [''b.org'' \<mapsto> Some demo_peer], m_peers_in = [''.ours'' \<mapsto> Some demo_peer]\<rparr>"

lemma demo_linked_reachable: "peers_reachable demo_linked"
proof -
  have "add_peer no_peers (peer_domain demo_peer) demo_peer = (demo_linked, True)"
    by (simp add: add_peer_def no_peers_def demo_linked_def demo_peer_def peer_auth4_def Let_def)
  then have "peers_step no_peers (Incoming demo_peer) demo_linked"
    by (simp add: peers_step_incoming_iff)
  with peers_start show ?thesis by (rule peers_next)
qed

theorem peer_token_sound_witness:
  "get_peer_for_domain demo_linked ''b.org'' = Some demo_peer"
proof -
  have "get_peer_from_token demo_linked ''.ours'' = Some demo_peer"
    by (simp add: get_peer_from_token_def demo_linked_def)
  from peer_token_sound [OF demo_linked_reachable this] show ?thesis by (simp add: demo_peer_def)
qed

text \<open>
  The clean-up removes exactly the expired peers: afterwards a token authenticates iff it did
  and its peer was linked at most a week ago, and the domains of the removed peers are
  forgotten. A peer that is only in the outgoing table is never removed, however old.
\<close>

theorem prune_removes_expired:
  assumes "peers_reachable s"
  shows "get_peer_from_token (prune s now) t =
      (case get_peer_from_token s t of
         None \<Rightarrow> None
       | Some p \<Rightarrow> if now > link_ts (auth p) + 604800 then None else Some p) \<and>
    get_peer_for_domain (prune s now) d =
      (case get_peer_for_domain s d of
         None \<Rightarrow> None
       | Some p \<Rightarrow> if get_peer_from_token s (bearer_token_we_accept (auth p)) = Some p \<and>
                      now > link_ts (auth p) + 604800 then None else Some p)"
proof
  have inv: "peers_inv s" using assms by (rule peers_reachable_inv)
  show "get_peer_from_token (prune s now) t =
      (case get_peer_from_token s t of
         None \<Rightarrow> None
       | Some p \<Rightarrow> if now > link_ts (auth p) + 604800 then None else Some p)"
    by (auto simp: get_peer_from_token_def prune_def expired_entry_def auth_is_expired_def PEER_LIFETIME_def
        split: option.splits)
  show "get_peer_for_domain (prune s now) d =
      (case get_peer_for_domain s d of
         None \<Rightarrow> None
       | Some p \<Rightarrow> if get_peer_from_token s (bearer_token_we_accept (auth p)) = Some p \<and>
                      now > link_ts (auth p) + 604800 then None else Some p)"
    unfolding get_peer_for_domain_def get_peer_from_token_def prune_out [OF inv]
    by (auto simp: auth_is_expired_def PEER_LIFETIME_def split: option.splits)
qed

theorem prune_removes_expired_witness:
  "get_peer_from_token (prune demo_linked 604901) ''.ours'' = None \<and>
   get_peer_for_domain (prune demo_linked 604900) ''b.org'' = Some demo_peer"
  using prune_removes_expired [OF demo_linked_reachable, of 604901 "''.ours''" "''b.org''"]
    prune_removes_expired [OF demo_linked_reachable, of 604900 "''.ours''" "''b.org''"]
  by (simp add: get_peer_from_token_def get_peer_for_domain_def demo_linked_def demo_peer_def peer_auth4_def)

text \<open>
  No two servers that run this code can link. The request body that \<open>handshake_start\<close> and
  \<open>handshake_request_body\<close> produce has an empty bearer token, since the generated token is stored
  as the one to send, so the receiving side does not parse it. And whatever is answered,
  \<open>new_peer\<close> never reports a linked peer: \<open>handshake_cb\<close> enters the domain twice, so the second
  time finds it taken.
\<close>

theorem handshake_never_completes:
  assumes "NL \<notin> set hostname" and "NL \<notin> set half"
  shows "(handshake_request_body sign hostname (handshake_start no_peer_auth token key half) = Inr body \<longrightarrow>
      parse_handshake_request gen now body = None) \<and>
    (handshake_cb verify now s peer res = (s', Inr r) \<longrightarrow> r = None)"
proof
  let ?a = "handshake_start no_peer_auth token key half"
  have payload: "handshake_payload hostname ?a = hostname @ [NL] @ half @ [NL]"
    by (simp add: handshake_payload_def handshake_start_def no_peer_auth_def)
  show "handshake_request_body sign hostname ?a = Inr body \<longrightarrow> parse_handshake_request gen now body = None"
  proof
    assume "handshake_request_body sign hostname ?a = Inr body"
    then obtain sg where body: "body = hostname @ NL # half @ NL # NL # sg"
      unfolding handshake_request_body_def payload by (auto simp: Let_def bind_result_Inr_iff)
    have 1: "find_char body NL 0 = Some (length hostname)"
      unfolding body using find_char_append_hit [OF assms(1)] by simp
    have 2: "find_char body NL (length hostname + 1) = Some (length hostname + 1 + length half)"
      using find_char_hit_at [OF assms(2), of "hostname @ [NL]" "NL # sg"] by (simp add: body)
    have 3: "find_char body NL (length hostname + 1 + length half + 1) = Some (length hostname + 1 + length half + 1)"
      using find_char_hit_at [of NL "[]" "hostname @ [NL] @ half @ [NL]" sg] by (simp add: body)
    show "parse_handshake_request gen now body = None"
      by (simp only: parse_handshake_request_def 1 2 3 Let_def option.case) (simp add: substr_def)
  qed
  show "handshake_cb verify now s peer res = (s', Inr r) \<longrightarrow> r = None"
  proof
    assume cb: "handshake_cb verify now s peer res = (s', Inr r)"
    show "r = None"
    proof (cases "handshake_cb_add verify now s peer res")
      case (Pair s1 o1)
      show ?thesis
      proof (cases "\<exists>p. o1 = Inr (Inr p)")
        case True
        then obtain p where o1: "o1 = Inr (Inr p)" by blast
        with Pair have "m_peers_out s1 (peer_domain p) \<noteq> None"
          using handshake_add_registers [of verify now s peer res s1 p] by simp
        then have "snd (handshake_cb_finish s1 p) = None"
          by (simp add: handshake_cb_finish_def Let_def peers_in_put_def)
        with cb Pair o1 show ?thesis by (simp add: handshake_cb_def split: prod.splits)
      next
        case False
        with cb Pair show ?thesis
          by (auto simp: handshake_cb_def handshake_cb_add_def Let_def split: sum.splits if_splits prod.splits bool.splits)
      qed
    qed
  qed
qed

theorem handshake_never_completes_witness:
  "parse_handshake_request ''.g'' 5 (''a.org'' @ NL # ''.half'' @ NL # NL # ''sig'') = None"
proof -
  have n: "NL \<notin> set ''a.org''" "NL \<notin> set ''.half''" by code_simp+
  have "handshake_request_body (\<lambda>_. Inr ''sig'') ''a.org'' (handshake_start no_peer_auth ''.t'' ''k'' ''.half'') =
      Inr (''a.org'' @ NL # ''.half'' @ NL # NL # ''sig'')"
    by (simp add: handshake_request_body_def handshake_payload_def handshake_start_def no_peer_auth_def)
  with handshake_never_completes [OF n] show ?thesis by blast
qed

text \<open>
  A link attempt leaks: the stub entered for the generated token stays in the incoming table
  for ever, because the callbacks erase the empty accept token instead and the clean-up skips
  stubs; and after an accepted reply the peer stays registered for its domain, although the
  caller was told that the link failed.
\<close>

theorem link_attempt_leaks:
  assumes "with_key_cb sign hostname rng i half s domain res = Some (s1, Inr (Inr (p, msg)))"
  shows "(\<exists>t. m_peers_in s t = None \<and> m_peers_in s1 t = Some None \<and>
      m_peers_in (fst (handshake_cb verify now s1 p reply)) t = Some None \<and>
      m_peers_in (fst (handshake_err_cb s1 p)) t = Some None \<and>
      m_peers_in (prune s1 now) t = Some None) \<and>
    (handshake_cb_add verify now s1 p reply = (s2, Inr (Inr q)) \<longrightarrow>
      (\<exists>s3. handshake_cb verify now s1 p reply = (s3, Inr None) \<and>
         get_peer_for_domain s3 (peer_domain q) = Some q \<and>
         get_peer_from_token s3 (bearer_token_we_accept (auth q)) = None))"
proof
  from with_key_cases [OF assms] obtain t j where
    stub: "new_token_stub rng i s = Some (s1, t, j)"
    and p: "p = \<lparr>peer_domain = domain, auth = handshake_start no_peer_auth t (res_body res) half\<rparr>"
    by auto
  note t = new_token_stub_result [OF stub]
  have acc: "bearer_token_we_accept (auth p) = []"
    by (simp add: p handshake_start_def no_peer_auth_def)
  have s1: "m_peers_in s1 t = Some None" using t by (simp add: peers_in_put_def)
  have "m_peers_in (prune s1 now) t = Some None"
    using s1 by (simp add: prune_in expired_entry_def)
  moreover have "m_peers_in (fst (handshake_cb verify now s1 p reply)) t = Some None"
    using handshake_cb_other_tokens [of t p verify now s1 reply] acc t s1 by simp
  moreover have "m_peers_in (fst (handshake_err_cb s1 p)) t = Some None"
    using acc t s1 by (simp add: handshake_err_cb_def erase_in_def)
  ultimately show "\<exists>t. m_peers_in s t = None \<and> m_peers_in s1 t = Some None \<and>
      m_peers_in (fst (handshake_cb verify now s1 p reply)) t = Some None \<and>
      m_peers_in (fst (handshake_err_cb s1 p)) t = Some None \<and>
      m_peers_in (prune s1 now) t = Some None"
    using t s1 by blast
  show "handshake_cb_add verify now s1 p reply = (s2, Inr (Inr q)) \<longrightarrow>
      (\<exists>s3. handshake_cb verify now s1 p reply = (s3, Inr None) \<and>
         get_peer_for_domain s3 (peer_domain q) = Some q \<and>
         get_peer_from_token s3 (bearer_token_we_accept (auth q)) = None)"
  proof
    assume add: "handshake_cb_add verify now s1 p reply = (s2, Inr (Inr q))"
    note reg = handshake_add_registers [OF add]
    let ?s3 = "fst (handshake_cb_finish s2 q)"
    have "handshake_cb verify now s1 p reply = (?s3, Inr None)"
      using add reg by (simp add: handshake_cb_def handshake_cb_finish_def Let_def peers_in_put_def)
    moreover have "get_peer_for_domain ?s3 (peer_domain q) = Some q"
      using reg by (simp add: get_peer_for_domain_def handshake_cb_finish_def Let_def peers_in_put_def erase_in_def)
    moreover have "get_peer_from_token ?s3 (bearer_token_we_accept (auth q)) = None"
      using reg by (simp add: get_peer_from_token_def handshake_cb_finish_def Let_def peers_in_put_def erase_in_def)
    ultimately show "\<exists>s3. handshake_cb verify now s1 p reply = (s3, Inr None) \<and>
         get_peer_for_domain s3 (peer_domain q) = Some q \<and>
         get_peer_from_token s3 (bearer_token_we_accept (auth q)) = None" by blast
  qed
qed

definition ok_reply :: "string \<Rightarrow> http_response" where
  "ok_reply body = respond_with 200 body"

theorem link_attempt_leaks_witness:
  "\<exists>s1 p msg s3. with_key_cb (\<lambda>_. Inr ''sig'') ''a.org'' (\<lambda>_. [2, 3]) 0 ''.half'' no_peers ''b.org'' (ok_reply ''key'') =
      Some (s1, Inr (Inr (p, msg))) \<and>
    handshake_cb (\<lambda>_ _ _. Inr True) 7 s1 p (ok_reply (''.t'' @ NL # ''.s'' @ NL # ''sig'')) = (s3, Inr None) \<and>
    get_peer_for_domain s3 ''b.org'' \<noteq> None"
proof -
  have draw: "draw_fresh (peers_in_has no_peers) (\<lambda>_. [2, 3]) 0 = Some (get_token_string [2, 3], 1)"
    by (subst draw_fresh.simps) (simp add: peers_in_has_def no_peers_def Let_def)
  obtain s1 p msg where key:
    "with_key_cb (\<lambda>_. Inr ''sig'') ''a.org'' (\<lambda>_. [2, 3]) 0 ''.half'' no_peers ''b.org'' (ok_reply ''key'') =
      Some (s1, Inr (Inr (p, msg)))"
    and s1: "s1 = peers_in_put no_peers (get_token_string [2, 3]) None"
    and p: "p = \<lparr>peer_domain = ''b.org'',
      auth = handshake_start no_peer_auth (get_token_string [2, 3]) ''key'' ''.half''\<rparr>"
    by (simp add: with_key_cb_def ok_reply_def respond_with_def new_token_stub_def draw
        handshake_request_body_def Let_def)
  let ?body = "''.t'' @ NL # ''.s'' @ NL # ''sig''"
  have "find_char ?body NL 0 = Some 2" "find_char ?body NL 3 = Some 5" by code_simp+
  then obtain s2 q where add: "handshake_cb_add (\<lambda>_ _ _. Inr True) 7 s1 p (ok_reply ?body) = (s2, Inr (Inr q))"
    and q: "peer_domain q = ''b.org''"
    by (simp add: handshake_cb_add_def ok_reply_def respond_with_def handshake_parse_response_def Let_def
        add_peer_def s1 p peers_in_put_def no_peers_def handshake_start_def no_peer_auth_def get_token_string_def)
  from link_attempt_leaks [OF key, of "\<lambda>_ _ _. Inr True" 7 "ok_reply ?body" s2 q] add q key
  show ?thesis by (metis option.distinct(1))
qed

text \<open>
  The message to a peer carries the bearer token, the user, the path, the time and a signature
  over path, user, body length and time; but the headers that the mod supplied are set last, so a
  mod replaces any of them, for instance the user, while the signature still covers the user of
  the request.
\<close>

theorem peer_message_fields:
  assumes "peer_message hmac now p appid req = Inr msg"
    and "rq_headers req = Some (get_headers_string [(n, v)])" and "plain_field (n, v)"
  shows "field_get (req_fields msg) n = v \<and>
    (\<not> same_name n ''Fiy-Peer'' \<longrightarrow> field_get (req_fields msg) ''Fiy-Peer'' = bearer_token_we_send (auth p)) \<and>
    (\<not> same_name n ''Fiy-User'' \<longrightarrow>
      field_get (req_fields msg) ''Fiy-User'' = (case rq_user req of Some u \<Rightarrow> u | None \<Rightarrow> [])) \<and>
    (\<not> same_name n ''Authorization'' \<longrightarrow> field_get (req_fields msg) ''Authorization'' =
      ''FIY1 '' @ hmac (sym_key (auth p)) (''FIY'' @ appid @
        (case rq_path req of Some q \<Rightarrow> q | None \<Rightarrow> []) @ (case rq_user req of Some u \<Rightarrow> u | None \<Rightarrow> []) @
        show_nat (length (rq_body req)) @ show_int now))"
proof -
  have block: "response_set_headers fs (rq_headers req) False = field_set fs n v" for fs
    using set_headers_block [of "[(n, v)]" fs] assms(2,3) by (simp add: response_set_headers_def)
  from assms(1) obtain d where "rq_domain req = Some d"
    by (auto simp: peer_message_def Let_def split: option.splits)
  with assms(1) have msg: "req_fields msg = field_set (field_set (field_set (field_set (field_set (field_set
      (field_set [] ''Fiy-Peer'' (bearer_token_we_send (auth p)))
      ''Fiy-User'' (case rq_user req of Some u \<Rightarrow> u | None \<Rightarrow> []))
      ''Fiy-Path'' (case rq_path req of Some q \<Rightarrow> q | None \<Rightarrow> []))
      ''Fiy-Now'' (show_int now))
      ''Authorization'' (''FIY1 '' @ peer_sig hmac p appid (case rq_path req of Some q \<Rightarrow> q | None \<Rightarrow> [])
         (case rq_user req of Some u \<Rightarrow> u | None \<Rightarrow> []) (length (rq_body req)) (show_int now)))
      ''Host'' d) n v"
    by (auto simp: peer_message_def Let_def block)
  have other: "\<not> same_name ''Host'' ''Fiy-Peer''" "\<not> same_name ''Authorization'' ''Fiy-Peer''"
    "\<not> same_name ''Fiy-Now'' ''Fiy-Peer''" "\<not> same_name ''Fiy-Path'' ''Fiy-Peer''"
    "\<not> same_name ''Fiy-User'' ''Fiy-Peer''" "\<not> same_name ''Host'' ''Fiy-User''"
    "\<not> same_name ''Authorization'' ''Fiy-User''" "\<not> same_name ''Fiy-Now'' ''Fiy-User''"
    "\<not> same_name ''Fiy-Path'' ''Fiy-User''" "\<not> same_name ''Host'' ''Authorization''"
    by code_simp+
  show ?thesis
    unfolding msg by (simp add: field_get_set other peer_sig_def)
qed

theorem peer_message_fields_witness:
  "\<exists>msg. peer_message (\<lambda>_ _. ''mac'') 7 demo_peer ''chat''
      \<lparr>rq_domain = Some ''b.org'', rq_user = Some ''bob'', rq_method = 2, rq_path = None,
       rq_headers = Some (get_headers_string [(''fiy-user'', ''eve'')]), rq_body = [], rq_has_callback = True\<rparr> = Inr msg \<and>
    field_get (req_fields msg) ''fiy-user'' = ''eve'' \<and> field_get (req_fields msg) ''Authorization'' = ''FIY1 mac''"
proof -
  let ?r = "\<lparr>rq_domain = Some ''b.org'', rq_user = Some ''bob'', rq_method = 2, rq_path = None,
       rq_headers = Some (get_headers_string [(''fiy-user'', ''eve'')]), rq_body = [], rq_has_callback = True\<rparr>"
  obtain msg where msg: "peer_message (\<lambda>_ _. ''mac'') 7 demo_peer ''chat'' ?r = Inr msg"
    by (simp add: peer_message_def Let_def)
  have h: "rq_headers ?r = Some (get_headers_string [(''fiy-user'', ''eve'')])" by simp
  have pl: "plain_field (''fiy-user'', ''eve'')" "\<not> same_name ''fiy-user'' ''Authorization''" by code_simp+
  from peer_message_fields [OF msg h pl(1)] pl(2) msg show ?thesis by simp
qed

text \<open>
  A request to a peer is answered once, except when the peer asks for a new link (status
  478): then the callback is called with that response and, since the function does not return, a
  link is started as well, whose end calls it a second time.
\<close>

definition is_callback :: "peer_effect \<Rightarrow> bool" where
  "is_callback e \<longleftrightarrow> (case e of Callback _ \<Rightarrow> True | _ \<Rightarrow> False)"

theorem reauth_answers_twice:
  assumes "rq_has_callback req"
  shows "length (filter is_callback (peer_response_cb domain req res)) = 1 \<and>
    length (filter is_callback (peer_err_cb req)) = 1 \<and>
    (res_status res \<noteq> 478 \<longrightarrow> length (peer_response_cb domain req res) = 1) \<and>
    (res_status res = 478 \<longrightarrow> LinkPeer (new_peer domain) \<in> set (peer_response_cb domain req res) \<and>
      link_done hmac now appid req None = Inr [Callback None])"
  using assms
  by (simp add: peer_response_cb_def peer_err_cb_def run_callback_def link_done_def is_callback_def
      REAUTH_HTTP_STATUS_def)

theorem reauth_answers_twice_witness:
  "length (filter is_callback (peer_response_cb ''b.org'' \<lparr>rq_domain = Some ''b.org'', rq_user = None,
     rq_method = 2, rq_path = None, rq_headers = None, rq_body = [], rq_has_callback = True\<rparr> (respond_with 478 []))) = 1"
proof -
  let ?r = "\<lparr>rq_domain = Some ''b.org'', rq_user = None,
     rq_method = 2, rq_path = None, rq_headers = None, rq_body = [], rq_has_callback = True\<rparr>"
  have cb: "rq_has_callback ?r" by simp
  show ?thesis using reauth_answers_twice [OF cb] by blast
qed

end
