(* ===== verification/Config.thy ===== *)
theory Config
  imports FiyPrelude
begin

text \<open>
  \<open>protocol/Config.hpp\<close>, \<open>protocol/Config.cpp\<close> and the start-up decision of \<open>protocol/FIY.cpp\<close>.
  The environment is a record of parameters: the files that can be read, the inih parser (the
  entries it delivers for a path and whether the text had a syntax error), loading of a private
  key, the variable \<open>FIY_LISTEN_ADDR\<close> and the number of processors. Logging is left out.

  Shown: what the defaults are; that no command line with an argument starts the server.
\<close>

section \<open>Integers from text\<close>

definition digit_value :: "char \<Rightarrow> nat option" where
  "digit_value c =
     (if is_digit c then Some (code c - 48)
      else if is_lower c then Some (code c - 97 + 10)
      else if is_upper c then Some (code c - 65 + 10)
      else None)"

definition base_digit :: "nat \<Rightarrow> char \<Rightarrow> bool" where
  "base_digit base c = (case digit_value c of None \<Rightarrow> False | Some d \<Rightarrow> d < base)"

fun read_base :: "nat \<Rightarrow> int \<Rightarrow> string \<Rightarrow> int" where
  "read_base base acc [] = acc"
| "read_base base acc (c # cs) =
     (case digit_value c of None \<Rightarrow> acc | Some d \<Rightarrow> read_base base (int base * acc + int d) cs)"

text \<open>\<open>std::from_chars\<close> into a signed type of \<open>bits\<close> bits: \<open>None\<close> for an error code. A base
  outside 2 to 36 breaks its precondition.\<close>

definition from_chars :: "nat \<Rightarrow> nat \<Rightarrow> string \<Rightarrow> int option result" where
  "from_chars bits base s =
     (if base < 2 \<or> 36 < base then Inl UndefinedBehaviour
      else let neg = (s \<noteq> [] \<and> hd s = CHR ''-'');
               ds = takeWhile (base_digit base) (if neg then tl s else s);
               v = (if neg then - read_base base 0 ds else read_base base 0 ds)
           in Inr (if ds = [] then None
                   else if - (2 ^ (bits - 1)) \<le> v \<and> v < 2 ^ (bits - 1) then Some v else None))"

text \<open>
  \<open>strtol(s, &end, 10)\<close>: leading white space and a sign are skipped, the value saturates at the
  64-bit limits; the second component is \<open>end != s\<close>.
\<close>

definition strtol10 :: "string \<Rightarrow> int \<times> bool" where
  "strtol10 s =
     (let s1 = dropWhile is_space s;
          neg = (s1 \<noteq> [] \<and> hd s1 = CHR ''-'');
          s2 = (if s1 \<noteq> [] \<and> (hd s1 = CHR ''-'' \<or> hd s1 = CHR ''+'') then tl s1 else s1);
          ds = takeWhile is_digit s2;
          v = (if neg then - read_base 10 0 ds else read_base 10 0 ds)
      in (max (- (2 ^ 63)) (min (2 ^ 63 - 1) v), ds \<noteq> []))"

lemma read_base_10: "list_all is_digit ds \<Longrightarrow> read_base 10 (int n) ds = int (read_digits n ds)"
proof (induction ds arbitrary: n)
  case (Cons d ds)
  then show ?case using Cons.IH [of "10 * n + (code d - 48)"] by (simp add: digit_value_def)
qed simp

text \<open>A number that is written is read as itself.\<close>

lemma strtol10_show_nat: "n < 2 ^ 63 \<Longrightarrow> strtol10 (show_nat n) = (int n, True)"
proof -
  assume n: "n < 2 ^ 63"
  obtain c cs where c: "show_nat n = c # cs" using show_nat_nonempty [of n] by (cases "show_nat n") auto
  have "takeWhile is_digit (show_nat n) = show_nat n" using show_nat_digits by (simp add: takeWhile_eq_all_conv)
  moreover have "dropWhile is_space (show_nat n) = show_nat n" using show_nat_hd [of n] c by simp
  moreover have "read_base 10 0 (show_nat n) = int n"
    using read_base_10 [OF show_nat_list_all, of 0 n] read_digits_show_nat by simp
  ultimately show ?thesis using show_nat_hd [of n] n c by (simp add: strtol10_def Let_def)
qed

text \<open>Conversion of a \<open>long\<close> to \<open>int\<close>.\<close>

definition to_int32 :: "int \<Rightarrow> int" where
  "to_int32 v = (v + 2 ^ 31) mod 2 ^ 32 - 2 ^ 31"

section \<open>Configuration\<close>

datatype FederationStatus = ENABLED | REJECT_INCOMING | DISABLED

record FiyConfig =
  cfg_error :: bool
  data_dir :: string
  hostname :: "string option"
  salt :: string
  port :: int
  concurrency :: int
  public_key :: string
  private_key :: "string option"
  listen_addr :: string
  protocol :: "string option"
  federation :: FederationStatus

record environment =
  env_file :: "string \<Rightarrow> string option"
  env_ini :: "string \<Rightarrow> (string \<times> string \<times> string) list \<times> bool"
  env_load_key :: "string \<Rightarrow> string result"
  env_listen_addr :: "string option"
  env_processors :: int

definition PROTOCOL_HTTP :: string where
  "PROTOCOL_HTTP = ''http://''"

definition PROTOCOL_HTTPS :: string where
  "PROTOCOL_HTTPS = ''https://''"

definition CONFIG_FILE_PATH :: string where
  "CONFIG_FILE_PATH = ''/opt/fiy/config.ini''"

definition new_config :: FiyConfig where
  "new_config = \<lparr>cfg_error = False, data_dir = ''/opt/fiy'', hostname = None, salt = [],
     port = 8848, concurrency = 4, public_key = [], private_key = None, listen_addr = [],
     protocol = None, federation = ENABLED\<rparr>"

definition https :: "FiyConfig \<Rightarrow> bool" where
  "https c \<longleftrightarrow> protocol c = Some PROTOCOL_HTTPS"

definition same_nocase :: "string \<Rightarrow> string \<Rightarrow> bool" where
  "same_nocase a b \<longleftrightarrow> map to_lower a = map to_lower b"

definition parse_bool :: "string \<Rightarrow> int" where
  "parse_bool str =
     (if length str = 4 then (if same_nocase str ''true'' then 1 else 0)
      else if length str = 5 then (if same_nocase str ''false'' then 1 else 0)
      else if str \<noteq> [] \<and> hd str \<in> set ''ytYT1'' then 1
      else if str \<noteq> [] \<and> hd str \<in> set ''nfNF0'' then 0
      else -1)"

definition load_file_as_string :: "environment \<Rightarrow> string \<Rightarrow> string" where
  "load_file_as_string env path = (case env_file env path of None \<Rightarrow> [] | Some contents \<Rightarrow> contents)"

text \<open>The key \<open>concurrency\<close>; \<open>-threads\<close> of the least \<open>int\<close> overflows.\<close>

definition set_concurrency :: "environment \<Rightarrow> FiyConfig \<Rightarrow> string \<Rightarrow> FiyConfig result" where
  "set_concurrency env c v =
     (let (n, ok) = strtol10 v;
          threads = (if ok then to_int32 n else 0)
      in if threads \<le> 0
         then (if threads = - (2 ^ 31) then Inl UndefinedBehaviour
               else Inr (c\<lparr>concurrency := (if - threads \<ge> env_processors env then 1
                                          else env_processors env + threads)\<rparr>))
         else Inr (c\<lparr>concurrency := threads\<rparr>))"

definition set_protocol :: "FiyConfig \<Rightarrow> string \<Rightarrow> FiyConfig" where
  "set_protocol c v =
     (if v = ''https'' \<or> v = ''https://'' then c\<lparr>protocol := Some PROTOCOL_HTTPS\<rparr>
      else if v = ''http'' \<or> v = ''http://'' then c\<lparr>protocol := Some PROTOCOL_HTTP\<rparr>
      else c\<lparr>protocol := None\<rparr>)"

definition set_port :: "FiyConfig \<Rightarrow> string \<Rightarrow> FiyConfig result" where
  "set_port c v =
     bind_result (from_chars 32 10 v) (\<lambda>r.
       case r of
         None \<Rightarrow> Inr c
       | Some n \<Rightarrow> Inr (if n < 0 \<or> n > 65535 then c else c\<lparr>port := n\<rparr>))"

definition set_key :: "environment \<Rightarrow> FiyConfig \<Rightarrow> string \<Rightarrow> string \<Rightarrow> string \<Rightarrow> (FiyConfig \<times> bool) result" where
  "set_key env c section key v =
     (if section \<noteq> [] then Inr (c, False)
      else if key = ''data_dir'' then Inr (c\<lparr>data_dir := v\<rparr>, True)
      else if key = ''hostname'' then Inr (c\<lparr>hostname := Some v\<rparr>, True)
      else if key = ''salt'' then Inr (c\<lparr>salt := v\<rparr>, True)
      else if key = ''port'' then bind_result (set_port c v) (\<lambda>c'. Inr (c', True))
      else if key = ''concurrency'' then bind_result (set_concurrency env c v) (\<lambda>c'. Inr (c', True))
      else if key = ''public_key'' then Inr (c\<lparr>public_key := load_file_as_string env v\<rparr>, True)
      else if key = ''private_key'' then
        bind_result (env_load_key env (load_file_as_string env v)) (\<lambda>k. Inr (c\<lparr>private_key := Some k\<rparr>, True))
      else if key = ''address'' then Inr (c\<lparr>listen_addr := v\<rparr>, True)
      else if key = ''protocol'' then Inr (set_protocol c v, True)
      else Inr (c, False))"

text \<open>
  \<open>parse\<close>: the parser hands over every entry, also after one that the handler refused, and ends in
  an error code when a line was malformed or an entry was refused.
\<close>

fun set_keys :: "environment \<Rightarrow> FiyConfig \<Rightarrow> (string \<times> string \<times> string) list \<Rightarrow> (FiyConfig \<times> bool) result" where
  "set_keys env c [] = Inr (c, True)"
| "set_keys env c ((sec, key, v) # es) =
     bind_result (set_key env c sec key v) (\<lambda>(c1, ok).
       bind_result (set_keys env c1 es) (\<lambda>(c2, oks). Inr (c2, ok \<and> oks)))"

definition parse :: "environment \<Rightarrow> FiyConfig \<Rightarrow> string \<Rightarrow> (FiyConfig \<times> bool) result" where
  "parse env c path =
     (if env_file env path = None then Inr (c\<lparr>cfg_error := True\<rparr>, False)
      else let (entries, syntax_error) = env_ini env path
           in bind_result (set_keys env c entries) (\<lambda>(c1, ok).
                let e = (syntax_error \<or> \<not> ok) in Inr (c1\<lparr>cfg_error := e\<rparr>, \<not> e)))"

definition default_listen_addr :: "string \<Rightarrow> string" where
  "default_listen_addr hn =
     (if find_char hn (CHR '':'') 0 = None \<or> starts_with hn ''127.0.0.1'' \<or> starts_with hn ''localhost''
      then ''127.0.0.1'' else ''0.0.0.0'')"

definition default_protocol :: "string \<Rightarrow> string" where
  "default_protocol hn =
     (if find_char hn (CHR '':'') 0 \<noteq> None \<or> hn = ''localhost'' \<or> hn = ''127.0.0.1''
      then PROTOCOL_HTTP else PROTOCOL_HTTPS)"

text \<open>The three parts of \<open>set_defaults\<close>. A null \<open>hostname\<close> is dereferenced.\<close>

definition default_keys :: "environment \<Rightarrow> FiyConfig \<Rightarrow> FiyConfig result" where
  "default_keys env c =
     (let c1 = (if public_key c = []
                then c\<lparr>public_key := load_file_as_string env (data_dir c @ ''/auth/pubkey.crt'')\<rparr> else c)
      in if private_key c1 = None
         then bind_result (env_load_key env (load_file_as_string env (data_dir c @ ''/auth/privkey.pem'')))
                (\<lambda>k. Inr (c1\<lparr>private_key := Some k\<rparr>))
         else Inr c1)"

definition set_default_listen :: "environment \<Rightarrow> FiyConfig \<Rightarrow> FiyConfig result" where
  "set_default_listen env c =
     (if listen_addr c \<noteq> [] then Inr c
      else case env_listen_addr env of
             Some a \<Rightarrow> Inr (c\<lparr>listen_addr := a\<rparr>)
           | None \<Rightarrow>
               (case hostname c of
                  None \<Rightarrow> Inl UndefinedBehaviour
                | Some hn \<Rightarrow> Inr (c\<lparr>listen_addr := default_listen_addr hn\<rparr>)))"

definition set_default_protocol :: "FiyConfig \<Rightarrow> FiyConfig result" where
  "set_default_protocol c =
     (if protocol c \<noteq> None then Inr c
      else case hostname c of
             None \<Rightarrow> Inl UndefinedBehaviour
           | Some hn \<Rightarrow> Inr (c\<lparr>protocol := Some (default_protocol hn)\<rparr>))"

definition set_defaults :: "environment \<Rightarrow> FiyConfig \<Rightarrow> FiyConfig result" where
  "set_defaults env c =
     bind_result (default_keys env c) (\<lambda>c1.
       bind_result (set_default_listen env c1) set_default_protocol)"

definition from_file :: "environment \<Rightarrow> FiyConfig \<Rightarrow> string \<Rightarrow> (FiyConfig \<times> bool) result" where
  "from_file env c path =
     bind_result (parse env c path) (\<lambda>(c1, ret).
       bind_result (set_defaults env c1) (\<lambda>c2. Inr (c2, ret)))"

section \<open>Command line and start-up\<close>

text \<open>
  The loop over the arguments that are left. \<open>None\<close> is the exit of \<open>--help\<close>. The value passed to
  \<open>set_key\<close> is \<open>argv[i]\<close>, the option itself.
\<close>

fun argv_loop :: "environment \<Rightarrow> FiyConfig \<Rightarrow> string list \<Rightarrow> (FiyConfig \<times> bool) option result" where
  "argv_loop env c [] = bind_result (set_defaults env c) (\<lambda>c'. Inr (Some (c', True)))"
| "argv_loop env c (arg # args) =
     (if arg = [] \<or> hd arg \<noteq> CHR ''-''
      then bind_result (from_file env c arg) (\<lambda>(c1, _).
             bind_result (set_defaults env c1) (\<lambda>c2. Inr (Some (c2, False))))
      else let p = dropWhile (\<lambda>x. x = CHR ''-'') arg
           in if p = ''help'' then Inr None
              else if args = [] then Inr (Some (c\<lparr>cfg_error := True\<rparr>, False))
              else bind_result (set_key env c [] p arg) (\<lambda>(c1, ok).
                     if \<not> ok then Inr (Some (c1\<lparr>cfg_error := True\<rparr>, False)) else argv_loop env c1 args))"

text \<open>\<open>argv\<close> without the program name.\<close>

definition from_argv :: "environment \<Rightarrow> FiyConfig \<Rightarrow> string list \<Rightarrow> (FiyConfig \<times> bool) option result" where
  "from_argv env c args =
     (if args = [] then bind_result (from_file env c CONFIG_FILE_PATH) (\<lambda>r. Inr (Some r))
      else argv_loop env c args)"

datatype start_outcome =
    StartFailed
  | StartSkipped
  | HelpShown
  | Serving FiyConfig

text \<open>\<open>FIY::start(argc, argv)\<close>; \<open>Serving\<close> is the call of \<open>start()\<close> past its check.\<close>

definition fiy_start :: "environment \<Rightarrow> string list \<Rightarrow> start_outcome result" where
  "fiy_start env args =
     bind_result (from_argv env new_config args) (\<lambda>r.
       case r of
         None \<Rightarrow> Inr HelpShown
       | Some (c, ok) \<Rightarrow>
           Inr (if \<not> ok then (if cfg_error c then StartFailed else StartSkipped)
                else if cfg_error c then StartFailed else Serving c))"

definition base_uri :: "FiyConfig \<Rightarrow> string result" where
  "base_uri c =
     (case (protocol c, hostname c) of
        (Some p, Some h) \<Rightarrow> Inr (p @ h)
      | _ \<Rightarrow> Inl UndefinedBehaviour)"

section \<open>Lemmas\<close>

lemma default_keys_result:
  assumes "default_keys env c = Inr c'"
  shows "\<exists>k. c' = c\<lparr>public_key := (if public_key c = []
      then load_file_as_string env (data_dir c @ ''/auth/pubkey.crt'') else public_key c), private_key := Some k\<rparr> \<and>
    (private_key c \<noteq> None \<longrightarrow> private_key c = Some k)"
  using assms by (cases c) (auto simp: default_keys_def Let_def bind_result_Inr_iff split: if_splits)

lemma set_defaults_result:
  assumes "set_defaults env c = Inr c'"
  shows "\<exists>pk k la pr. c' = c\<lparr>public_key := pk, private_key := Some k, listen_addr := la, protocol := Some pr\<rparr> \<and>
    pk = (if public_key c = [] then load_file_as_string env (data_dir c @ ''/auth/pubkey.crt'') else public_key c) \<and>
    (private_key c \<noteq> None \<longrightarrow> private_key c = Some k) \<and>
    (case protocol c of Some q \<Rightarrow> pr = q | None \<Rightarrow> \<exists>hn. hostname c = Some hn \<and> pr = default_protocol hn) \<and>
    (if listen_addr c \<noteq> [] then la = listen_addr c
     else case env_listen_addr env of Some a \<Rightarrow> la = a
          | None \<Rightarrow> \<exists>hn. hostname c = Some hn \<and> la = default_listen_addr hn)"
proof -
  from assms obtain c1 c2 where c1: "default_keys env c = Inr c1"
    and c2: "set_default_listen env c1 = Inr c2" and c3: "set_default_protocol c2 = Inr c'"
    by (auto simp: set_defaults_def bind_result_Inr_iff)
  from default_keys_result [OF c1] obtain k where k: "c1 = c\<lparr>public_key := (if public_key c = []
      then load_file_as_string env (data_dir c @ ''/auth/pubkey.crt'') else public_key c), private_key := Some k\<rparr>"
    "private_key c \<noteq> None \<longrightarrow> private_key c = Some k" by blast
  from c2 obtain la where la: "c2 = c1\<lparr>listen_addr := la\<rparr>"
    "if listen_addr c1 \<noteq> [] then la = listen_addr c1
     else case env_listen_addr env of Some a \<Rightarrow> la = a
          | None \<Rightarrow> \<exists>hn. hostname c1 = Some hn \<and> la = default_listen_addr hn"
    by (cases c1) (auto simp: set_default_listen_def split: if_splits option.splits)
  from c3 obtain pr where pr: "c' = c2\<lparr>protocol := Some pr\<rparr>"
    "case protocol c2 of Some q \<Rightarrow> pr = q | None \<Rightarrow> \<exists>hn. hostname c2 = Some hn \<and> pr = default_protocol hn"
    by (cases c2) (auto simp: set_default_protocol_def split: if_splits option.splits)
  show ?thesis
  proof (intro exI conjI)
    show "c' = c\<lparr>public_key := (if public_key c = []
      then load_file_as_string env (data_dir c @ ''/auth/pubkey.crt'') else public_key c),
      private_key := Some k, listen_addr := la, protocol := Some pr\<rparr>"
      using k(1) la(1) pr(1) by simp
  qed (use k la pr in \<open>auto split: option.splits if_splits\<close>)
qed

lemma default_listen_addr_nonempty: "default_listen_addr hn \<noteq> []"
  by (simp add: default_listen_addr_def)

lemma set_defaults_keeps:
  "set_defaults env c = Inr c' \<Longrightarrow> cfg_error c' = cfg_error c \<and> hostname c' = hostname c \<and>
     data_dir c' = data_dir c \<and> protocol c' \<noteq> None \<and> private_key c' \<noteq> None"
  using set_defaults_result [of env c c'] by auto

lemma set_defaults_again:
  assumes "set_defaults env c = Inr c'"
  shows "set_defaults env c' = Inr c'"
proof -
  from set_defaults_result [OF assms] obtain pk k la pr where
    c': "c' = c\<lparr>public_key := pk, private_key := Some k, listen_addr := la, protocol := Some pr\<rparr>"
    and pk: "pk = (if public_key c = [] then load_file_as_string env (data_dir c @ ''/auth/pubkey.crt'') else public_key c)"
    and la: "if listen_addr c \<noteq> [] then la = listen_addr c
     else case env_listen_addr env of Some a \<Rightarrow> la = a
          | None \<Rightarrow> \<exists>hn. hostname c = Some hn \<and> la = default_listen_addr hn"
    by blast
  have 1: "default_keys env c' = Inr c'"
    using pk by (cases c) (auto simp: default_keys_def c' Let_def)
  have 2: "set_default_listen env c' = Inr c'"
    using la default_listen_addr_nonempty
    by (cases c) (auto simp: set_default_listen_def c' split: if_splits option.splits)
  have 3: "set_default_protocol c' = Inr c'" by (simp add: set_default_protocol_def c')
  show ?thesis by (simp add: set_defaults_def 1 2 3)
qed

lemma argv_loop_not_true: "args \<noteq> [] \<Longrightarrow> argv_loop env c args \<noteq> Inr (Some (c', True))"
proof (induction args arbitrary: c)
  case (Cons arg args)
  show ?case
  proof (cases "args = []")
    case True
    then show ?thesis by (auto simp: Let_def bind_result_Inr_iff split: if_splits)
  next
    case False
    with Cons.IH show ?thesis by (auto simp: Let_def bind_result_Inr_iff split: if_splits)
  qed
qed simp

section \<open>Properties\<close>

text \<open>
  No command line with an argument starts the server. Options get their own text as value and
  a last option is refused, so \<open>from_argv\<close> never returns true; with the path of a valid
  configuration file as only argument the program ends with success and without serving.
\<close>

theorem arguments_never_serve:
  assumes "args \<noteq> []"
  shows "from_argv env c args \<noteq> Inr (Some (c', True)) \<and> fiy_start env args \<noteq> Inr (Serving c') \<and>
    (args = [path] \<and> path \<noteq> [] \<and> hd path \<noteq> CHR ''-'' \<and> from_file env new_config path = Inr (c', True) \<longrightarrow>
      fiy_start env args = Inr StartSkipped)"
proof (intro conjI impI)
  show "from_argv env c args \<noteq> Inr (Some (c', True))"
    using assms argv_loop_not_true by (simp add: from_argv_def)
  show "fiy_start env args \<noteq> Inr (Serving c')"
  proof
    assume "fiy_start env args = Inr (Serving c')"
    then obtain c1 ok where "from_argv env new_config args = Inr (Some (c1, ok))" "ok"
      by (auto simp: fiy_start_def bind_result_Inr_iff split: option.splits if_splits)
    with argv_loop_not_true [OF assms] assms show False by (simp add: from_argv_def)
  qed
next
  assume a: "args = [path] \<and> path \<noteq> [] \<and> hd path \<noteq> CHR ''-'' \<and> from_file env new_config path = Inr (c', True)"
  then obtain c1 where c1: "parse env new_config path = Inr (c1, True)" "set_defaults env c1 = Inr c'"
    by (auto simp: from_file_def bind_result_Inr_iff)
  have "\<not> cfg_error c1"
    using c1(1) by (auto simp: parse_def Let_def bind_result_Inr_iff split: if_splits prod.splits)
  then have "\<not> cfg_error c'" using set_defaults_keeps [OF c1(2)] by simp
  moreover have "argv_loop env new_config args = Inr (Some (c', False))"
    using a set_defaults_again [OF c1(2)] by simp
  ultimately show "fiy_start env args = Inr StartSkipped"
    using assms by (simp add: fiy_start_def from_argv_def)
qed

definition demo_env :: environment where
  "demo_env = \<lparr>env_file = (\<lambda>p. if p = ''a.ini'' then Some ''x'' else None),
     env_ini = (\<lambda>p. ([([], ''hostname'', ''fiy.org''), ([], ''port'', ''80'')], False)),
     env_load_key = (\<lambda>pem. Inr ''key''), env_listen_addr = None, env_processors = 8\<rparr>"

lemma demo_from_file: "from_file demo_env new_config ''a.ini'' = Inr (new_config\<lparr>hostname := Some ''fiy.org'', port := 80,
    private_key := Some ''key'', listen_addr := ''127.0.0.1'', protocol := Some PROTOCOL_HTTPS\<rparr>, True)"
  by code_simp

theorem arguments_never_serve_witness:
  "fiy_start demo_env [''a.ini''] = Inr StartSkipped"
  using arguments_never_serve [of "[''a.ini'']" demo_env new_config _ "''a.ini''"] demo_from_file by simp

text \<open>
  \<open>set_defaults\<close> leaves a usable configuration and is idempotent: a protocol and a private key
  are set; a protocol that was not given is HTTPS exactly for a host without a port that is not
  the local machine; and a listen address that was not given comes from the environment or,
  without that, is the loopback address unless a non-local host name has a port.
\<close>

theorem defaults_complete:
  assumes "set_defaults env c = Inr c'"
  shows "set_defaults env c' = Inr c' \<and> protocol c' \<noteq> None \<and> private_key c' \<noteq> None \<and>
    hostname c' = hostname c \<and>
    (protocol c = None \<longrightarrow> (\<exists>hn. hostname c = Some hn \<and>
       (https c' \<longleftrightarrow> CHR '':'' \<notin> set hn \<and> hn \<noteq> ''localhost'' \<and> hn \<noteq> ''127.0.0.1''))) \<and>
    (listen_addr c = [] \<and> env_listen_addr env = None \<longrightarrow> (\<exists>hn. hostname c = Some hn \<and>
       (listen_addr c' = ''0.0.0.0'' \<longleftrightarrow> CHR '':'' \<in> set hn \<and> \<not> starts_with hn ''127.0.0.1'' \<and> \<not> starts_with hn ''localhost'')))"
proof -
  from set_defaults_result [OF assms] obtain pk k la pr where
    c': "c' = c\<lparr>public_key := pk, private_key := Some k, listen_addr := la, protocol := Some pr\<rparr>"
    and pr: "case protocol c of Some q \<Rightarrow> pr = q | None \<Rightarrow> \<exists>hn. hostname c = Some hn \<and> pr = default_protocol hn"
    and la: "if listen_addr c \<noteq> [] then la = listen_addr c
     else case env_listen_addr env of Some a \<Rightarrow> la = a
          | None \<Rightarrow> \<exists>hn. hostname c = Some hn \<and> la = default_listen_addr hn"
    by blast
  have "default_protocol hn = PROTOCOL_HTTPS \<longleftrightarrow> CHR '':'' \<notin> set hn \<and> hn \<noteq> ''localhost'' \<and> hn \<noteq> ''127.0.0.1''" for hn
    by (auto simp: default_protocol_def PROTOCOL_HTTP_def PROTOCOL_HTTPS_def find_char_None_iff)
  moreover have "default_listen_addr hn = ''0.0.0.0'' \<longleftrightarrow>
      CHR '':'' \<in> set hn \<and> \<not> starts_with hn ''127.0.0.1'' \<and> \<not> starts_with hn ''localhost''" for hn
    by (auto simp: default_listen_addr_def find_char_None_iff)
  ultimately show ?thesis
    using set_defaults_again [OF assms] pr la by (auto simp: c' https_def)
qed

theorem defaults_complete_witness:
  "\<exists>c'. set_defaults demo_env (new_config\<lparr>hostname := Some ''fiy.org''\<rparr>) = Inr c' \<and> https c'"
proof -
  obtain c' where c': "set_defaults demo_env (new_config\<lparr>hostname := Some ''fiy.org''\<rparr>) = Inr c'"
    by (simp add: set_defaults_def default_keys_def set_default_listen_def set_default_protocol_def
        demo_env_def new_config_def Let_def)
  from defaults_complete [OF c'] c' show ?thesis by (auto simp: new_config_def)
qed

end
