(* ===== verification/Session.thy ===== *)
theory Session
  imports LocalUsers Peers Config
begin

text \<open>
  \<open>protocol/Server/Session.cpp\<close> and \<open>protocol/Server/Session.hpp\<close>: one HTTP connection, the cookies it
  remembers, and who the current request comes from. The connection is a state machine driven by
  the completion of its asynchronous reads and writes; the request parser is Boost.Beast's, so a
  read delivers a message and whether it asks to keep the connection.

  Base64 decoding is a parameter \<open>b64\<close> (the bytes that are written); the buffer of
  \<open>decoded_size\<close> bytes around it is the code's, so a longer output or a missing NUL is undefined.

  Shown: what Basic authentication accepts; which request's cookies identify a request; what a
  peer's token allows and what its signature is checked for.
\<close>

section \<open>The connection\<close>

datatype conn_phase =
    Reading
  | Handling
  | Writing bool
  | Closed
  | Abandoned

record Session =
  phase :: conn_phase
  s_req :: http_request
  s_keep_alive :: bool
  m_cookies :: "string \<rightharpoonup> string"

datatype read_result =
    EndOfStream
  | ReadError
  | ReadOk http_request bool

definition empty_request :: http_request where
  "empty_request = \<lparr>req_method = 0, req_target = [], req_fields = [], req_body = []\<rparr>"

definition new_session :: Session where
  "new_session = \<lparr>phase = Reading, s_req = empty_request, s_keep_alive = True, m_cookies = Map.empty\<rparr>"

text \<open>The parser is reset; the cookies are not.\<close>

definition do_read :: "Session \<Rightarrow> Session" where
  "do_read s = s\<lparr>phase := Reading, s_req := empty_request\<rparr>"

definition on_read :: "Session \<Rightarrow> read_result \<Rightarrow> Session" where
  "on_read s r =
     (case r of
        EndOfStream \<Rightarrow> s\<lparr>phase := Closed\<rparr>
      | ReadError \<Rightarrow> s\<lparr>phase := Abandoned\<rparr>
      | ReadOk q ka \<Rightarrow> s\<lparr>phase := Handling, s_req := q, s_keep_alive := ka\<rparr>)"

text \<open>\<open>respond(prep(res))\<close>: \<open>prep\<close> copies the wish of the request into the response.\<close>

definition respond_session :: "Session \<Rightarrow> Session" where
  "respond_session s = s\<lparr>phase := Writing (s_keep_alive s)\<rparr>"

definition on_write :: "Session \<Rightarrow> bool \<Rightarrow> bool \<Rightarrow> Session" where
  "on_write s keep_alive ok =
     (if \<not> ok then s\<lparr>phase := Abandoned\<rparr>
      else if \<not> keep_alive then s\<lparr>phase := Closed\<rparr>
      else do_read s)"

definition clear_cookie_cache :: "Session \<Rightarrow> Session" where
  "clear_cookie_cache s = s\<lparr>m_cookies := Map.empty\<rparr>"

definition get_cookies :: "Session \<Rightarrow> Session" where
  "get_cookies s =
     (if m_cookies s = Map.empty
      then let cookie_header = field_get (req_fields (s_req s)) ''Cookie''
           in if cookie_header \<noteq> [] then s\<lparr>m_cookies := parse_cookies cookie_header\<rparr> else s
      else s)"

section \<open>Local users\<close>

definition NUL :: char where
  "NUL = CHR 0x00"

definition decoded_size :: "nat \<Rightarrow> nat" where
  "decoded_size n = n div 4 * 3"

text \<open>The decoded text up to the first NUL, split at the colon.\<close>

definition basic_credentials ::
  "(string \<Rightarrow> string) \<Rightarrow> string \<Rightarrow> (string \<times> string) option result" where
  "basic_credentials b64 hv =
     (let bytes = b64 hv; size = decoded_size (length hv)
      in if length bytes > size then Inl UndefinedBehaviour
         else let buff = bytes @ replicate (size - length bytes) NUL
              in if NUL \<notin> set buff then Inl UndefinedBehaviour
                 else let au = takeWhile (\<lambda>c. c \<noteq> NUL) buff
                      in Inr (case find_char au (CHR '':'') 0 of
                                None \<Rightarrow> None
                              | Some i \<Rightarrow> Some (take i au, drop (i + 1) au)))"

definition erase_request_field :: "Session \<Rightarrow> string \<Rightarrow> Session" where
  "erase_request_field s name =
     s\<lparr>s_req := (s_req s)\<lparr>req_fields := field_erase (req_fields (s_req s)) name\<rparr>\<rparr>"

text \<open>The password result decides about the header only.\<close>

definition find_user_local ::
  "(string \<Rightarrow> string) \<Rightarrow> string \<Rightarrow> (string \<Rightarrow> string) \<Rightarrow> users_state \<Rightarrow> Session \<Rightarrow>
   users_state \<times> Session \<times> LocalUser option result" where
  "find_user_local sha512 pw_salt b64 us s0 =
     (let s = get_cookies s0
      in case m_cookies s ''fiy_auth'' of
           Some token \<Rightarrow> (us, s, Inr (auth_user_token us token))
         | None \<Rightarrow>
             (case field_find (req_fields (s_req s)) ''Authorization'' of
                None \<Rightarrow> (us, s, Inr None)
              | Some hv \<Rightarrow>
                  (if \<not> starts_with hv ''Basic '' then (us, s, Inr None)
                   else case basic_credentials b64 (drop 6 hv) of
                          Inl e \<Rightarrow> (us, s, Inl e)
                        | Inr None \<Rightarrow> (us, s, Inr None)
                        | Inr (Some (name, pw)) \<Rightarrow>
                            (let r = auth_user_password sha512 pw_salt us name pw;
                                 s1 = (if r = 0 then erase_request_field s ''Authorization'' else s);
                                 (us1, found) = get_user us name
                             in (us1, s1, found)))))"

section \<open>Local users and peers\<close>

datatype find_result =
    Identified "string option" string
  | ReauthSent

definition unauthenticated :: find_result where
  "unauthenticated = Identified None '' ''"

definition session_user_str :: "string option \<Rightarrow> string \<Rightarrow> string" where
  "session_user_str domain user = user @ (case domain of None \<Rightarrow> [] | Some d \<Rightarrow> ''@'' @ d)"

text \<open>The age and the signature of a message, which are looked at only when the mod id is given.\<close>

definition peer_request_valid ::
  "(string \<Rightarrow> string \<Rightarrow> string) \<Rightarrow> int \<Rightarrow> Peer \<Rightarrow> http_request \<Rightarrow> string \<Rightarrow> string \<Rightarrow> bool result" where
  "peer_request_valid hmac now peer req user app_id =
     (let time_str = field_get (req_fields req) ''Fiy-Now''
      in bind_result (from_chars 64 (length time_str) time_str) (\<lambda>r.
           let ts = (case r of None \<Rightarrow> 0 | Some v \<Rightarrow> v)
           in if now - ts > MAX_RESPONSE_TIME then Inr False
              else Inr (field_get (req_fields req) ''Authorization'' =
                     peer_sig hmac peer app_id (field_get (req_fields req) ''Fiy-Path'') user
                       (length (req_body req)) time_str)))"

definition find_user_peer ::
  "(string \<Rightarrow> string \<Rightarrow> string) \<Rightarrow> int \<Rightarrow> FederationStatus \<Rightarrow> peers_state \<Rightarrow> string option \<Rightarrow> Session \<Rightarrow>
   Session \<times> find_result result" where
  "find_user_peer hmac now fed ps app_id s =
     (if fed \<noteq> ENABLED then (s, Inr unauthenticated)
      else case field_find (req_fields (s_req s)) ''Fiy-Peer'' of
             None \<Rightarrow> (s, Inr unauthenticated)
           | Some token \<Rightarrow>
               (if token = [] then (s, Inr unauthenticated)
                else case get_peer_from_token ps token of
                       None \<Rightarrow> (respond_session s, Inr ReauthSent)
                     | Some peer \<Rightarrow>
                         (case field_find (req_fields (s_req s)) ''Fiy-User'' of
                            None \<Rightarrow> (s, Inl OutOfRange)
                          | Some user \<Rightarrow>
                              (case app_id of
                                 None \<Rightarrow> (s, Inr (Identified (Some (peer_domain peer)) user))
                               | Some a \<Rightarrow>
                                   (case peer_request_valid hmac now peer (s_req s) user a of
                                      Inl e \<Rightarrow> (s, Inl e)
                                    | Inr ok \<Rightarrow>
                                        (if ok then (s, Inr (Identified (Some (peer_domain peer)) user))
                                         else (respond_session s, Inr ReauthSent)))))))"

definition find_user ::
  "(string \<Rightarrow> string) \<Rightarrow> string \<Rightarrow> (string \<Rightarrow> string) \<Rightarrow> (string \<Rightarrow> string \<Rightarrow> string) \<Rightarrow> int \<Rightarrow> FederationStatus \<Rightarrow>
   users_state \<Rightarrow> peers_state \<Rightarrow> string option \<Rightarrow> Session \<Rightarrow> users_state \<times> Session \<times> find_result result" where
  "find_user sha512 pw_salt b64 hmac now fed us ps app_id s =
     (case find_user_local sha512 pw_salt b64 us s of
        (us1, s1, Inl e) \<Rightarrow> (us1, s1, Inl e)
      | (us1, s1, Inr (Some lu)) \<Rightarrow> (us1, s1, Inr (Identified None (username lu)))
      | (us1, s1, Inr None) \<Rightarrow> (us1, find_user_peer hmac now fed ps app_id s1))"

section \<open>Lemmas\<close>

lemma get_cookies_cached: "m_cookies s \<noteq> Map.empty \<Longrightarrow> get_cookies s = s"
  by (simp add: get_cookies_def)

lemma find_user_local_cookie:
  "m_cookies s ''fiy_auth'' = Some token \<Longrightarrow>
   find_user_local sha512 pw_salt b64 us s = (us, s, Inr (auth_user_token us token))"
proof -
  assume a: "m_cookies s ''fiy_auth'' = Some token"
  then have "m_cookies s \<noteq> Map.empty" by fastforce
  with a show ?thesis by (simp add: find_user_local_def get_cookies_cached)
qed

lemma find_user_peer_identified:
  assumes "find_user_peer hmac now fed ps app_id s = (s', Inr (Identified (Some d) u))"
  shows "fed = ENABLED \<and> (\<exists>t p. field_find (req_fields (s_req s)) ''Fiy-Peer'' = Some t \<and>
    get_peer_from_token ps t = Some p \<and> peer_domain p = d \<and> field_find (req_fields (s_req s)) ''Fiy-User'' = Some u)"
  using assms
  by (auto simp: find_user_peer_def unauthenticated_def split: if_splits option.splits sum.splits)

lemma basic_credentials_plain:
  assumes "b64 hv = name @ '':'' @ pw" and "NUL \<notin> set (name @ pw)" and "CHR '':'' \<notin> set name"
    and "length (b64 hv) < decoded_size (length hv)"
  shows "basic_credentials b64 hv = Inr (Some (name, pw))"
proof -
  let ?n = "decoded_size (length hv) - length (b64 hv)"
  obtain k where k: "?n = Suc k" using assms(4) by (cases ?n) auto
  have nn: "\<forall>c \<in> set (name @ '':'' @ pw). c \<noteq> NUL" using assms(2) by (auto simp: NUL_def)
  then have "takeWhile (\<lambda>c. c \<noteq> NUL) ((name @ '':'' @ pw) @ replicate ?n NUL) = name @ '':'' @ pw"
    unfolding k by (subst takeWhile_append2) (auto simp del: append_assoc)
  moreover have "find_char (name @ '':'' @ pw) (CHR '':'') 0 = Some (length name)"
    using find_char_append_hit [OF assms(3), of pw] by simp
  moreover have "NUL \<in> set ((name @ '':'' @ pw) @ replicate ?n NUL)" by (simp add: k)
  ultimately show ?thesis
    using assms(4) unfolding basic_credentials_def Let_def assms(1) by simp
qed

section \<open>Properties\<close>

text \<open>
  Basic authentication accepts any password: for a request without a session cookie whose
  \<open>Authorization\<close> header decodes to a user name and a password, the account of that name is
  returned whether or not the password is right. The result of the check only decides whether
  the header is removed from the request.
\<close>

theorem basic_auth_ignores_password:
  assumes "field_get (req_fields (s_req s)) ''Cookie'' = []" and "m_cookies s = Map.empty"
    and "field_find (req_fields (s_req s)) ''Authorization'' = Some (''Basic '' @ enc)"
    and "b64 enc = name @ '':'' @ pw" and "NUL \<notin> set (name @ pw)" and "CHR '':'' \<notin> set name"
    and "length (b64 enc) < decoded_size (length enc)"
    and "get_user us name = (us', Inr (Some account))"
  shows "find_user_local sha512 pw_salt b64 us s =
    (us', if auth_user_password sha512 pw_salt us name pw = 0 then erase_request_field s ''Authorization'' else s,
     Inr (Some account))"
proof -
  have c: "get_cookies s = s" using assms(1,2) by (simp add: get_cookies_def)
  show ?thesis
    using basic_credentials_plain [of b64 enc name pw] assms
    by (simp add: find_user_local_def c starts_with_def)
qed

definition demo_basic :: Session where
  "demo_basic = new_session\<lparr>s_req := \<lparr>req_method = 2, req_target = ''/'',
     req_fields = [(''Authorization'', ''Basic YWxpY2U6Yg=='')], req_body = []\<rparr>\<rparr>"

theorem basic_auth_ignores_password_witness:
  "auth_user_password demo_hash ''.salt'' demo_users ''alice'' ''b'' = 1 \<and>
   (\<exists>us' u. find_user_local demo_hash ''.salt'' (\<lambda>_. ''alice:b'') demo_users demo_basic = (us', demo_basic, Inr (Some u)) \<and>
      username u = ''alice'')"
proof -
  have wrong: "auth_user_password demo_hash ''.salt'' demo_users ''alice'' ''b'' = 1"
    by (simp add: auth_user_password_def demo_users_def demo_row_def check_password_hash_iff
        demo_hash_def PASSWORD_HASH_SIZE_def)
  obtain us' where u: "get_user demo_users ''alice'' = (us', Inr (Some (user_of_row ''alice'' demo_row)))"
    by (simp add: get_user_def demo_users_def Let_def)
  have f: "field_get (req_fields (s_req demo_basic)) ''Cookie'' = []" "m_cookies demo_basic = Map.empty"
    "field_find (req_fields (s_req demo_basic)) ''Authorization'' = Some (''Basic '' @ ''YWxpY2U6Yg=='')"
    "NUL \<notin> set (''alice'' @ ''b'')" "CHR '':'' \<notin> set ''alice''"
    by (simp_all add: demo_basic_def new_session_def field_get_def same_name_def NUL_def)
  have d: "(\<lambda>_. ''alice:b'') ''YWxpY2U6Yg=='' = ''alice'' @ '':'' @ ''b''"
    "length ((\<lambda>_. ''alice:b'') ''YWxpY2U6Yg=='') < decoded_size (length ''YWxpY2U6Yg=='')"
    by (simp_all add: decoded_size_def)
  show ?thesis
    using basic_auth_ignores_password [OF f(1,2,3) d(1) f(4,5) d(2) u, of demo_hash "''.salt''"] wrong by simp
qed

text \<open>
  The cookies of the first request speak for the whole connection: once they held a session
  token, every later request that arrives on the kept connection is identified by that token,
  whatever its own \<open>Cookie\<close> header says, and even without one.
\<close>

theorem cookies_outlive_request:
  assumes "m_cookies (get_cookies s) ''fiy_auth'' = Some token"
  shows "find_user_local sha512 pw_salt b64 us
      (on_read (on_write (respond_session (get_cookies s)) True True) (ReadOk q ka)) =
    (us, on_read (on_write (respond_session (get_cookies s)) True True) (ReadOk q ka),
     Inr (auth_user_token us token))"
  by (rule find_user_local_cookie)
    (use assms in \<open>simp add: on_read_def on_write_def respond_session_def do_read_def\<close>)

theorem cookies_outlive_request_witness:
  "\<exists>s'. find_user_local demo_hash ''.salt'' id demo_session s' =
     (demo_session, s', Inr (auth_user_token demo_session ''old'')) \<and>
   req_fields (s_req s') = [(''Cookie'', ''fiy_auth=new'')]"
proof -
  let ?q = "\<lparr>req_method = 2, req_target = ''/'', req_fields = [(''Cookie'', ''fiy_auth=new'')], req_body = []\<rparr>"
  let ?s = "new_session\<lparr>m_cookies := [''fiy_auth'' \<mapsto> ''old'']\<rparr>"
  let ?s' = "on_read (on_write (respond_session (get_cookies ?s)) True True) (ReadOk ?q True)"
  have "get_cookies ?s = ?s" by (rule get_cookies_cached) simp
  then have m: "m_cookies (get_cookies ?s) ''fiy_auth'' = Some ''old''" by simp
  have "req_fields (s_req ?s') = [(''Cookie'', ''fiy_auth=new'')]" by (simp add: on_read_def)
  with cookies_outlive_request [OF m, of demo_hash "''.salt''" id demo_session ?q True] show ?thesis by blast
qed

text \<open>
  C13. A remote identity is vouched for by its own server: if a request is attributed to a user of
  another domain, federation is on, the request carries a bearer token that was made for
  exactly the peer registered under that domain, and the user is the one in the request.
\<close>

theorem remote_identity_sound:
  assumes "peers_reachable ps"
    and "find_user sha512 pw_salt b64 hmac now fed us ps app_id s = (us', s', Inr (Identified (Some d) u))"
  shows "fed = ENABLED \<and> (\<exists>t p s1. field_find (req_fields (s_req s1)) ''Fiy-Peer'' = Some t \<and>
    s1 = fst (snd (find_user_local sha512 pw_salt b64 us s)) \<and>
    field_find (req_fields (s_req s1)) ''Fiy-User'' = Some u \<and>
    get_peer_from_token ps t = Some p \<and> bearer_token_we_accept (auth p) = t \<and>
    get_peer_for_domain ps d = Some p)"
proof -
  obtain us1 s1 r where l: "find_user_local sha512 pw_salt b64 us s = (us1, s1, r)"
    by (cases "find_user_local sha512 pw_salt b64 us s")
  with assms(2) have "find_user_peer hmac now fed ps app_id s1 = (s', Inr (Identified (Some d) u))"
    by (auto simp: find_user_def split: sum.splits option.splits)
  from find_user_peer_identified [OF this] obtain t p where p: "fed = ENABLED"
    "field_find (req_fields (s_req s1)) ''Fiy-Peer'' = Some t" "get_peer_from_token ps t = Some p"
    "peer_domain p = d" "field_find (req_fields (s_req s1)) ''Fiy-User'' = Some u" by blast
  have in_tab: "m_peers_in ps t = Some (Some p)"
    using p(3) by (simp add: get_peer_from_token_def split: option.splits)
  from peers_inv_in [OF peers_reachable_inv [OF assms(1)] in_tab] p(4)
  have "bearer_token_we_accept (auth p) = t" "get_peer_for_domain ps d = Some p"
    by (simp_all add: get_peer_for_domain_def)
  with p l show ?thesis by auto
qed

definition demo_peer_session :: Session where
  "demo_peer_session = new_session\<lparr>s_req := \<lparr>req_method = 2, req_target = ''/'',
     req_fields = [(''Fiy-Peer'', ''.ours''), (''Fiy-User'', ''bob'')], req_body = []\<rparr>\<rparr>"

lemma demo_peer_local:
  "find_user_local demo_hash ''.salt'' id demo_users demo_peer_session = (demo_users, demo_peer_session, Inr None)"
proof -
  have "get_cookies demo_peer_session = demo_peer_session"
    by (simp add: get_cookies_def demo_peer_session_def new_session_def field_get_def same_name_def)
  then show ?thesis
    by (simp add: find_user_local_def demo_peer_session_def new_session_def same_name_def)
qed

theorem remote_identity_sound_witness:
  "find_user demo_hash ''.salt'' id (\<lambda>_ _. []) 7 ENABLED demo_users demo_linked None demo_peer_session =
     (demo_users, demo_peer_session, Inr (Identified (Some ''b.org'') ''bob'')) \<and>
   get_peer_for_domain demo_linked ''b.org'' = Some demo_peer"
proof -
  have f: "find_user demo_hash ''.salt'' id (\<lambda>_ _. []) 7 ENABLED demo_users demo_linked None demo_peer_session =
     (demo_users, demo_peer_session, Inr (Identified (Some ''b.org'') ''bob''))"
    unfolding find_user_def demo_peer_local
    by (simp add: find_user_peer_def demo_peer_session_def new_session_def same_name_def to_lower_def is_upper_def
        get_peer_from_token_def demo_linked_def demo_peer_def)
  from remote_identity_sound [OF demo_linked_reachable f] obtain t p where
    "get_peer_from_token demo_linked t = Some p" "get_peer_for_domain demo_linked ''b.org'' = Some p" by blast
  then have "get_peer_for_domain demo_linked ''b.org'' = Some demo_peer"
    by (simp add: get_peer_for_domain_def demo_linked_def)
  with f show ?thesis by simp
qed

text \<open>
  The signature of a peer's message protects nothing. Without a mod id, as both connectors call
  it, a request with a known token is accepted whatever its path, body, time or signature; with a
  mod id, a request signed exactly as \<open>request_peer\<close> signs it is refused, because the header begins
  with \<open>FIY1\<close> and the comparison does not expect that.
\<close>

theorem signature_not_checked:
  assumes "field_find (req_fields (s_req s)) ''Fiy-Peer'' = Some t" and "t \<noteq> []"
    and "get_peer_from_token ps t = Some p" and "field_find (req_fields (s_req s)) ''Fiy-User'' = Some u"
  shows "find_user_peer hmac now ENABLED ps None s = (s, Inr (Identified (Some (peer_domain p)) u)) \<and>
    (field_get (req_fields (s_req s)) ''Authorization'' = ''FIY1 '' @ peer_sig hmac p a
        (field_get (req_fields (s_req s)) ''Fiy-Path'') u (length (req_body (s_req s)))
        (field_get (req_fields (s_req s)) ''Fiy-Now'') \<longrightarrow>
      snd (find_user_peer hmac now ENABLED ps (Some a) s) \<in> {Inr ReauthSent, Inl UndefinedBehaviour})"
proof
  show "find_user_peer hmac now ENABLED ps None s = (s, Inr (Identified (Some (peer_domain p)) u))"
    using assms by (simp add: find_user_peer_def)
next
  let ?f = "req_fields (s_req s)"
  show "field_get ?f ''Authorization'' = ''FIY1 '' @ peer_sig hmac p a
        (field_get ?f ''Fiy-Path'') u (length (req_body (s_req s))) (field_get ?f ''Fiy-Now'') \<longrightarrow>
      snd (find_user_peer hmac now ENABLED ps (Some a) s) \<in> {Inr ReauthSent, Inl UndefinedBehaviour}"
  proof
    let ?sig = "peer_sig hmac p a (field_get ?f ''Fiy-Path'') u (length (req_body (s_req s))) (field_get ?f ''Fiy-Now'')"
    assume au: "field_get ?f ''Authorization'' = ''FIY1 '' @ ?sig"
    have "length (''FIY1 '' @ ?sig) \<noteq> length ?sig" by simp
    then have ne: "''FIY1 '' @ ?sig \<noteq> ?sig" by metis
    have "peer_request_valid hmac now p (s_req s) u a \<in> {Inr False, Inl UndefinedBehaviour}"
      unfolding peer_request_valid_def Let_def au using ne
      by (auto simp: from_chars_def Let_def)
    then show "snd (find_user_peer hmac now ENABLED ps (Some a) s) \<in> {Inr ReauthSent, Inl UndefinedBehaviour}"
      using assms by (auto simp: find_user_peer_def)
  qed
qed

theorem signature_not_checked_witness:
  "find_user_peer (\<lambda>_ _. ''mac'') 7 ENABLED demo_linked None demo_peer_session =
     (demo_peer_session, Inr (Identified (Some ''b.org'') ''bob''))"
proof -
  have f: "field_find (req_fields (s_req demo_peer_session)) ''Fiy-Peer'' = Some ''.ours''" "''.ours'' \<noteq> []"
    "get_peer_from_token demo_linked ''.ours'' = Some demo_peer"
    "field_find (req_fields (s_req demo_peer_session)) ''Fiy-User'' = Some ''bob''"
    by (simp_all add: demo_peer_session_def new_session_def same_name_def to_lower_def is_upper_def get_peer_from_token_def demo_linked_def)
  show ?thesis
    using signature_not_checked [OF f, of "\<lambda>_ _. ''mac''" 7 "''chat''"] by (simp add: demo_peer_def)
qed

end
