(* ===== verification/Mods.thy ===== *)
theory Mods
  imports Complex_Main Tokens Config
begin

text \<open>
  \<open>util/Version.hpp\<close>, \<open>protocol/mods/Mod.hpp\<close>, \<open>protocol/mods/Mod.cpp\<close>, \<open>protocol/mods/Mods.hpp\<close> and
  \<open>protocol/mods/Mods.cpp\<close>: the installed mods, how they are loaded from \<open>module.json\<close>, and the
  lookups by id, by path and by bearer token.

  A JSON document is a datatype; reading and parsing the file is a parameter. A \<open>Mod*\<close> in a
  lookup is the index into \<open>m_mods\<close>, which does not change after \<open>find_modules\<close>. An access checker
  is the case of \<open>parse_access_checker\<close> it came from. The installation time is left out.

  Shown: who an access restriction admits; what the lookups find after the mods were loaded and
  which directories stop the server from starting; what is left of a version number.
\<close>

section \<open>Versions\<close>

record Version =
  v_major :: int
  v_minor :: int
  major_string :: string

definition no_version :: Version where
  "no_version = \<lparr>v_major = -1, v_minor = -1, major_string = []\<rparr>"

definition version_of :: "int \<Rightarrow> int \<Rightarrow> Version" where
  "version_of major minor = \<lparr>v_major = major, v_minor = minor, major_string = show_int major\<rparr>"

text \<open>\<open>std::stoi\<close> with the number of characters read.\<close>

definition stoi :: "string \<Rightarrow> (int \<times> nat) result" where
  "stoi s =
     (let s1 = dropWhile is_space s;
          neg = (s1 \<noteq> [] \<and> hd s1 = CHR ''-'');
          s2 = (if s1 \<noteq> [] \<and> (hd s1 = CHR ''-'' \<or> hd s1 = CHR ''+'') then tl s1 else s1);
          ds = takeWhile is_digit s2;
          v = (if neg then - read_base 10 0 ds else read_base 10 0 ds)
      in if ds = [] then Inl InvalidArgument
         else if v < - (2 ^ 31) \<or> 2 ^ 31 \<le> v then Inl OutOfRange
         else Inr (v, length s - length (dropWhile is_digit s2)))"

text \<open>The minor part is read from the position of the dot on.\<close>

definition parse_version :: "string \<Rightarrow> Version result" where
  "parse_version version_str =
     bind_result (stoi version_str) (\<lambda>(major, pos).
       if pos \<ge> length version_str \<or> version_str ! pos \<noteq> CHR ''.''
       then Inr (version_of major 0)
       else Inr (version_of major (fst (strtol10 (drop pos version_str)))))"

definition version_str :: "Version \<Rightarrow> string" where
  "version_str v = major_string v @ ''.'' @ show_int (v_minor v)"

definition version_compatible :: "Version \<Rightarrow> Version \<Rightarrow> bool" where
  "version_compatible v w \<longleftrightarrow> v_major v = v_major w"

definition version_compatible_str :: "Version \<Rightarrow> string \<Rightarrow> bool" where
  "version_compatible_str v other_major_str \<longleftrightarrow> major_string v = other_major_str"

definition version_less :: "Version \<Rightarrow> Version \<Rightarrow> bool" where
  "version_less v w \<longleftrightarrow> v_major v < v_major w \<or> (v_major v = v_major w \<and> v_minor v < v_minor w)"

definition version_initialized :: "Version \<Rightarrow> bool" where
  "version_initialized v \<longleftrightarrow> v_major v \<noteq> -1"

section \<open>Access restrictions\<close>

datatype access_checker =
    NoChecker
  | AccessPublic
  | AccessDisabled
  | AccessFederated
  | AccessLocal
  | AccessList "string list"

definition list_separator :: "char \<Rightarrow> bool" where
  "list_separator c \<longleftrightarrow> c = CHR '' '' \<or> c = CHR '',''"

function split_names :: "string \<Rightarrow> string list" where
  "split_names s =
     (let s1 = dropWhile list_separator s
      in if s1 = [] then []
         else takeWhile (\<lambda>c. \<not> list_separator c) s1 # split_names (dropWhile (\<lambda>c. \<not> list_separator c) s1))"
  by pat_completeness auto
termination
proof (relation "measure length", goal_cases)
  case (2 s s1)
  have "length s1 \<le> length s" by (simp add: 2 length_dropWhile_le)
  moreover have "\<not> list_separator (hd s1)" using 2 hd_dropWhile by metis
  then have "length (dropWhile (\<lambda>c. \<not> list_separator c) s1) < length s1"
    using 2(2) length_dropWhile_le [of "\<lambda>c. \<not> list_separator c" "tl s1"] by (cases s1) auto
  ultimately show ?case by simp
qed simp

declare split_names.simps [simp del]

definition parse_access_checker :: "string \<Rightarrow> access_checker" where
  "parse_access_checker v =
     (if v = [] \<or> v = ''public'' then AccessPublic
      else if v = ''disabled'' then AccessDisabled
      else if v = ''federated'' then AccessFederated
      else if v = ''local'' then AccessLocal
      else AccessList (split_names v))"

text \<open>The call of the checker; a null user is turned into a string before it is looked up.\<close>

definition can_access :: "access_checker \<Rightarrow> string option \<Rightarrow> string option \<Rightarrow> bool result" where
  "can_access a user domain =
     (case a of
        NoChecker \<Rightarrow> Inl UndefinedBehaviour
      | AccessPublic \<Rightarrow> Inr True
      | AccessDisabled \<Rightarrow> Inr False
      | AccessFederated \<Rightarrow> Inr (user \<noteq> None)
      | AccessLocal \<Rightarrow> Inr (user \<noteq> None \<and> domain = None)
      | AccessList wl \<Rightarrow>
          (if domain \<noteq> None then Inr False
           else case user of None \<Rightarrow> Inl LogicError | Some u \<Rightarrow> Inr (u \<in> set wl)))"

section \<open>Mods\<close>

datatype json =
    JNull
  | JBool bool
  | JNumber rat
  | JString string
  | JArray "json list"
  | JObject "(string \<times> json) list"

definition jget :: "json \<Rightarrow> string \<Rightarrow> json option" where
  "jget j key = (case j of JObject kvs \<Rightarrow> map_of kvs key | _ \<Rightarrow> None)"

datatype module_file =
    FileMissing
  | FileInvalid string
  | FileParsed json

text \<open>The connector with the two bearer tokens of a network connector.\<close>

datatype connector =
    NetConnector (net_uri: string) (net_https: bool) (net_send: string) (net_accept: string)
  | DllConnector (dll_path: string)

definition connector_uri :: "connector \<Rightarrow> string" where
  "connector_uri c = (case c of NetConnector u _ _ _ \<Rightarrow> u | DllConnector p \<Rightarrow> p)"

record Mod =
  m_loaded :: bool
  m_enabled :: bool
  m_running :: bool
  m_error :: string
  mod_config :: string
  mod_dir_name :: string
  mod_id :: string
  mod_path :: string
  mod_name :: string
  mod_description :: string
  mod_icon :: string
  mod_user_data_dir :: string
  mod_version :: Version
  mod_access :: access_checker
  mod_ipc :: "connector option"

datatype Status = INVALID | MOD_DISABLED | MOD_ENABLED | RUNNING | FAILED

definition status :: "Mod \<Rightarrow> Status" where
  "status m =
     (if \<not> m_loaded m then INVALID
      else if \<not> m_enabled m then MOD_DISABLED
      else if m_running m then RUNNING
      else if m_error m = [] then MOD_ENABLED
      else FAILED)"

definition set_mod_error :: "Mod \<Rightarrow> string \<Rightarrow> Mod" where
  "set_mod_error m err = m\<lparr>m_error := err, m_running := False\<rparr>"

definition load_error :: "Mod \<Rightarrow> string \<Rightarrow> Mod" where
  "load_error m message = m\<lparr>m_error := m_error m @ message @ ''\<newline>'', m_loaded := False\<rparr>"

definition mod_dir :: "string \<Rightarrow> Mod \<Rightarrow> string" where
  "mod_dir data m = data @ ''/mods/'' @ mod_dir_name m"

definition new_mod :: "string \<Rightarrow> Mod" where
  "new_mod d = \<lparr>m_loaded = True, m_enabled = False, m_running = False, m_error = [], mod_config = [],
     mod_dir_name = d, mod_id = [], mod_path = [], mod_name = [], mod_description = [], mod_icon = [],
     mod_user_data_dir = d, mod_version = version_of 0 0, mod_access = NoChecker, mod_ipc = None\<rparr>"

definition parse_file :: "string \<Rightarrow> (string \<Rightarrow> module_file) \<Rightarrow> Mod \<Rightarrow> Mod \<times> json" where
  "parse_file data files m =
     (let path = mod_dir data m @ ''/module.json''
      in case files path of
           FileMissing \<Rightarrow> (load_error m ''missing module.json'', JNull)
         | FileInvalid what \<Rightarrow>
             (load_error (m\<lparr>mod_config := path\<rparr>) (mod_dir data m @ ''/module.json: invalid JSON: '' @ what), JNull)
         | FileParsed j \<Rightarrow>
             (case j of
                JObject _ \<Rightarrow> (m\<lparr>mod_config := path\<rparr>, j)
              | _ \<Rightarrow> (load_error (m\<lparr>mod_config := path\<rparr>) ''module.json: should be an object'', JNull)))"

text \<open>A key that must be a string when it is there; \<open>missing\<close> is the error when it is not.\<close>

definition load_string :: "json \<Rightarrow> string \<Rightarrow> string \<Rightarrow> string \<Rightarrow> (Mod \<Rightarrow> string \<Rightarrow> Mod) \<Rightarrow> Mod \<Rightarrow> Mod" where
  "load_string conf key missing wrong put m =
     (case jget conf key of
        None \<Rightarrow> (if missing = [] then m else load_error m missing)
      | Some (JString v) \<Rightarrow> put m v
      | Some _ \<Rightarrow> load_error m wrong)"

definition load_version :: "json \<Rightarrow> Mod \<Rightarrow> Mod result" where
  "load_version conf m =
     (case jget conf ''version'' of
        None \<Rightarrow> Inr m
      | Some (JString v) \<Rightarrow> bind_result (parse_version v) (\<lambda>ver. Inr (m\<lparr>mod_version := ver\<rparr>))
      | Some _ \<Rightarrow> Inr (load_error m ''module.json: \"version\" should be a string of format NN.nn''))"

definition load_connector :: "string \<Rightarrow> json \<Rightarrow> Mod \<Rightarrow> Mod" where
  "load_connector data conf m0 =
     (let (m, uri) = (case jget conf ''connector_uri'' of
                        None \<Rightarrow> (m0, [])
                      | Some (JString v) \<Rightarrow> (m0, v)
                      | Some _ \<Rightarrow> (load_error m0 ''module.json: \"connector_uri\" should be a string'', []))
      in case jget conf ''connector'' of
           None \<Rightarrow> load_error m ''module.json: missing key: connector''
         | Some v \<Rightarrow>
             (let (m1, ts) = (case v of
                 JString t \<Rightarrow> (m, t)
               | _ \<Rightarrow> (load_error m ''module.json: \"connector\" should be either \"shared_object\", \"socket\" or \"tcp\"'', []))
              in if ts = ''http'' \<or> ts = ''https''
                 then (if uri = []
                       then load_error m1 (''module.json: \"connector_uri\" must be defined when \"ipc\" is set to \"'' @ ts @ ''\"'')
                       else m1\<lparr>mod_ipc := Some (NetConnector uri (ts = ''https'') [] [])\<rparr>)
                 else if ts = ''shared_object''
                 then m1\<lparr>mod_ipc := Some (DllConnector (if uri = [] then mod_dir data m1 @ ''/module.so'' else uri))\<rparr>
                 else m1))"

definition load_enabled :: "json \<Rightarrow> Mod \<Rightarrow> Mod" where
  "load_enabled conf m =
     (case jget conf ''enabled'' of
        None \<Rightarrow> m\<lparr>m_enabled := False\<rparr>
      | Some (JBool b) \<Rightarrow> m\<lparr>m_enabled := b\<rparr>
      | Some (JNumber n) \<Rightarrow> m\<lparr>m_enabled := (n \<noteq> 0)\<rparr>
      | Some _ \<Rightarrow> load_error m ''module.json: \"enabled\" should be a boolean'')"

definition load_icon :: "json \<Rightarrow> Mod \<Rightarrow> Mod" where
  "load_icon conf m =
     (case jget conf ''icon'' of
        None \<Rightarrow> m
      | Some (JString v) \<Rightarrow> m\<lparr>mod_icon := v\<rparr>
      | Some JNull \<Rightarrow> m\<lparr>mod_icon := []\<rparr>
      | Some _ \<Rightarrow> load_error m (''module.json: \"icon\" should be a string containing'' @
                    '' a path to request the module to get the icon''))"

definition load_access :: "json \<Rightarrow> Mod \<Rightarrow> Mod" where
  "load_access conf m =
     (case jget conf ''access'' of
        None \<Rightarrow> m\<lparr>mod_access := parse_access_checker []\<rparr>
      | Some (JString v) \<Rightarrow> m\<lparr>mod_access := parse_access_checker v\<rparr>
      | Some (JBool b) \<Rightarrow> m\<lparr>mod_access := parse_access_checker (if b then [] else ''disabled'')\<rparr>
      | Some _ \<Rightarrow> load_error m (''module.json: \"access\" should be either \"public\", \"federated\", \"local\",'' @
                    '' or a comma-separated list of local users allowed to use the mod''))"

definition load_data_dir :: "string \<Rightarrow> json \<Rightarrow> Mod \<Rightarrow> Mod" where
  "load_data_dir data conf m =
     (case jget conf ''data_dir'' of
        None \<Rightarrow> m\<lparr>mod_user_data_dir := mod_dir data m\<rparr>
      | Some (JString v) \<Rightarrow> m\<lparr>mod_user_data_dir := v\<rparr>
      | Some _ \<Rightarrow> load_error m ''module.json: \"data_dir\" should be a string'')"

text \<open>\<open>Mod::load\<close>.\<close>

definition load_mod :: "string \<Rightarrow> (string \<Rightarrow> module_file) \<Rightarrow> Mod \<Rightarrow> Mod result" where
  "load_mod data files m0 =
     (let m1 = (if mod_id m0 = [] then m0\<lparr>mod_id := mod_dir_name m0\<rparr> else m0);
          m2 = (if mod_path m1 = [] then m1\<lparr>mod_path := mod_id m1\<rparr> else m1);
          (m3, conf) = parse_file data files (m2\<lparr>m_error := []\<rparr>);
          m4 = load_string conf ''id'' [] ''module.json: \"id\" should be a string''
                 (\<lambda>m v. m\<lparr>mod_id := v\<rparr>) m3;
          m5 = load_string conf ''path'' [] ''module.json: \"path\" should contain a uri component string''
                 (\<lambda>m v. m\<lparr>mod_path := v\<rparr>) m4;
          m6 = load_string conf ''name'' ''module.json: missing key: name''
                 ''module.json: \"name\" should be a string'' (\<lambda>m v. m\<lparr>mod_name := v\<rparr>) m5
      in bind_result (load_version conf m6) (\<lambda>m7.
           let m8 = load_string conf ''description'' ''module.json: missing key: description''
                      ''module.json: \"description\" should be a string'' (\<lambda>m v. m\<lparr>mod_description := v\<rparr>) m7;
               m9 = load_data_dir data conf (load_access conf (load_icon conf (load_enabled conf
                      (load_connector data conf m8))))
           in Inr (if m_error m9 = [] then m9\<lparr>m_loaded := True\<rparr> else m9)))"

text \<open>\<open>start\<close> and \<open>stop\<close> call the connector; a null \<open>ipc\<close> is dereferenced.\<close>

definition has_ipc :: "Mod \<Rightarrow> unit result" where
  "has_ipc m = (if mod_ipc m = None then Inl UndefinedBehaviour else Inr ())"

section \<open>The collection\<close>

record Mods =
  m_mods :: "Mod list"
  m_mods_lookup :: "string \<rightharpoonup> nat"
  m_mods_by_id :: "string \<rightharpoonup> nat"
  m_net_connectors :: "string \<rightharpoonup> nat"

text \<open>
  The loop over the directories, in the order of the iterator. A disabled mod is deleted, and its
  destructor stops it; a mod that failed to load is skipped.
\<close>

fun load_mods :: "string \<Rightarrow> (string \<Rightarrow> module_file) \<Rightarrow> string list \<Rightarrow> Mod list result" where
  "load_mods data files [] = Inr []"
| "load_mods data files (d # ds) =
     bind_result (load_mod data files (new_mod d)) (\<lambda>m.
       if \<not> m_enabled m then bind_result (has_ipc m) (\<lambda>_. load_mods data files ds)
       else if \<not> m_loaded m then load_mods data files ds
       else bind_result (load_mods data files ds) (\<lambda>ms. Inr (m # ms)))"

fun index_by_id :: "nat \<Rightarrow> Mod list \<Rightarrow> (string \<rightharpoonup> nat) \<Rightarrow> (string \<rightharpoonup> nat)" where
  "index_by_id i [] tab = tab"
| "index_by_id i (m # ms) tab = index_by_id (Suc i) ms (tab(mod_id m \<mapsto> i))"

fun index_by_path :: "nat \<Rightarrow> Mod list \<Rightarrow> (string \<rightharpoonup> nat) \<Rightarrow> (string \<rightharpoonup> nat)" where
  "index_by_path i [] tab = tab"
| "index_by_path i (m # ms) tab = index_by_path (Suc i) ms (map_emplace tab (mod_path m) i)"

text \<open>Mods of one id keep the order they were found in; the library may order them either way.\<close>

definition find_modules :: "string \<Rightarrow> (string \<Rightarrow> module_file) \<Rightarrow> string list \<Rightarrow> Mods result" where
  "find_modules data files dirs =
     bind_result (load_mods data files dirs) (\<lambda>found.
       let ms = sort_key mod_id found
       in Inr \<lparr>m_mods = ms, m_mods_lookup = index_by_path 0 ms Map.empty,
               m_mods_by_id = index_by_id 0 ms Map.empty, m_net_connectors = Map.empty\<rparr>)"

definition get_mod :: "Mods \<Rightarrow> string \<Rightarrow> nat option" where
  "get_mod s path = m_mods_lookup s path"

definition get_mod_by_id :: "Mods \<Rightarrow> string \<Rightarrow> nat option" where
  "get_mod_by_id s i = m_mods_by_id s i"

definition add_net_connector :: "Mods \<Rightarrow> string \<Rightarrow> nat \<Rightarrow> Mods \<times> bool" where
  "add_net_connector s token c =
     (if m_net_connectors s token \<noteq> None then (s, False)
      else (s\<lparr>m_net_connectors := (m_net_connectors s)(token \<mapsto> c)\<rparr>, True))"

definition has_net_connector :: "Mods \<Rightarrow> string \<Rightarrow> bool" where
  "has_net_connector s token \<longleftrightarrow> m_net_connectors s token \<noteq> None"

definition remove_net_connector :: "Mods \<Rightarrow> string \<Rightarrow> Mods" where
  "remove_net_connector s token = s\<lparr>m_net_connectors := (m_net_connectors s)(token := None)\<rparr>"

interpretation net_token_table: token_table has_net_connector m_net_connectors
    "\<lambda>s t c. s\<lparr>m_net_connectors := (m_net_connectors s)(t \<mapsto> c)\<rparr>"
  by unfold_locales (simp_all add: has_net_connector_def)

section \<open>Lemmas\<close>

lemma split_names_head:
  assumes "w \<noteq> []" and "\<forall>c \<in> set w. \<not> list_separator c" and "rest = [] \<or> list_separator (hd rest)"
  shows "split_names (w @ rest) = w # split_names rest"
proof -
  have "dropWhile list_separator (w @ rest) = w @ rest" using assms(1,2) by (cases w) auto
  moreover have "takeWhile (\<lambda>c. \<not> list_separator c) (w @ rest) = w"
    "dropWhile (\<lambda>c. \<not> list_separator c) (w @ rest) = rest"
    using assms(2,3) by (cases rest; auto)+
  ultimately show ?thesis using assms(1) by (subst split_names.simps) (simp add: Let_def)
qed

lemma split_names_separator: "list_separator c \<Longrightarrow> split_names (c # rest) = split_names rest"
  by (subst split_names.simps, subst (2) split_names.simps) (simp add: Let_def)

lemma split_names_join:
  "\<forall>w \<in> set ws. w \<noteq> [] \<and> (\<forall>c \<in> set w. \<not> list_separator c) \<Longrightarrow> split_names (join '','' ws) = ws"
proof (induction ws)
  case Nil
  then show ?case by (simp add: split_names.simps)
next
  case (Cons w ws)
  show ?case
  proof (cases ws)
    case Nil
    have "split_names [] = []" by (simp add: split_names.simps)
    with Cons.prems Nil split_names_head [of w "[]"] show ?thesis by simp
  next
    case (Cons w2 ws2)
    have sep: "list_separator (CHR '','')" by (simp add: list_separator_def)
    have "split_names (join '','' (w # ws)) = split_names (w @ CHR '','' # join '','' ws)"
      using Cons by simp
    also have "\<dots> = w # split_names (CHR '','' # join '','' ws)"
      using Cons.prems sep by (intro split_names_head) auto
    also have "\<dots> = w # ws" using Cons.IH Cons.prems split_names_separator [OF sep] by simp
    finally show ?thesis .
  qed
qed

lemma index_by_path_iff:
  "index_by_path i ms tab p = Some j \<longleftrightarrow>
   tab p = Some j \<or>
   (tab p = None \<and> (\<exists>k < length ms. j = i + k \<and> mod_path (ms ! k) = p \<and> (\<forall>l < k. mod_path (ms ! l) \<noteq> p)))"
proof (induction ms arbitrary: i tab)
  case (Cons m ms)
  let ?t = "map_emplace tab (mod_path m) i"
  show ?case
  proof (cases "mod_path m = p")
    case True
    have here: "(\<exists>k < length (m # ms). j = i + k \<and> mod_path ((m # ms) ! k) = p \<and>
        (\<forall>l < k. mod_path ((m # ms) ! l) \<noteq> p)) \<longleftrightarrow> j = i" (is "?L \<longleftrightarrow> _")
    proof
      assume ?L
      then obtain k where k: "j = i + k" "\<forall>l < k. mod_path ((m # ms) ! l) \<noteq> p" by blast
      have "k = 0" using k(2) True by (cases k) auto
      with k show "j = i" by simp
    next
      assume "j = i"
      with True show ?L by (intro exI [of _ 0]) auto
    qed
    have tp: "?t p = (case tab p of None \<Rightarrow> Some i | Some v \<Rightarrow> Some v)"
      using True by (simp add: map_emplace_apply)
    show ?thesis
      unfolding here index_by_path.simps Cons.IH [of "Suc i" ?t] tp by (auto split: option.splits)
  next
    case False
    have shift: "(\<exists>k < length (m # ms). j = i + k \<and> mod_path ((m # ms) ! k) = p \<and> (\<forall>l < k. mod_path ((m # ms) ! l) \<noteq> p)) \<longleftrightarrow>
        (\<exists>k < length ms. j = Suc i + k \<and> mod_path (ms ! k) = p \<and> (\<forall>l < k. mod_path (ms ! l) \<noteq> p))"
      (is "?L \<longleftrightarrow> ?R")
    proof
      assume ?L
      then obtain k where k: "k < Suc (length ms)" "j = i + k" "mod_path ((m # ms) ! k) = p"
        "\<forall>l < k. mod_path ((m # ms) ! l) \<noteq> p" by auto
      then obtain k' where k': "k = Suc k'" using False by (cases k) auto
      have "\<forall>l < k'. mod_path (ms ! l) \<noteq> p" using k(4) k' by auto
      with k k' show ?R by auto
    next
      assume ?R
      then obtain k where k: "k < length ms" "j = Suc i + k" "mod_path (ms ! k) = p" "\<forall>l < k. mod_path (ms ! l) \<noteq> p"
        by auto
      have "\<forall>l < Suc k. mod_path ((m # ms) ! l) \<noteq> p" using k(4) False by (auto simp: less_Suc_eq_0_disj)
      with k show ?L by (intro exI [of _ "Suc k"]) auto
    qed
    have "?t p = tab p" using False by (simp add: map_emplace_apply)
    with Cons.IH [of "Suc i" ?t] shift show ?thesis by simp
  qed
qed auto

lemma index_by_id_iff:
  "index_by_id i ms tab x = Some j \<Longrightarrow>
   (\<exists>k < length ms. j = i + k \<and> mod_id (ms ! k) = x) \<or> tab x = Some j"
proof (induction ms arbitrary: i tab)
  case (Cons m ms)
  define t where "t = tab(mod_id m \<mapsto> i)"
  from Cons.prems have "index_by_id (Suc i) ms t x = Some j" by (simp add: t_def)
  from Cons.IH [OF this]
  consider k where "k < length ms" "j = Suc i + k" "mod_id (ms ! k) = x" | "t x = Some j" by blast
  then show ?case
  proof cases
    case 1
    then show ?thesis by (intro disjI1 exI [of _ "Suc k"]) auto
  next
    case 2
    then show ?thesis by (auto simp: t_def split: if_splits)
  qed
qed auto

lemma index_by_id_total:
  "tab x \<noteq> None \<or> (\<exists>m \<in> set ms. mod_id m = x) \<Longrightarrow> index_by_id i ms tab x \<noteq> None"
proof (induction ms arbitrary: i tab)
  case (Cons m ms)
  define t where "t = tab(mod_id m \<mapsto> i)"
  from Cons.prems have "t x \<noteq> None \<or> (\<exists>m \<in> set ms. mod_id m = x)" by (auto simp: t_def)
  then have "index_by_id (Suc i) ms t x \<noteq> None" by (rule Cons.IH)
  then show ?case unfolding index_by_id.simps t_def .
qed auto

lemma jget_JNull [simp]: "jget JNull key = None"
  by (simp add: jget_def)

lemma load_error_simps [simp]:
  "m_enabled (load_error m x) = m_enabled m" "mod_ipc (load_error m x) = mod_ipc m"
  "mod_dir_name (load_error m x) = mod_dir_name m"
  by (simp_all add: load_error_def)

lemma load_string_JNull: "load_string JNull key missing wrong put m = (if missing = [] then m else load_error m missing)"
  by (simp add: load_string_def)

lemma load_version_JNull: "load_version JNull m = Inr m"
  by (simp add: load_version_def)

lemma load_JNull_simps [simp]:
  "m_enabled (load_enabled JNull m) = False" "mod_ipc (load_enabled JNull m) = mod_ipc m"
  "mod_ipc (load_connector data JNull m) = mod_ipc m"
  "m_enabled (load_icon JNull m) = m_enabled m" "mod_ipc (load_icon JNull m) = mod_ipc m"
  "m_enabled (load_access JNull m) = m_enabled m" "mod_ipc (load_access JNull m) = mod_ipc m"
  "m_enabled (load_data_dir data JNull m) = m_enabled m" "mod_ipc (load_data_dir data JNull m) = mod_ipc m"
  by (simp_all add: load_enabled_def load_connector_def load_icon_def load_access_def load_data_dir_def)

lemma new_mod_simps [simp]:
  "mod_id (new_mod d) = []" "mod_path (new_mod d) = []" "mod_dir_name (new_mod d) = d"
  "mod_ipc (new_mod d) = None" "mod_path ((new_mod d)\<lparr>mod_id := x\<rparr>) = []"
  "mod_id ((new_mod d)\<lparr>mod_id := x\<rparr>) = x"
  by (simp_all add: new_mod_def)

text \<open>A directory without \<open>module.json\<close> loads as a disabled mod without a connector.\<close>

lemma load_mod_missing:
  assumes "files (data @ ''/mods/'' @ d @ ''/module.json'') = FileMissing"
  shows "\<exists>m. load_mod data files (new_mod d) = Inr m \<and> \<not> m_enabled m \<and> mod_ipc m = None"
proof -
  have pf: "parse_file data files m = (load_error m ''missing module.json'', JNull)"
    if "mod_dir_name m = d" for m
    using assms that by (simp add: parse_file_def mod_dir_def)
  let ?m2 = "(new_mod d)\<lparr>mod_id := d, mod_path := d, m_error := []\<rparr>"
  let ?m3 = "load_error ?m2 ''missing module.json''"
  have pf2: "parse_file data files ?m2 = (?m3, JNull)" by (rule pf) simp
  have "load_mod data files (new_mod d) =
    (let m9 = load_data_dir data JNull (load_access JNull (load_icon JNull (load_enabled JNull
        (load_connector data JNull (load_error (load_error ?m3 ''module.json: missing key: name'')
          ''module.json: missing key: description'')))))
     in Inr (if m_error m9 = [] then m9\<lparr>m_loaded := True\<rparr> else m9))"
    unfolding load_mod_def Let_def
    by (simp only: new_mod_simps if_True pf2 prod.case load_string_JNull load_version_JNull
        bind_result_simps if_False list.distinct simp_thms refl)
  then show ?thesis by (auto simp: Let_def)
qed

text \<open>A directory whose mod is disabled and has no connector stops the loop.\<close>

lemma load_mods_no_connector:
  assumes "d \<in> set ds" and "load_mod data files (new_mod d) = Inr m" and "\<not> m_enabled m" and "mod_ipc m = None"
  shows "\<exists>e. load_mods data files ds = Inl e"
  using assms(1)
proof (induction ds)
  case (Cons x xs)
  show ?case
  proof (cases "x = d")
    case True
    with assms(2-4) show ?thesis by (simp add: has_ipc_def)
  next
    case False
    with Cons obtain e where "load_mods data files xs = Inl e" by auto
    then show ?thesis
      by (cases "load_mod data files (new_mod x)") (auto simp: has_ipc_def)
  qed
qed simp

lemma load_mods_missing:
  assumes "files (data @ ''/mods/'' @ d @ ''/module.json'') = FileMissing" and "d \<in> set ds"
  shows "\<exists>e. load_mods data files ds = Inl e"
  using load_mod_missing [of files data d] load_mods_no_connector [OF assms(2)] assms(1) by blast

lemma load_mods_good:
  "load_mods data files ds = Inr ms \<Longrightarrow> m \<in> set ms \<Longrightarrow> m_enabled m \<and> m_loaded m"
proof (induction ds arbitrary: ms)
  case (Cons d ds)
  then show ?case by (auto simp: bind_result_Inr_iff split: if_splits)
qed simp

lemma strtol10_dot: "strtol10 (CHR ''.'' # s) = (0, False)"
  by (simp add: strtol10_def is_space_def is_digit_def Let_def)

section \<open>Properties\<close>

text \<open>
  A list of users in the \<open>access\<close> field admits exactly them: for names without blanks and
  commas, joined by commas, the checker accepts a local user iff the name is in the list, refuses
  every remote user, also one whose name is in the list, and throws for a null user.
\<close>

theorem access_list_exact:
  assumes "ws \<noteq> []" and "\<forall>w \<in> set ws. w \<noteq> [] \<and> (\<forall>c \<in> set w. \<not> list_separator c)"
    and "join '','' ws \<notin> {''public'', ''disabled'', ''federated'', ''local''}"
  shows "can_access (parse_access_checker (join '','' ws)) (Some u) None = Inr (u \<in> set ws) \<and>
    can_access (parse_access_checker (join '','' ws)) (Some u) (Some d) = Inr False \<and>
    can_access (parse_access_checker (join '','' ws)) None None = Inl LogicError"
proof -
  have "join '','' ws \<noteq> []"
    using assms(1,2) by (cases ws; cases "tl ws") auto
  then have "parse_access_checker (join '','' ws) = AccessList ws"
    using assms(3) split_names_join [OF assms(2)] by (simp add: parse_access_checker_def)
  then show ?thesis by (simp add: can_access_def)
qed

theorem access_list_exact_witness:
  "can_access (parse_access_checker ''ann,bob'') (Some ''bob'') None = Inr True \<and>
   can_access (parse_access_checker ''ann,bob'') (Some ''eve'') None = Inr False"
proof -
  have w: "\<forall>w \<in> set [''ann'', ''bob'']. w \<noteq> [] \<and> (\<forall>c \<in> set w. \<not> list_separator c)"
    by (simp add: list_separator_def)
  show ?thesis
    using access_list_exact [OF _ w, of "''bob''" d] access_list_exact [OF _ w, of "''eve''" d] by simp
qed

text \<open>
  Loading the mods: a directory without \<open>module.json\<close> makes the server dereference a null
  connector, since the mod counts as disabled and its destructor stops it. If loading succeeds,
  every mod in the list is enabled and loaded, the list is sorted by id, the lookup by id finds a
  mod of that id for each of them, and the lookup by path finds the first mod with that path.
\<close>

theorem find_modules_lookups:
  "(d \<in> set dirs \<and> files (data @ ''/mods/'' @ d @ ''/module.json'') = FileMissing \<longrightarrow>
     (\<forall>s. find_modules data files dirs \<noteq> Inr s)) \<and>
   (find_modules data files dirs = Inr s \<longrightarrow>
     sorted (map mod_id (m_mods s)) \<and> (\<forall>m \<in> set (m_mods s). m_enabled m \<and> m_loaded m) \<and>
     (\<forall>i < length (m_mods s). \<exists>j < length (m_mods s). get_mod_by_id s (mod_id (m_mods s ! i)) = Some j \<and>
        mod_id (m_mods s ! j) = mod_id (m_mods s ! i)) \<and>
     (\<forall>p j. get_mod s p = Some j \<longleftrightarrow> j < length (m_mods s) \<and> mod_path (m_mods s ! j) = p \<and>
        (\<forall>k < j. mod_path (m_mods s ! k) \<noteq> p)))"
proof (intro conjI impI)
  assume "d \<in> set dirs \<and> files (data @ ''/mods/'' @ d @ ''/module.json'') = FileMissing"
  then obtain e where "load_mods data files dirs = Inl e"
    using load_mods_missing [of files data d dirs] by blast
  then show "\<forall>s. find_modules data files dirs \<noteq> Inr s" by (simp add: find_modules_def)
next
  assume "find_modules data files dirs = Inr s"
  then obtain found where found: "load_mods data files dirs = Inr found"
    and s: "m_mods s = sort_key mod_id found" "m_mods_lookup s = index_by_path 0 (m_mods s) Map.empty"
      "m_mods_by_id s = index_by_id 0 (m_mods s) Map.empty"
    by (auto simp: find_modules_def bind_result_Inr_iff Let_def)
  show "sorted (map mod_id (m_mods s))" by (simp add: s(1))
  show "\<forall>m \<in> set (m_mods s). m_enabled m \<and> m_loaded m"
    using load_mods_good [OF found] by (simp add: s(1))
  show "\<forall>i < length (m_mods s). \<exists>j < length (m_mods s). get_mod_by_id s (mod_id (m_mods s ! i)) = Some j \<and>
        mod_id (m_mods s ! j) = mod_id (m_mods s ! i)"
  proof (intro allI impI)
    fix i assume i: "i < length (m_mods s)"
    let ?x = "mod_id (m_mods s ! i)"
    have "\<exists>m \<in> set (m_mods s). mod_id m = ?x" using nth_mem [OF i] by blast
    then have "index_by_id 0 (m_mods s) Map.empty ?x \<noteq> None" by (intro index_by_id_total) blast
    then obtain j where j: "index_by_id 0 (m_mods s) Map.empty ?x = Some j" by blast
    from index_by_id_iff [OF j] have "j < length (m_mods s) \<and> mod_id (m_mods s ! j) = ?x" by auto
    with j show "\<exists>j < length (m_mods s). get_mod_by_id s ?x = Some j \<and> mod_id (m_mods s ! j) = ?x"
      by (auto simp: get_mod_by_id_def s(3))
  qed
  show "\<forall>p j. get_mod s p = Some j \<longleftrightarrow> j < length (m_mods s) \<and> mod_path (m_mods s ! j) = p \<and>
        (\<forall>k < j. mod_path (m_mods s ! k) \<noteq> p)"
    unfolding get_mod_def s(2) index_by_path_iff by auto
qed

definition demo_conf :: json where
  "demo_conf = JObject [(''name'', JString ''Git''), (''description'', JString ''x''),
     (''connector'', JString ''shared_object''), (''enabled'', JBool True)]"

definition demo_files :: "string \<Rightarrow> module_file" where
  "demo_files p = (if p = ''/d/mods/git/module.json'' then FileParsed demo_conf else FileMissing)"

lemma demo_load_mod:
  "\<exists>m. load_mod ''/d'' demo_files (new_mod ''git'') = Inr m \<and> m_enabled m \<and> m_loaded m \<and> mod_path m = ''git'' \<and>
     mod_ipc m = Some (DllConnector ''/d/mods/git/module.so'') \<and> mod_dir_name m = ''git'' \<and>
     mod_version m = version_of 0 0 \<and> status m = MOD_ENABLED"
proof -
  have jg: "jget demo_conf ''id'' = None" "jget demo_conf ''path'' = None" "jget demo_conf ''version'' = None"
    "jget demo_conf ''name'' = Some (JString ''Git'')" "jget demo_conf ''description'' = Some (JString ''x'')"
    "jget demo_conf ''connector_uri'' = None" "jget demo_conf ''connector'' = Some (JString ''shared_object'')"
    "jget demo_conf ''enabled'' = Some (JBool True)" "jget demo_conf ''icon'' = None"
    "jget demo_conf ''access'' = None" "jget demo_conf ''data_dir'' = None"
    by (simp_all add: jget_def demo_conf_def)
  let ?m2 = "(new_mod ''git'')\<lparr>mod_id := ''git'', mod_path := ''git'', m_error := []\<rparr>"
  let ?m3 = "?m2\<lparr>mod_config := ''/d/mods/git/module.json''\<rparr>"
  have pf: "parse_file ''/d'' demo_files ?m2 = (?m3, demo_conf)"
    by (simp add: parse_file_def demo_files_def mod_dir_def demo_conf_def Let_def)
  have con: "load_connector ''/d'' demo_conf m = m\<lparr>mod_ipc := Some (DllConnector (mod_dir ''/d'' m @ ''/module.so''))\<rparr>" for m
    by (simp add: load_connector_def jg Let_def)
  have "load_mod ''/d'' demo_files (new_mod ''git'') =
    (let m9 = load_data_dir ''/d'' demo_conf (load_access demo_conf (load_icon demo_conf (load_enabled demo_conf
        (load_connector ''/d'' demo_conf (?m3\<lparr>mod_name := ''Git'', mod_description := ''x''\<rparr>)))))
     in Inr (if m_error m9 = [] then m9\<lparr>m_loaded := True\<rparr> else m9))"
    unfolding load_mod_def Let_def
    by (simp only: new_mod_simps if_True pf prod.case load_string_def load_version_def jg option.case json.case
        bind_result_simps refl)
  then show ?thesis
    by (simp add: Let_def con load_data_dir_def load_access_def load_icon_def load_enabled_def jg status_def mod_dir_def
        new_mod_def)
qed

theorem find_modules_lookups_witness:
  "\<exists>s. find_modules ''/d'' demo_files [''git''] = Inr s \<and> get_mod s ''git'' = Some 0 \<and>
     (\<forall>s'. find_modules ''/d'' demo_files [''git'', ''tmp''] \<noteq> Inr s')"
proof -
  from demo_load_mod obtain m where "load_mod ''/d'' demo_files (new_mod ''git'') = Inr m" "m_enabled m"
    "m_loaded m" "mod_path m = ''git''" by blast
  then obtain s where s: "find_modules ''/d'' demo_files [''git''] = Inr s"
    and m: "length (m_mods s) = 1" "mod_path (m_mods s ! 0) = ''git''"
    by (simp add: find_modules_def)
  have "get_mod s ''git'' = Some 0"
    using find_modules_lookups [of "''git''" "[''git'']" demo_files "''/d''" s] s m by simp
  moreover have "demo_files (''/d'' @ ''/mods/'' @ ''tmp'' @ ''/module.json'') = FileMissing"
    by (simp add: demo_files_def)
  then have "\<forall>s'. find_modules ''/d'' demo_files [''git'', ''tmp''] \<noteq> Inr s'"
    using find_modules_lookups [of "''tmp''" "[''git'', ''tmp'']" demo_files "''/d''" s] by simp
  ultimately show ?thesis using s by blast
qed

text \<open>
  The minor version is always 0: it is read from the dot on, where no number starts. So a
  version string that is accepted comes back as its major number and \<open>.0\<close>, and versions that
  differ in the minor number only are neither smaller nor greater.
\<close>

theorem version_minor_lost:
  assumes "parse_version a = Inr v" and "parse_version b = Inr w"
  shows "v_minor v = 0 \<and> version_str v = show_int (v_major v) @ ''.0'' \<and>
    (v_major v = v_major w \<longrightarrow> v = w \<and> \<not> version_less v w)"
proof -
  have zero: "v_minor v' = 0 \<and> major_string v' = show_int (v_major v')" if p: "parse_version x = Inr v'" for x v'
  proof -
    from p obtain major pos where *: "stoi x = Inr (major, pos)"
      "(if pos \<ge> length x \<or> x ! pos \<noteq> CHR ''.'' then Inr (version_of major 0)
        else Inr (version_of major (fst (strtol10 (drop pos x))))) = (Inr v' :: Version result)"
      by (auto simp: parse_version_def bind_result_Inr_iff)
    show ?thesis
    proof (cases "pos \<ge> length x \<or> x ! pos \<noteq> CHR ''.''")
      case True
      with *(2) show ?thesis by (auto simp: version_of_def)
    next
      case False
      then have "drop pos x = CHR ''.'' # drop (Suc pos) x" by (metis Cons_nth_drop_Suc not_le)
      with *(2) False strtol10_dot show ?thesis by (auto simp: version_of_def)
    qed
  qed
  have s0: "show_int 0 = ''0''" by code_simp
  have eq: "v_major v = v_major w \<longrightarrow> v = w"
    using zero [OF assms(1)] zero [OF assms(2)] by (cases v; cases w) simp
  show ?thesis using eq zero [OF assms(1)] s0 by (auto simp: version_str_def version_less_def)
qed

theorem version_minor_lost_witness:
  "\<exists>v. parse_version ''1.7'' = Inr v \<and> version_str v = ''1.0''"
proof -
  obtain v where v: "parse_version ''1.7'' = Inr v" "v_major v = 1"
    by (simp add: parse_version_def stoi_def Let_def is_space_def is_digit_def digit_value_def version_of_def
        numeral_nat)
  have "show_int 1 = ''1''" by code_simp
  with version_minor_lost [OF v(1) v(1)] v show ?thesis by simp
qed

end
