(* ===== verification/ModLife.thy ===== *)
theory ModLife
  imports Mods "HOL-Library.AList"
begin

text \<open>
  The operations of \<open>protocol/mods/Mod.cpp\<close> and \<open>protocol/mods/Mods.cpp\<close> that run after the mods
  were loaded: what the portal shows of a mod, writing \<open>module.json\<close> back, enabling and renaming a
  mod, and starting and stopping all of them. The files are a function from paths to contents, the
  text that the JSON library makes of a document is the document, and what a connector's start or
  stop answers is a parameter.

  Shown: which fields of \<open>module.json\<close> survive that a mod is switched on or off; when starting and
  stopping the mods succeeds.
\<close>

section \<open>Descriptions\<close>

definition status_number :: "Status \<Rightarrow> rat" where
  "status_number st = (case st of INVALID \<Rightarrow> 0 | MOD_DISABLED \<Rightarrow> 1 | MOD_ENABLED \<Rightarrow> 2 | RUNNING \<Rightarrow> 3 | FAILED \<Rightarrow> 4)"

definition user_json :: "Mod \<Rightarrow> json" where
  "user_json m = JObject
     [(''id'', JString (mod_id m)), (''path'', JString (mod_path m)),
      (''version'', JString (version_str (mod_version m))), (''name'', JString (mod_name m)),
      (''description'', JString (mod_description m)),
      (''icon'', JString (if mod_icon m = [] then ''/portal/app.svg''
                          else ''/mods/'' @ mod_id m @ ''/'' @ mod_icon m)),
      (''status'', JNumber (status_number (status m))), (''loaded'', JBool (m_loaded m)),
      (''enabled'', JBool (m_enabled m)), (''running'', JBool (m_running m)),
      (''error'', JString (m_error m))]"

definition get_mods_json :: "(json \<Rightarrow> string) \<Rightarrow> Mods \<Rightarrow> string" where
  "get_mods_json dump s =
     (let ret = ''['' @ concat (map (\<lambda>m. dump (user_json m) @ '','') (m_mods s))
      in if last ret = CHR '','' then butlast ret @ '']'' else ret @ '']'')"

section \<open>Writing module.json\<close>

text \<open>Assignment to a key: of an object, or of null, which becomes an object.\<close>

definition jput :: "json \<Rightarrow> string \<times> json \<Rightarrow> json" where
  "jput j kv = (case j of JObject kvs \<Rightarrow> JObject (AList.update (fst kv) (snd kv) kvs) | _ \<Rightarrow> JObject [kv])"

text \<open>\<open>Mod::json\<close> reads the file again and dereferences the connector.\<close>

definition mod_json :: "string \<Rightarrow> (string \<Rightarrow> module_file) \<Rightarrow> Mod \<Rightarrow> (Mod \<times> json) result" where
  "mod_json data files m =
     (let (m1, j) = parse_file data files m;
          j1 = foldl jput j
            [(''id'', JString (mod_id m1)), (''path'', JString (mod_path m1)),
             (''version'', JString (version_str (mod_version m1))), (''name'', JString (mod_name m1)),
             (''description'', JString (mod_description m1)), (''icon'', JString (mod_icon m1)),
             (''enabled'', JBool (m_enabled m1))]
      in case mod_ipc m1 of
           None \<Rightarrow> Inl UndefinedBehaviour
         | Some c \<Rightarrow> Inr (m1, jput j1 (''connector_uri'', JString (connector_uri c))))"

text \<open>
  Opening the output stream empties the file before \<open>json\<close> reads it; \<open>empty_error\<close> is what the
  parser says about an empty file.
\<close>

definition save :: "string \<Rightarrow> string \<Rightarrow> (string \<Rightarrow> module_file) \<Rightarrow> Mod \<Rightarrow> ((string \<Rightarrow> module_file) \<times> Mod) result" where
  "save data empty_error files m =
     (let file = mod_dir data m @ ''/module.json'';
          files1 = files(file := FileInvalid empty_error)
      in bind_result (mod_json data files1 m) (\<lambda>(m1, j). Inr (files1(file := FileParsed j), m1)))"

definition set_enabled ::
  "string \<Rightarrow> string \<Rightarrow> (string \<Rightarrow> module_file) \<Rightarrow> Mod \<Rightarrow> bool \<Rightarrow> ((string \<Rightarrow> module_file) \<times> Mod) result" where
  "set_enabled data empty_error files m enabled =
     (if m_enabled m = enabled then Inr (files, m)
      else save data empty_error files (m\<lparr>m_enabled := enabled\<rparr>))"

text \<open>\<open>set_path\<close> calls \<open>stop\<close>, which locks the mutex that \<open>set_path\<close> holds.\<close>

definition set_path ::
  "string \<Rightarrow> string \<Rightarrow> (string \<Rightarrow> module_file) \<Rightarrow> Mod \<Rightarrow> string \<Rightarrow> ((string \<Rightarrow> module_file) \<times> Mod) result" where
  "set_path data empty_error files m new_path =
     bind_result (save data empty_error files (m\<lparr>mod_path := new_path\<rparr>)) (\<lambda>_. Inl UndefinedBehaviour)"

section \<open>Start and stop\<close>

definition mod_start :: "(connector \<Rightarrow> Mod \<Rightarrow> (Mod \<times> bool) result) \<Rightarrow> Mod \<Rightarrow> (Mod \<times> bool) result" where
  "mod_start ipc_start m =
     (case mod_ipc m of
        None \<Rightarrow> Inl UndefinedBehaviour
      | Some c \<Rightarrow> bind_result (ipc_start c m) (\<lambda>(m1, ok). Inr (m1\<lparr>m_running := ok\<rparr>, ok)))"

definition mod_stop :: "(connector \<Rightarrow> bool result) \<Rightarrow> Mod \<Rightarrow> (Mod \<times> bool) result" where
  "mod_stop ipc_stop m =
     (case mod_ipc m of
        None \<Rightarrow> Inl UndefinedBehaviour
      | Some c \<Rightarrow> bind_result (ipc_stop c) (\<lambda>ok. Inr (m\<lparr>m_running := False\<rparr>, ok)))"

fun start_all :: "(connector \<Rightarrow> Mod \<Rightarrow> (Mod \<times> bool) result) \<Rightarrow> Mod list \<Rightarrow> (Mod list \<times> bool) result" where
  "start_all ipc_start [] = Inr ([], True)"
| "start_all ipc_start (m # ms) =
     bind_result (mod_start ipc_start m) (\<lambda>(m1, ok).
       bind_result (start_all ipc_start ms) (\<lambda>(ms1, ret). Inr (m1 # ms1, ok \<and> ret)))"

fun stop_all :: "(connector \<Rightarrow> bool result) \<Rightarrow> Mod list \<Rightarrow> (Mod list \<times> bool) result" where
  "stop_all ipc_stop [] = Inr ([], True)"
| "stop_all ipc_stop (m # ms) =
     bind_result (if status m = RUNNING then mod_stop ipc_stop m else Inr (m, True)) (\<lambda>(m1, ok).
       bind_result (stop_all ipc_stop ms) (\<lambda>(ms1, ret). Inr (m1 # ms1, ok \<and> ret)))"

section \<open>Lemmas\<close>

text \<open>What \<open>save\<close> leaves in the file: only the keys that \<open>json\<close> writes.\<close>

definition saved_conf :: "Mod \<Rightarrow> connector \<Rightarrow> json" where
  "saved_conf m c = JObject
     [(''id'', JString (mod_id m)), (''path'', JString (mod_path m)),
      (''version'', JString (version_str (mod_version m))), (''name'', JString (mod_name m)),
      (''description'', JString (mod_description m)), (''icon'', JString (mod_icon m)),
      (''enabled'', JBool (m_enabled m)), (''connector_uri'', JString (connector_uri c))]"

lemma saved_conf_get:
  "jget (saved_conf m c) ''id'' = Some (JString (mod_id m))"
  "jget (saved_conf m c) ''path'' = Some (JString (mod_path m))"
  "jget (saved_conf m c) ''version'' = Some (JString (version_str (mod_version m)))"
  "jget (saved_conf m c) ''name'' = Some (JString (mod_name m))"
  "jget (saved_conf m c) ''description'' = Some (JString (mod_description m))"
  "jget (saved_conf m c) ''icon'' = Some (JString (mod_icon m))"
  "jget (saved_conf m c) ''enabled'' = Some (JBool (m_enabled m))"
  "jget (saved_conf m c) ''connector_uri'' = Some (JString (connector_uri c))"
  "jget (saved_conf m c) ''connector'' = None" "jget (saved_conf m c) ''access'' = None"
  "jget (saved_conf m c) ''data_dir'' = None"
  by (simp_all add: saved_conf_def jget_def)

lemma save_file:
  assumes "mod_ipc m = Some c"
  shows "\<exists>m'. save data empty_error files m =
      Inr (files(mod_dir data m @ ''/module.json'' := FileParsed (saved_conf m c)), m') \<and> \<not> m_loaded m' \<and> m_error m' \<noteq> []"
proof -
  let ?p = "mod_dir data m @ ''/module.json''"
  let ?m1 = "load_error (m\<lparr>mod_config := ?p\<rparr>) (mod_dir data m @ ''/module.json: invalid JSON: '' @ empty_error)"
  have "parse_file data (files(?p := FileInvalid empty_error)) m = (?m1, JNull)"
    by (simp add: parse_file_def Let_def)
  then have "mod_json data (files(?p := FileInvalid empty_error)) m = Inr (?m1, saved_conf m c)"
    using assms by (simp add: mod_json_def jput_def saved_conf_def load_error_def)
  then show ?thesis by (simp add: save_def Let_def load_error_def)
qed

text \<open>Loading that file again: the connector and the access restriction are not in it.\<close>

lemma load_saved_conf:
  assumes fl: "files (data @ ''/mods/'' @ d @ ''/module.json'') = FileParsed (saved_conf m c)"
    and ver: "parse_version (version_str (mod_version m)) = Inr v"
  shows "\<exists>n. load_mod data files (new_mod d) = Inr n \<and> mod_ipc n = None \<and> \<not> m_loaded n \<and>
    m_enabled n = m_enabled m \<and> mod_id n = mod_id m \<and> mod_path n = mod_path m \<and> mod_name n = mod_name m \<and>
    mod_access n = AccessPublic"
proof -
  let ?c = "saved_conf m c"
  let ?m2 = "(new_mod d)\<lparr>mod_id := d, mod_path := d, m_error := []\<rparr>"
  let ?m3 = "?m2\<lparr>mod_config := data @ ''/mods/'' @ d @ ''/module.json''\<rparr>"
  let ?m8 = "?m3\<lparr>mod_id := mod_id m, mod_path := mod_path m, mod_name := mod_name m, mod_version := v,
    mod_description := mod_description m\<rparr>"
  have pf: "parse_file data files ?m2 = (?m3, ?c)"
    using fl by (simp add: parse_file_def mod_dir_def Let_def saved_conf_def)
  have con: "load_connector data ?c k = load_error k ''module.json: missing key: connector''" for k
    by (simp add: load_connector_def saved_conf_get)
  have "load_mod data files (new_mod d) =
    (let m9 = load_data_dir data ?c (load_access ?c (load_icon ?c (load_enabled ?c (load_connector data ?c ?m8))))
     in Inr (if m_error m9 = [] then m9\<lparr>m_loaded := True\<rparr> else m9))"
    unfolding load_mod_def Let_def
    by (simp only: new_mod_simps if_True pf prod.case load_string_def load_version_def saved_conf_get option.case
        json.case bind_result_simps ver refl)
  then show ?thesis
    by (simp add: Let_def con load_data_dir_def load_access_def load_icon_def load_enabled_def saved_conf_get
        load_error_def new_mod_def parse_access_checker_def)
qed

lemma start_all_missing:
  "m \<in> set ms \<Longrightarrow> mod_ipc m = None \<Longrightarrow> \<exists>e. start_all st ms = Inl e"
proof (induction ms)
  case (Cons x xs)
  show ?case
  proof (cases "mod_start st x")
    case (Inr r)
    then have "x \<noteq> m" using Cons.prems by (auto simp: mod_start_def)
    with Cons obtain e where "start_all st xs = Inl e" by auto
    with Inr show ?thesis by (cases r) simp
  qed simp
qed simp

lemma start_all_running:
  "start_all st ms = Inr (ms', ret) \<Longrightarrow> length ms' = length ms \<and> (ret \<longleftrightarrow> (\<forall>m \<in> set ms'. m_running m))"
proof (induction ms arbitrary: ms' ret)
  case (Cons x xs)
  then obtain x1 ok xs1 r where step: "mod_start st x = Inr (x1, ok)" "start_all st xs = Inr (xs1, r)"
    "ms' = x1 # xs1" "ret = (ok \<and> r)"
    by (auto simp: bind_result_Inr_iff)
  have "m_running x1 = ok"
    using step(1) by (auto simp: mod_start_def bind_result_Inr_iff split: option.splits)
  with Cons.IH [OF step(2)] step show ?case by auto
qed simp

lemma stop_all_stopped:
  "stop_all sp ms = Inr (ms', ret) \<Longrightarrow> length ms' = length ms \<and> (\<forall>m \<in> set ms'. status m \<noteq> RUNNING)"
proof (induction ms arbitrary: ms' ret)
  case (Cons x xs)
  then obtain x1 ok xs1 r where
    step: "(if status x = RUNNING then mod_stop sp x else Inr (x, True)) = Inr (x1, ok)"
      "stop_all sp xs = Inr (xs1, r)" "ms' = x1 # xs1"
    by (auto simp: bind_result_Inr_iff)
  have "status x1 \<noteq> RUNNING"
  proof (cases "status x = RUNNING")
    case True
    with step(1) have "\<not> m_running x1" by (auto simp: mod_stop_def bind_result_Inr_iff split: option.splits)
    then show ?thesis by (simp add: status_def)
  next
    case False
    with step(1) show ?thesis by simp
  qed
  with Cons.IH [OF step(2)] step(3) show ?case by simp
qed simp

section \<open>Properties\<close>

text \<open>
  Switching a mod on or off destroys its \<open>module.json\<close>: the file is emptied before it is read
  again, so only the keys that \<open>json\<close> writes are in it afterwards. The mod at hand becomes invalid,
  and the directory loads as a mod that is not loaded, has no connector and no access restriction;
  if the mod was switched off, the server cannot load its mods any more.
\<close>

theorem set_enabled_breaks_mod:
  assumes "mod_ipc m = Some c" and "m_enabled m \<noteq> b" and "mod_dir_name m = d"
    and "parse_version (version_str (mod_version m)) = Inr v"
  shows "\<exists>files' m'. set_enabled data empty_error files m b = Inr (files', m') \<and> status m' = INVALID \<and>
    (\<exists>n. load_mod data files' (new_mod d) = Inr n \<and> status n = INVALID \<and> m_enabled n = b \<and> mod_ipc n = None \<and>
       mod_id n = mod_id m \<and> mod_path n = mod_path m \<and> mod_access n = AccessPublic) \<and>
    (\<not> b \<longrightarrow> (\<forall>dirs s. d \<in> set dirs \<longrightarrow> find_modules data files' dirs \<noteq> Inr s))"
proof -
  let ?m = "m\<lparr>m_enabled := b\<rparr>"
  have ipc: "mod_ipc ?m = Some c" using assms(1) by simp
  from save_file [OF ipc, of data empty_error files] obtain m' where
    s: "save data empty_error files ?m = Inr (files(mod_dir data ?m @ ''/module.json'' := FileParsed (saved_conf ?m c)), m')"
    and inv: "\<not> m_loaded m'" by blast
  define files' where "files' = files(mod_dir data ?m @ ''/module.json'' := FileParsed (saved_conf ?m c))"
  have fl: "files' (data @ ''/mods/'' @ d @ ''/module.json'') = FileParsed (saved_conf ?m c)"
    using assms(3) by (simp add: files'_def mod_dir_def)
  have ver: "parse_version (version_str (mod_version ?m)) = Inr v" using assms(4) by simp
  from load_saved_conf [of files' data d ?m c v, OF fl ver] obtain n where
    n: "load_mod data files' (new_mod d) = Inr n" "mod_ipc n = None" "\<not> m_loaded n" "m_enabled n = b"
       "mod_id n = mod_id m" "mod_path n = mod_path m" "mod_access n = AccessPublic" by auto
  have "find_modules data files' dirs \<noteq> Inr s" if "\<not> b" "d \<in> set dirs" for dirs s
  proof -
    have "\<exists>e. load_mods data files' dirs = Inl e"
      using that(2) by (rule load_mods_no_connector) (use n that(1) in simp_all)
    then show ?thesis by (auto simp: find_modules_def)
  qed
  moreover have "set_enabled data empty_error files m b = Inr (files', m')"
    using s assms(2) by (simp add: set_enabled_def files'_def)
  moreover have "status m' = INVALID" "status n = INVALID" using inv n(3) by (simp_all add: status_def)
  ultimately show ?thesis using n by blast
qed

theorem set_enabled_breaks_mod_witness:
  "\<exists>m files'. load_mod ''/d'' demo_files (new_mod ''git'') = Inr m \<and> status m = MOD_ENABLED \<and>
     (\<exists>m'. set_enabled ''/d'' ''empty'' demo_files m False = Inr (files', m')) \<and>
     (\<forall>s. find_modules ''/d'' files' [''git''] \<noteq> Inr s)"
proof -
  from demo_load_mod obtain m where m: "load_mod ''/d'' demo_files (new_mod ''git'') = Inr m" "m_enabled m"
    "m_loaded m" "mod_ipc m = Some (DllConnector ''/d/mods/git/module.so'')" "mod_dir_name m = ''git''"
    "mod_version m = version_of 0 0" "status m = MOD_ENABLED" by blast
  have en: "m_enabled m \<noteq> False" using m(2) by simp
  have "show_int 0 = ''0''" by code_simp
  then have "version_str (mod_version m) = ''0.0''" by (simp add: m(6) version_str_def version_of_def)
  moreover have "\<exists>v. parse_version ''0.0'' = Inr v"
    by (simp add: parse_version_def stoi_def Let_def is_space_def is_digit_def digit_value_def version_of_def
        numeral_nat)
  ultimately obtain v where v: "parse_version (version_str (mod_version m)) = Inr v" by auto
  from set_enabled_breaks_mod [OF m(4) en m(5) v, of "''/d''" "''empty''" demo_files]
  obtain files' m' where "set_enabled ''/d'' ''empty'' demo_files m False = Inr (files', m')"
    "\<forall>dirs s. ''git'' \<in> set dirs \<longrightarrow> find_modules ''/d'' files' dirs \<noteq> Inr s" by blast
  then show ?thesis using m(1,7) by auto
qed

text \<open>
  Starting all mods crashes if one has no connector. Otherwise it answers true exactly if every
  mod is running afterwards; after stopping all mods none has the status \<open>RUNNING\<close>.
\<close>

theorem start_stop_all:
  "((\<exists>m \<in> set ms. mod_ipc m = None) \<longrightarrow> (\<exists>e. start_all st ms = Inl e)) \<and>
   (start_all st ms = Inr (ms1, ret) \<longrightarrow> length ms1 = length ms \<and> (ret \<longleftrightarrow> (\<forall>m \<in> set ms1. m_running m))) \<and>
   (stop_all sp ms1 = Inr (ms2, ret2) \<longrightarrow> length ms2 = length ms1 \<and> (\<forall>m \<in> set ms2. status m \<noteq> RUNNING))"
  using start_all_missing [of _ ms st] start_all_running [of st ms ms1 ret] stop_all_stopped [of sp ms1 ms2 ret2]
  by blast

theorem start_stop_all_witness:
  "(\<exists>e. start_all (\<lambda>c m. Inr (m, True)) [(new_mod ''git'')\<lparr>mod_ipc := Some (DllConnector ''a.so'')\<rparr>, new_mod ''tmp''] = Inl e) \<and>
   (\<exists>ms. start_all (\<lambda>c m. Inr (m, True)) [(new_mod ''git'')\<lparr>mod_ipc := Some (DllConnector ''a.so'')\<rparr>] = Inr (ms, True) \<and>
      (\<forall>m \<in> set ms. m_running m))"
proof -
  let ?m = "(new_mod ''git'')\<lparr>mod_ipc := Some (DllConnector ''a.so'')\<rparr>"
  let ?st = "\<lambda>c m. Inr (m, True) :: (Mod \<times> bool) result"
  have s: "start_all ?st [?m] = Inr ([?m\<lparr>m_running := True\<rparr>], True)" by (simp add: mod_start_def)
  have "\<exists>m \<in> set [?m, new_mod ''tmp'']. mod_ipc m = None" by simp
  with start_stop_all [of "[?m, new_mod ''tmp'']" ?st] obtain e where "start_all ?st [?m, new_mod ''tmp''] = Inl e"
    by blast
  moreover have "\<forall>m \<in> set [?m\<lparr>m_running := True\<rparr>]. m_running m"
    using start_stop_all [of "[?m]" ?st "[?m\<lparr>m_running := True\<rparr>]" True] s by blast
  ultimately show ?thesis using s by auto
qed

end
