(* ===== verification/ModConnectors.thy ===== *)
theory ModConnectors
  imports Mods Session
begin

text \<open>
  \<open>protocol/mods/ModConnectorDll.cpp\<close> and \<open>protocol/mods/ModConnectorNet.cpp\<close>: how a request, a
  response and the life-cycle calls travel between the server and a mod in a shared library or in
  another process. What the dynamic loader answers is a parameter, and so is what \<open>find_user\<close>
  found for the request (theory \<open>Session\<close>).

  Shown: who passes the access check; that a mod reads the header fields of the request; what
  stopping and starting a shared library does.
\<close>

section \<open>Shared libraries: life cycle\<close>

text \<open>\<open>m_host_info\<close> is deleted without being set to null.\<close>

datatype ptr = NullPtr | Live | Dangling

record dll_state =
  m_dl_handle :: bool
  m_mod_info :: bool
  m_host_info :: ptr

record dll_module =
  dl_opens :: bool
  dl_start :: "(string option \<times> string option) option option"
  dl_closes :: bool

definition dll_new :: dll_state where
  "dll_new = \<lparr>m_dl_handle = False, m_mod_info = False, m_host_info = NullPtr\<rparr>"

definition delete_ptr :: "ptr \<Rightarrow> unit result" where
  "delete_ptr p = (if p = Dangling then Inl UndefinedBehaviour else Inr ())"

definition dll_put_id :: "string option \<Rightarrow> Mod \<Rightarrow> Mod" where
  "dll_put_id i m = (case i of Some x \<Rightarrow> (if mod_id m = [] then m\<lparr>mod_id := x\<rparr> else m) | None \<Rightarrow> m)"

text \<open>
  \<open>start\<close>; \<open>dl_start\<close> is \<open>None\<close> without the symbol, \<open>Some None\<close> when it returns null, and
  otherwise the version and the id of the information it returns.
\<close>

definition dll_start :: "dll_module \<Rightarrow> dll_state \<Rightarrow> Mod \<Rightarrow> (dll_state \<times> Mod \<times> bool) result" where
  "dll_start lib s m =
     bind_result (delete_ptr (m_host_info s)) (\<lambda>_.
       let s1 = s\<lparr>m_host_info := Live\<rparr>
       in if \<not> dl_opens lib then Inr (s1\<lparr>m_dl_handle := False\<rparr>, m, False)
          else let s2 = s1\<lparr>m_dl_handle := True\<rparr>
               in case dl_start lib of
                    None \<Rightarrow> Inr (s2, m, False)
                  | Some None \<Rightarrow> Inr (s2\<lparr>m_mod_info := False\<rparr>, m, False)
                  | Some (Some (ver, i)) \<Rightarrow>
                      (let s3 = s2\<lparr>m_mod_info := True\<rparr>
                       in case ver of
                            None \<Rightarrow> Inr (s3, dll_put_id i m, True)
                          | Some v \<Rightarrow> bind_result (parse_version v) (\<lambda>v'.
                              Inr (s3, dll_put_id i (m\<lparr>mod_version := v'\<rparr>), True))))"

text \<open>The third component says whether the function found under the name \<open>start\<close> was called.\<close>

definition dll_stop :: "dll_module \<Rightarrow> dll_state \<Rightarrow> (dll_state \<times> bool \<times> bool) result" where
  "dll_stop lib s =
     (if \<not> m_dl_handle s then Inr (s, True, False)
      else let called = (dl_start lib \<noteq> None);
               s1 = (if dl_closes lib then s\<lparr>m_dl_handle := False\<rparr> else s)
           in bind_result (delete_ptr (m_host_info s1)) (\<lambda>_.
                Inr (s1\<lparr>m_host_info := (if m_host_info s1 = Live then Dangling else m_host_info s1)\<rparr>,
                     dl_closes lib, called)))"

section \<open>Shared libraries: requests\<close>

datatype mod_effect =
    Respond http_response
  | CallMod fiy_request
  | Dropped

definition name_value :: "string \<times> string \<Rightarrow> string" where
  "name_value f = fst f @ '': '' @ snd f"

text \<open>The loop starts at the first field again, after the first field was already written.\<close>

definition set_this_headers :: "fields \<Rightarrow> string option" where
  "set_this_headers fs =
     (case fs of
        [] \<Rightarrow> None
      | f # _ \<Rightarrow> Some (name_value f @ concat (map (\<lambda>g. [CR, NL] @ name_value g) fs)))"

definition dll_request :: "string option \<Rightarrow> string \<Rightarrow> http_request \<Rightarrow> fiy_request" where
  "dll_request domain user r =
     \<lparr>rq_domain = domain, rq_user = (if user = [] \<or> user = '' '' then None else Some user),
      rq_method = req_method r mod 256, rq_path = Some (req_target r),
      rq_headers = set_this_headers (req_fields r), rq_body = req_body r, rq_has_callback = True\<rparr>"

definition unauthorized_response :: "string \<Rightarrow> http_response" where
  "unauthorized_response uri =
     respond_with 401 (''<h1>401 - Unauthorized</h1><hr/><a href='' @ [CHR 0x27] @ uri @ ''/portal'' @ [CHR 0x27] @
       ''>Go to portal</a>'')"

definition dll_handle_request ::
  "string \<Rightarrow> Mod \<Rightarrow> dll_state \<Rightarrow> find_result \<Rightarrow> http_request \<Rightarrow> mod_effect result" where
  "dll_handle_request uri m s found r =
     (case found of
        ReauthSent \<Rightarrow> Inr Dropped
      | Identified domain user \<Rightarrow>
          bind_result (if mod_access m = NoChecker then Inr False
                       else can_access (mod_access m) (if user = [] then None else Some user) domain)
            (\<lambda>ok. if \<not> ok then Inr (Respond (unauthorized_response uri))
                  else if \<not> m_mod_info s then Inr (Respond (respond_with 500 ''Module not initialized''))
                  else Inr (CallMod (dll_request domain user r))))"

text \<open>
  The response callback. A file is sent from its offset, or from where its descriptor stands when
  the offset is 0; a seek that fails answers nothing.
\<close>

definition dll_respond :: "fiy_request \<Rightarrow> fiy_response option \<Rightarrow> mod_effect result" where
  "dll_respond req r0 =
     (case r0 of
        None \<Rightarrow> Inl UndefinedBehaviour
      | Some r \<Rightarrow>
          (let answer = (\<lambda>body. Respond \<lparr>res_status = rs_status r,
                 res_fields = response_set_headers [] (rs_headers r) (request_is_local req), res_body = body\<rparr>)
           in Inr (case rs_body r of
                BodyNone \<Rightarrow> answer []
              | BodyFile bytes pos offset \<Rightarrow>
                  (if offset < 0 then Dropped
                   else answer (drop (if offset \<noteq> 0 then nat offset else pos) bytes))
              | b \<Rightarrow> answer (body_to_string b))))"

text \<open>\<open>local_login\<close> and \<open>user_info\<close> of the host information.\<close>

definition local_login_impl ::
  "(string \<Rightarrow> string) \<Rightarrow> string \<Rightarrow> users_state \<Rightarrow> string \<Rightarrow> string \<Rightarrow> int" where
  "local_login_impl sha512 pw_salt us name password = auth_user_password sha512 pw_salt us name password"

definition user_info_impl :: "users_state \<Rightarrow> string \<Rightarrow> bool \<Rightarrow> users_state \<times> int \<times> (bool \<times> int) option" where
  "user_info_impl us name want =
     (case get_user us name of
        (us1, Inl e) \<Rightarrow> (us1, -1, None)
      | (us1, Inr None) \<Rightarrow> (us1, 1, None)
      | (us1, Inr (Some u)) \<Rightarrow> (us1, 0, if want then Some (is_admin u, joined_ts u) else None))"

text \<open>\<open>request\<close> of the host information: a null domain is turned into a \<open>std::string\<close>.\<close>

definition request_impl ::
  "(string \<Rightarrow> string \<Rightarrow> string) \<Rightarrow> int \<Rightarrow> string \<Rightarrow> (string \<Rightarrow> bool) \<Rightarrow> peers_state \<Rightarrow> string \<Rightarrow>
   fiy_request \<Rightarrow> peer_effect list result" where
  "request_impl hmac now host has_mod ps app_id req =
     (case rq_domain req of
        None \<Rightarrow> Inl LogicError
      | Some d \<Rightarrow> request_peer_domain hmac now host has_mod ps d app_id req)"

section \<open>Network connectors\<close>

definition net_start_payload :: "string \<Rightarrow> Mod \<Rightarrow> string \<Rightarrow> int \<Rightarrow> string" where
  "net_start_payload uri m token now =
     ''{\"bearer\":\"'' @ token @ ''\",\"id\":\"'' @ mod_id m @ ''\",\"base_uri\":\"'' @ uri @ ''/'' @ mod_path m @
     ''\",\"now\":'' @ show_int now @ ''}''"

text \<open>The token is entered for the mod with index \<open>k\<close>; \<open>uri\<close> is protocol and host.\<close>

definition net_start ::
  "(string \<Rightarrow> string result) \<Rightarrow> (nat \<Rightarrow> nat list) \<Rightarrow> nat \<Rightarrow> string \<Rightarrow> int \<Rightarrow> Mods \<Rightarrow> nat \<Rightarrow> Mod \<Rightarrow> connector \<Rightarrow>
   (Mods \<times> connector \<times> outgoing result) option" where
  "net_start sign rng i uri now s k m c =
     map_option (\<lambda>(token, j).
       let payload = net_start_payload uri m token now
       in (fst (add_net_connector s token k), NetConnector (net_uri c) (net_https c) (net_send c) token,
           bind_result (sign payload) (\<lambda>sg.
             Inr \<lparr>out_https = net_https c, out_host = net_uri c,
                  out_request = \<lparr>req_method = verb_post, req_target = ''/start'',
                                 req_fields = field_set [] ''Fiy-Signature'' sg, req_body = payload\<rparr>\<rparr>)))
       (draw_fresh (has_net_connector s) rng i)"

text \<open>
  The reply. The test for a missing field reads the field, which adds a null to the object, so it
  is never true and the field is then converted whatever it is.
\<close>

definition net_start_cb :: "json option \<Rightarrow> Mod \<Rightarrow> connector \<Rightarrow> (Mod \<times> connector) result" where
  "net_start_cb parsed m c =
     (case parsed of
        None \<Rightarrow> Inl JsonError
      | Some j \<Rightarrow>
          (case j of
             JObject _ \<Rightarrow>
               (case jget j ''accept'' of
                  Some (JString t) \<Rightarrow>
                    (let c1 = NetConnector (net_uri c) (net_https c) t (net_accept c);
                         m1 = (case jget j ''id'' of
                                 Some (JString x) \<Rightarrow> (if mod_id m = [] then m\<lparr>mod_id := x\<rparr> else m)
                               | _ \<Rightarrow> m)
                     in case jget j ''version'' of
                          Some (JString v) \<Rightarrow> bind_result (parse_version v) (\<lambda>v'. Inr (m1\<lparr>mod_version := v'\<rparr>, c1))
                        | _ \<Rightarrow> Inr (m1, c1))
                | _ \<Rightarrow> Inl TypeError)
           | _ \<Rightarrow> Inr (set_mod_error m ''bad response, should be an object'', c)))"

definition net_stop :: "Mods \<Rightarrow> connector \<Rightarrow> Mods \<times> connector \<times> outgoing option" where
  "net_stop s c =
     (if net_accept c = [] then (s, c, None)
      else (remove_net_connector s (net_accept c), NetConnector (net_uri c) (net_https c) (net_send c) [],
            Some \<lparr>out_https = net_https c, out_host = net_uri c,
                  out_request = \<lparr>req_method = verb_post, req_target = ''/stop'',
                                 req_fields = field_set [] ''Fiy-Auth'' (net_send c), req_body = []\<rparr>\<rparr>))"

text \<open>
  A request from the network. The first callback takes the connection over, so the second one gets
  a null pointer, and the call at the end dereferences one: \<open>conn2\<close> is what is left in \<open>conn\<close>.
\<close>

definition net_handle_request :: "connector \<Rightarrow> find_result \<Rightarrow> http_request \<Rightarrow> outgoing option result" where
  "net_handle_request c found r =
     (case found of
        ReauthSent \<Rightarrow> Inr None
      | Identified domain user \<Rightarrow>
          (let fs = field_set (field_set (req_fields r) ''Fiy-User'' (session_user_str domain user)) ''Fiy-Auth'' (net_send c);
               conn = Some (r\<lparr>req_fields := fs, req_target := ''/request'' @ req_target r\<rparr>);
               (session, conn1) = (conn, None);
               (session', conn2) = (conn1, None :: http_request option)
           in case conn2 of
                None \<Rightarrow> Inl UndefinedBehaviour
              | Some q \<Rightarrow> Inr (Some \<lparr>out_https = net_https c, out_host = net_uri c, out_request = q\<rparr>)))"

definition net_delete_user :: "connector \<Rightarrow> string \<Rightarrow> outgoing" where
  "net_delete_user c user =
     \<lparr>out_https = net_https c, out_host = net_uri c,
      out_request = \<lparr>req_method = verb_delete, req_target = ''/user'',
        req_fields = field_set (field_set [] ''Fiy-Auth'' (net_send c)) ''Fiy-User'' user, req_body = []\<rparr>\<rparr>"

text \<open>
  A request from another mod. Null pointers are appended to or viewed as strings, which is undefined; the
  headers are set in the order of the map's keys; the body is taken as a C string. \<open>verb_name\<close> is
  Beast's text of a verb.
\<close>

definition net_handle_local_request :: "(nat \<Rightarrow> string) \<Rightarrow> connector \<Rightarrow> fiy_request \<Rightarrow> outgoing result" where
  "net_handle_local_request verb_name c r =
     (case (rq_path r, rq_user r, rq_domain r) of
        (Some path, Some user, Some domain) \<Rightarrow>
          bind_result (headers_map r) (\<lambda>hm.
            let f0 = field_set (field_set (field_set (field_set [] ''Fiy-Auth'' (net_send c))
                       ''Fiy-User'' user) ''Fiy-Domain'' domain) ''Fiy-Method'' (verb_name (rq_method r));
                fs = foldl (\<lambda>f k. field_set f k (the (hm k))) f0 (sorted_list_of_set (dom hm))
            in Inr \<lparr>out_https = net_https c, out_host = net_uri c,
                    out_request = \<lparr>req_method = verb_post, req_target = ''/request'' @ path,
                      req_fields = fs, req_body = takeWhile (\<lambda>x. x \<noteq> NUL) (rq_body r)\<rparr>\<rparr>)
      | _ \<Rightarrow> Inl UndefinedBehaviour)"

text \<open>The two callbacks of that request.\<close>

definition net_response_cb :: "fiy_request \<Rightarrow> http_response \<Rightarrow> peer_effect list" where
  "net_response_cb req res =
     run_callback req (Some \<lparr>rs_status = res_status res,
       rs_headers = Some (get_headers_string (res_fields res)), rs_body = body_of_string (res_body res)\<rparr>)"

definition net_err_cb :: "fiy_request \<Rightarrow> string \<Rightarrow> peer_effect list" where
  "net_err_cb req err =
     run_callback req (Some \<lparr>rs_status = -1, rs_headers = Some [], rs_body = body_of_string err\<rparr>)"

section \<open>Lemmas\<close>

definition crlf_lines :: "fields \<Rightarrow> string" where
  "crlf_lines fs = concat (map (\<lambda>g. [CR, NL] @ name_value g) fs)"

lemma crlf_lines_simps:
  "crlf_lines [] = []" "crlf_lines (f # fs) = CR # NL # name_value f @ crlf_lines fs"
  by (simp_all add: crlf_lines_def)

lemma shown_field_parts:
  "shown_field (n, v) \<Longrightarrow> CHR '':'' \<notin> set n \<and> NL \<notin> set v \<and> CR \<notin> set v \<and> v \<noteq> [] \<and> \<not> is_space (hd v)"
  by (simp add: shown_field_def plain_field_def)

lemma NL_CR [simp]: "NL \<noteq> CR" "CR \<noteq> NL"
  by (simp_all add: NL_def CR_def)

text \<open>What follows a field in the text: nothing, or an end of line and more fields.\<close>

lemma colon_of_field:
  "CHR '':'' \<notin> set n \<Longrightarrow> find_char (n @ '': '' @ v @ t) (CHR '':'') 0 = Some (length n)"
  using find_char_append_hit [of "CHR '':''" n "'' '' @ v @ t"] by simp

lemma line_end_none:
  assumes "NL \<notin> set v"
  shows "find_char (n @ '': '' @ v) NL (length n) = None"
proof -
  have "NL \<notin> set ('': '' @ v)" using assms by (auto simp: NL_def)
  from find_char_miss_at [OF this, of n] show ?thesis by simp
qed

lemma line_end_some:
  assumes "NL \<notin> set v"
  shows "find_char (n @ '': '' @ v @ CR # NL # t) NL (length n) = Some (length n + 3 + length v)"
proof -
  have "NL \<notin> set ('': '' @ v @ [CR])" using assms by (auto simp: NL_def CR_def)
  from find_char_hit_at [OF this, of n t] show ?thesis by (simp add: numeral_3_eq_3)
qed

lemma value_at_end:
  assumes "shown_field (n, v)" and "t = [] \<or> (\<exists>t'. t = CR # t')"
  shows "takeWhile (\<lambda>c. c \<noteq> CR \<and> c \<noteq> NL) (dropWhile is_space ('' '' @ v @ t)) = v"
proof -
  note p = shown_field_parts [OF assms(1)]
  then have "dropWhile is_space ('' '' @ v @ t) = v @ t" by (cases v) (auto simp: is_space_def)
  moreover have "\<forall>c \<in> set v. c \<noteq> CR \<and> c \<noteq> NL" using p by auto
  then have "takeWhile (\<lambda>c. c \<noteq> CR \<and> c \<noteq> NL) (v @ t) = v"
    using assms(2) by (subst takeWhile_append2) auto
  ultimately show ?thesis by simp
qed

lemma name_test:
  "(length n = length key \<and> map to_lower (take (length n) (n @ t)) = map to_lower key) = same_name n key"
  by (auto simp: same_name_def dest: map_eq_imp_length_eq)

lemma find_header_crlf:
  "list_all shown_field (f # fs) \<Longrightarrow>
   find_header_loop key (name_value f @ crlf_lines fs) = field_get (f # fs) key"
proof (induction fs arbitrary: f)
  case Nil
  obtain n v where f: "f = (n, v)" by (cases f)
  from Nil f have sf: "shown_field (n, v)" by simp
  note p = shown_field_parts [OF sf]
  have colon: "find_char (n @ '': '' @ v) (CHR '':'') 0 = Some (length n)"
    using colon_of_field [of n v "[]"] p by simp
  have eol: "find_char (n @ '': '' @ v) NL (length n) = None" using line_end_none [of v n] p by simp
  have val: "takeWhile (\<lambda>c. c \<noteq> CR \<and> c \<noteq> NL) (dropWhile is_space (drop (Suc (length n)) (n @ '': '' @ v))) = v"
    using value_at_end [OF sf, of "[]"] by simp
  have "find_header_loop key (n @ '': '' @ v) = (if same_name n key then v else [])"
    by (subst find_header_loop.simps) (simp only: colon eol name_test val option.case, simp)
  with f show ?case by (simp add: name_value_def crlf_lines_simps field_get_def)
next
  case (Cons g gs)
  obtain n v where f: "f = (n, v)" by (cases f)
  from Cons.prems f have sf: "shown_field (n, v)" by simp
  note p = shown_field_parts [OF sf]
  let ?t = "name_value g @ crlf_lines gs"
  have colon: "find_char (n @ '': '' @ v @ CR # NL # ?t) (CHR '':'') 0 = Some (length n)"
    using colon_of_field [of n v "CR # NL # ?t"] p by simp
  have eol: "find_char (n @ '': '' @ v @ CR # NL # ?t) NL (length n) = Some (length n + 3 + length v)"
    using line_end_some [of v n ?t] p by simp
  have val: "takeWhile (\<lambda>c. c \<noteq> CR \<and> c \<noteq> NL) (dropWhile is_space (drop (Suc (length n)) (n @ '': '' @ v @ CR # NL # ?t))) = v"
    using value_at_end [OF sf, of "CR # NL # ?t"] by simp
  have rest: "drop (Suc (length n + 3 + length v)) (n @ '': '' @ v @ CR # NL # ?t) = ?t"
    by (simp add: numeral_eq_Suc)
  have "find_header_loop key (n @ '': '' @ v @ CR # NL # ?t) =
      (if same_name n key then v else find_header_loop key ?t)"
    by (subst find_header_loop.simps) (simp only: colon eol name_test val rest option.case, simp)
  moreover have "find_header_loop key ?t = field_get (g # gs) key" using Cons by simp
  ultimately show ?case using f by (simp add: name_value_def crlf_lines_simps field_get_def)
qed

lemma headers_map_crlf:
  "list_all shown_field (f # fs) \<Longrightarrow>
   \<exists>m'. headers_map_loop (name_value f @ crlf_lines fs) m = Inr m' \<and>
     (\<forall>k. m' (map to_lower k) = (case m (map to_lower k) of Some v \<Rightarrow> Some v | None \<Rightarrow> field_find (f # fs) k))"
proof (induction fs arbitrary: f m)
  case Nil
  obtain n v where f: "f = (n, v)" by (cases f)
  with Nil have sf: "shown_field (n, v)" by simp
  note p = shown_field_parts [OF sf]
  have "last v \<noteq> CR" using p last_in_set [of v] by metis
  moreover have colon: "find_char (n @ '': '' @ v) (CHR '':'') 0 = Some (length n)"
    using colon_of_field [of n v "[]"] p by simp
  have eol: "find_char (n @ '': '' @ v) NL (length n) = None" using line_end_none [of v n] p by simp
  have "headers_map_loop (n @ '': '' @ v) m =
      headers_map_loop [] (map_emplace m (map to_lower n) (if last v = CR then butlast v else v))"
    using p by (subst headers_map_loop.simps) (simp only: colon eol Let_def option.case, simp)
  ultimately have "headers_map_loop (n @ '': '' @ v) m = Inr (map_emplace m (map to_lower n) v)"
    by (simp add: headers_map_loop.simps)
  with f show ?case
    by (auto simp: name_value_def crlf_lines_simps map_emplace_apply same_name_def split: option.splits)
next
  case (Cons g gs)
  obtain n v where f: "f = (n, v)" by (cases f)
  with Cons.prems have sf: "shown_field (n, v)" by simp
  note p = shown_field_parts [OF sf]
  let ?t = "name_value g @ crlf_lines gs"
  have colon: "find_char (n @ '': '' @ v @ CR # NL # ?t) (CHR '':'') 0 = Some (length n)"
    using colon_of_field [of n v "CR # NL # ?t"] p by simp
  have eol: "find_char (n @ '': '' @ v @ CR # NL # ?t) NL (length n) = Some (length n + 3 + length v)"
    using line_end_some [of v n ?t] p by simp
  have rest: "drop (Suc (length n + 3 + length v)) (n @ '': '' @ v @ CR # NL # ?t) = ?t"
    by (simp add: numeral_eq_Suc)
  have v0: "take (length n + 3 + length v - Suc (length n)) (drop (Suc (length n)) (n @ '': '' @ v @ CR # NL # ?t)) =
      CHR '' '' # v @ [CR]"
    by (simp add: numeral_eq_Suc)
  let ?m = "map_emplace m (map to_lower n) v"
  have step: "headers_map_loop (n @ '': '' @ v @ CR # NL # ?t) m = headers_map_loop ?t ?m"
    by (subst headers_map_loop.simps) (simp only: colon eol rest v0 Let_def option.case, simp)
  have "list_all shown_field (g # gs)" using Cons.prems by simp
  from Cons.IH [OF this, of ?m] obtain m' where "headers_map_loop ?t ?m = Inr m'"
    "\<forall>k. m' (map to_lower k) = (case ?m (map to_lower k) of Some v \<Rightarrow> Some v | None \<Rightarrow> field_find (g # gs) k)" by blast
  with step f show ?case
    by (auto simp: name_value_def crlf_lines_simps map_emplace_apply same_name_def split: option.splits)
qed

lemma dll_request_headers:
  "req_fields r = f # fs \<Longrightarrow>
   rq_headers (dll_request d u r) = Some (name_value f @ crlf_lines (f # fs))"
  by (simp add: dll_request_def set_this_headers_def crlf_lines_def)

section \<open>Life cycle\<close>

inductive dll_reachable :: "dll_state \<Rightarrow> bool" where
  dll_init: "dll_reachable dll_new"
| dll_started: "dll_reachable s \<Longrightarrow> dll_start lib s m = Inr (s', m', ok) \<Longrightarrow> dll_reachable s'"
| dll_stopped: "dll_reachable s \<Longrightarrow> dll_stop lib s = Inr (s', ok, called) \<Longrightarrow> dll_reachable s'"

lemma dll_start_host:
  "dll_start lib s m = Inr (s', m', ok) \<Longrightarrow> m_host_info s' = Live"
  by (auto simp: dll_start_def bind_result_Inr_iff Let_def split: if_splits option.splits)

lemma dll_reachable_host: "dll_reachable s \<Longrightarrow> m_dl_handle s \<Longrightarrow> m_host_info s \<noteq> NullPtr"
proof (induction rule: dll_reachable.induct)
  case (dll_started s lib m s' m' ok)
  then show ?case using dll_start_host [of lib s m s' m' ok] by simp
next
  case (dll_stopped s lib s' ok called)
  then show ?case by (auto simp: dll_stop_def bind_result_Inr_iff Let_def split: if_splits)
qed (simp add: dll_new_def)

text \<open>What the access check says to a request that was not identified.\<close>

lemma parse_access_federated_local:
  "v \<in> {''federated'', ''local''} \<Longrightarrow> parse_access_checker v \<in> {AccessFederated, AccessLocal}"
  by (elim insertE emptyE) (simp_all add: parse_access_checker_def)

lemma anonymous_admitted:
  "mod_access m \<in> {AccessFederated, AccessLocal} \<Longrightarrow> m_mod_info s \<Longrightarrow>
   \<exists>q. dll_handle_request uri m s unauthenticated r = Inr (CallMod q) \<and> rq_user q = None"
  by (elim insertE emptyE) (simp_all add: dll_handle_request_def unauthenticated_def can_access_def dll_request_def)

lemma anonymous_refused:
  "mod_access m = AccessDisabled \<or> (\<exists>ws. mod_access m = AccessList ws \<and> '' '' \<notin> set ws) \<Longrightarrow>
   dll_handle_request uri m s unauthenticated r = Inr (Respond (unauthorized_response uri))"
  by (elim disjE exE conjE) (simp_all add: dll_handle_request_def unauthenticated_def can_access_def)

section \<open>Properties\<close>

text \<open>
  The restrictions \<open>federated\<close> and \<open>local\<close> admit everybody: a request without any header on a
  fresh connection is not identified, which \<open>find_user\<close> reports as the user \<open>" "\<close>; the access check
  takes that for a local user, and the mod is called with a null user. Only \<open>disabled\<close> and a list
  of names keep it out.
\<close>

theorem anonymous_passes_access:
  assumes "req_fields (s_req c) = []" and "m_cookies c = Map.empty" and "m_mod_info s"
    and "mod_access m = parse_access_checker v"
  shows "\<exists>found. find_user sha512 pw_salt b64 hmac now fed us ps app_id c = (us, c, Inr found) \<and>
    (v \<in> {''federated'', ''local''} \<longrightarrow> (\<exists>q. dll_handle_request uri m s found (s_req c) = Inr (CallMod q) \<and> rq_user q = None)) \<and>
    (v = ''disabled'' \<or> (\<exists>ws. mod_access m = AccessList ws \<and> '' '' \<notin> set ws) \<longrightarrow>
      dll_handle_request uri m s found (s_req c) = Inr (Respond (unauthorized_response uri)))"
proof -
  have "get_cookies c = c" using assms(1,2) by (simp add: get_cookies_def field_get_def)
  then have "find_user_local sha512 pw_salt b64 us c = (us, c, Inr None)"
    using assms(1,2) by (simp add: find_user_local_def)
  moreover have "find_user_peer hmac now fed ps app_id c = (c, Inr unauthenticated)"
    using assms(1) by (simp add: find_user_peer_def)
  ultimately have "find_user sha512 pw_salt b64 hmac now fed us ps app_id c = (us, c, Inr unauthenticated)"
    by (simp add: find_user_def)
  moreover have "\<exists>q. dll_handle_request uri m s unauthenticated (s_req c) = Inr (CallMod q) \<and> rq_user q = None"
    if v: "v \<in> {''federated'', ''local''}"
    using anonymous_admitted [OF parse_access_federated_local [OF v, folded assms(4)] assms(3)] by blast
  moreover have "dll_handle_request uri m s unauthenticated (s_req c) = Inr (Respond (unauthorized_response uri))"
    if "v = ''disabled'' \<or> (\<exists>ws. mod_access m = AccessList ws \<and> '' '' \<notin> set ws)"
  proof -
    from that have "mod_access m = AccessDisabled \<or> (\<exists>ws. mod_access m = AccessList ws \<and> '' '' \<notin> set ws)"
    proof
      assume "v = ''disabled''"
      then have "mod_access m = AccessDisabled" using assms(4) by (simp add: parse_access_checker_def)
      then show ?thesis ..
    qed simp
    then show ?thesis by (rule anonymous_refused)
  qed
  ultimately show ?thesis by blast
qed

theorem anonymous_passes_access_witness:
  "\<exists>q. dll_handle_request ''u'' ((new_mod ''d'')\<lparr>mod_access := parse_access_checker ''local''\<rparr>)
     (dll_new\<lparr>m_mod_info := True\<rparr>) unauthenticated empty_request = Inr (CallMod q) \<and> rq_user q = None"
proof -
  let ?m = "(new_mod ''d'')\<lparr>mod_access := parse_access_checker ''local''\<rparr>"
  let ?s = "dll_new\<lparr>m_mod_info := True\<rparr>"
  have h: "req_fields (s_req new_session) = []" "m_cookies new_session = Map.empty" "m_mod_info ?s"
    "mod_access ?m = parse_access_checker ''local''"
    by (simp_all add: new_session_def empty_request_def)
  have f: "find_user demo_hash ''.salt'' id (\<lambda>_ _. []) 7 ENABLED demo_users no_peers None new_session =
      (demo_users, new_session, Inr unauthenticated)"
    by (simp add: find_user_def find_user_local_def find_user_peer_def get_cookies_def new_session_def
        empty_request_def field_get_def)
  have r: "s_req new_session = empty_request" by (simp add: new_session_def)
  from anonymous_passes_access [OF h, of demo_hash "''.salt''" id "\<lambda>_ _. []" 7 ENABLED demo_users no_peers None "''u''"] f r
  show ?thesis by auto
qed

text \<open>
  A shared library sees the request's header fields: although \<open>set_this_headers\<close> writes the first
  field twice and ends lines with CR LF, \<open>find_header\<close> and \<open>headers_map\<close> of the request that the mod
  gets agree with the lookup in the message, for fields with non-empty values.
\<close>

theorem dll_headers_visible:
  assumes "list_all shown_field (req_fields r)"
  shows "find_header (dll_request d u r) key = field_get (req_fields r) key \<and>
    (\<exists>hm. headers_map (dll_request d u r) = Inr hm \<and> (\<forall>k. hm (map to_lower k) = field_find (req_fields r) k))"
proof (cases "req_fields r")
  case Nil
  then have "rq_headers (dll_request d u r) = None" by (simp add: dll_request_def set_this_headers_def)
  with Nil show ?thesis by (simp add: find_header_def headers_map_def field_get_def)
next
  case (Cons f fs)
  have l: "list_all shown_field (f # f # fs)" using assms Cons by simp
  note h = dll_request_headers [OF Cons, of d u]
  have dup: "field_find (f # f # fs) k = field_find (f # fs) k" for k by (cases f) simp
  have "find_header (dll_request d u r) key = field_get (f # f # fs) key"
    using find_header_crlf [OF l, of key] h by (simp add: find_header_def)
  moreover obtain hm where "headers_map (dll_request d u r) = Inr hm"
    "\<forall>k. hm (map to_lower k) = field_find (f # f # fs) k"
    using headers_map_crlf [OF l, of Map.empty] h by (auto simp: headers_map_def)
  ultimately show ?thesis using Cons dup by (simp add: field_get_def)
qed

theorem dll_headers_visible_witness:
  "find_header (dll_request None ''bob'' \<lparr>req_method = 2, req_target = ''/'',
     req_fields = [(''Host'', ''a.b''), (''Accept'', ''text'')], req_body = []\<rparr>) ''accept'' = ''text''"
proof -
  let ?r = "\<lparr>req_method = 2, req_target = ''/'',
     req_fields = [(''Host'', ''a.b''), (''Accept'', ''text'')], req_body = []\<rparr>"
  have l: "list_all shown_field (req_fields ?r)" by code_simp
  have "field_get (req_fields ?r) ''accept'' = ''text''" by code_simp
  with dll_headers_visible [OF l, of None "''bob''" "''accept''"] show ?thesis by simp
qed

text \<open>
  A shared library that was stopped cannot be started again: in every reachable state with an
  open library, \<open>stop\<close> calls the library's function \<open>start\<close> (there is no lookup of another name) and
  frees the host information, so the next \<open>start\<close>, or a second \<open>stop\<close> after a failed close, frees it
  twice.
\<close>

theorem dll_restart_double_free:
  assumes "dll_reachable s" and "m_dl_handle s" and "dll_stop lib s = Inr (s', ok, called)"
  shows "(called \<longleftrightarrow> dl_start lib \<noteq> None) \<and> dll_start lib' s' m = Inl UndefinedBehaviour \<and>
    (\<not> ok \<longrightarrow> dll_stop lib' s' = Inl UndefinedBehaviour)"
proof -
  have "m_host_info s = Live"
    using dll_reachable_host [OF assms(1,2)] assms(2,3)
    by (cases "m_host_info s") (auto simp: dll_stop_def delete_ptr_def Let_def split: if_splits)
  with assms(2,3) have s': "m_host_info s' = Dangling" "ok = dl_closes lib" "called = (dl_start lib \<noteq> None)"
    "\<not> ok \<longrightarrow> m_dl_handle s'"
    by (auto simp: dll_stop_def delete_ptr_def Let_def split: if_splits)
  then show ?thesis by (auto simp: dll_start_def dll_stop_def delete_ptr_def Let_def)
qed

definition demo_lib :: dll_module where
  "demo_lib = \<lparr>dl_opens = True, dl_start = Some (Some (None, None)), dl_closes = True\<rparr>"

theorem dll_restart_double_free_witness:
  "\<exists>s s'. dll_start demo_lib dll_new (new_mod ''git'') = Inr (s, new_mod ''git'', True) \<and>
     dll_stop demo_lib s = Inr (s', True, True) \<and> dll_start demo_lib s' (new_mod ''git'') = Inl UndefinedBehaviour"
proof -
  let ?s = "\<lparr>m_dl_handle = True, m_mod_info = True, m_host_info = Live\<rparr>"
  let ?s' = "\<lparr>m_dl_handle = False, m_mod_info = True, m_host_info = Dangling\<rparr>"
  have st: "dll_start demo_lib dll_new (new_mod ''git'') = Inr (?s, new_mod ''git'', True)"
    by (simp add: dll_start_def demo_lib_def dll_new_def delete_ptr_def dll_put_id_def Let_def)
  have sp: "dll_stop demo_lib ?s = Inr (?s', True, True)"
    by (simp add: dll_stop_def demo_lib_def delete_ptr_def Let_def)
  have r: "dll_reachable ?s" by (rule dll_started [OF dll_init st])
  have o1: "m_dl_handle ?s" by simp
  from dll_restart_double_free [OF r o1 sp, of demo_lib "new_mod ''git''"] st sp show ?thesis by blast
qed

end
