(* ===== verification/Router.thy ===== *)
theory Router
  imports Session Mods
begin

text \<open>
  \<open>protocol/Server/Router.cpp\<close>: what happens to a request. It is answered by the portal, by the
  federation interface, or handed over to a mod with a new target. The portal's static files and
  the bodies of its pages are parameters, and so are Boost.URL's query parameters, the random
  tokens, the hash and the signatures.

  Shown: which mod gets a request and with what target; what a sign-up creates; what makes an
  incoming handshake register a peer.
\<close>

section \<open>What the router reads\<close>

record portal =
  p_host :: string
  p_protocol :: string
  p_federation :: FederationStatus
  p_public_key :: string
  p_now :: int
  p_file :: "string \<Rightarrow> string"
  p_login_body :: "string \<Rightarrow> string"
  p_signup_body :: "string \<Rightarrow> string"
  p_apps_body :: "LocalUser \<Rightarrow> string"
  p_url_param :: "string \<Rightarrow> string \<Rightarrow> string option result"

datatype route_effect =
    Reply http_response
  | ToMod nat string
  | FetchKey outgoing Peer string

definition html_page :: "int \<Rightarrow> string \<Rightarrow> http_response" where
  "html_page code_nr body = with_field (respond_with code_nr body) ''Content-Type'' ''text/html''"

definition login_page :: "portal \<Rightarrow> int \<Rightarrow> string \<Rightarrow> http_response" where
  "login_page p code_nr err = html_page code_nr (p_login_body p err)"

definition signup_page :: "portal \<Rightarrow> int \<Rightarrow> string \<Rightarrow> http_response" where
  "signup_page p code_nr err = html_page code_nr (p_signup_body p err)"

definition redirect :: "int \<Rightarrow> string \<Rightarrow> http_response" where
  "redirect code_nr target = with_field (respond_with code_nr []) ''Location'' target"

section \<open>Requests for mods\<close>

text \<open>\<open>request_mod\<close>; \<open>None\<close> is the null pointer.\<close>

definition request_mod :: "portal \<Rightarrow> http_request \<Rightarrow> nat option \<Rightarrow> string \<Rightarrow> route_effect" where
  "request_mod p r m uri =
     (case m of
        None \<Rightarrow>
          (if field_get (req_fields r) ''host'' = p_host p \<and> req_target r = ''/''
           then Reply (html_page 200 (p_file p ''/index.html''))
           else Reply (html_page 404
             (''<h1>404 - Could not find a mod to handle your request</h1>'' @ [NL] @ ''<hr/>'' @ [NL] @
              ''<p>For a list of apps: check the <a href=\"'' @ p_protocol p @ p_host p @
              ''/portal\">portal</a></p>'' @ [NL])))
      | Some k \<Rightarrow> ToMod k uri)"

datatype mod_route =
    RouteTo "nat option" string
  | Redirect string

text \<open>Mods by id: \<open>/mods/<id>\<close>, the rest of the target unless the header \<open>Fiy-Path\<close> gives another.\<close>

definition mod_by_id_route :: "Mods \<Rightarrow> http_request \<Rightarrow> mod_route" where
  "mod_by_id_route s r =
     (let path = drop 6 (req_target r);
          mod_end = find_first_of path ''/?'' 0;
          m = get_mod_by_id s (case mod_end of None \<Rightarrow> path | Some e \<Rightarrow> take e path);
          sub1 = field_get (req_fields r) ''Fiy-Path'';
          sub2 = (if sub1 = [] then (case mod_end of None \<Rightarrow> [] | Some e \<Rightarrow> drop e path) else sub1)
      in RouteTo m (if sub2 = [] then ''/'' else sub2))"

text \<open>Mods by path; what no mod has goes to the root mod, the one with the empty path.\<close>

definition mod_by_path_route :: "Mods \<Rightarrow> string \<Rightarrow> mod_route" where
  "mod_by_path_route s path =
     (let root = get_mod s []
      in case find_char path (CHR ''/'') 1 of
           None \<Rightarrow>
             (case find_char path (CHR ''?'') 1 of
                None \<Rightarrow>
                  (if length path \<le> 1 then RouteTo root ''/''
                   else case get_mod s (drop 1 path) of
                          Some k \<Rightarrow> RouteTo (Some k) ''/''
                        | None \<Rightarrow> RouteTo root path)
              | Some q \<Rightarrow>
                  (let sub_path = ''/'' @ drop q path
                   in if q < 2 then RouteTo root sub_path
                      else case get_mod s (substr path 1 (q - 1)) of
                             Some k \<Rightarrow> RouteTo (Some k) sub_path
                           | None \<Rightarrow> RouteTo root path))
         | Some slash \<Rightarrow>
             (case get_mod s (substr path 1 (slash - 1)) of
                Some k \<Rightarrow> RouteTo (Some k) (drop slash path)
              | None \<Rightarrow> RouteTo root path))"

definition mod_route_of :: "portal \<Rightarrow> Mods \<Rightarrow> http_request \<Rightarrow> mod_route" where
  "mod_route_of p s r =
     (let path = req_target r; hn = field_get (req_fields r) ''Host''
      in if starts_with path ''/mods/'' then mod_by_id_route s r
         else if hn \<noteq> [] \<and> hn \<noteq> p_host p
         then (if ends_with hn (p_host p)
               then Redirect (p_protocol p @ p_host p @ ''/'' @ take (length hn - length (p_host p) - 1) hn @ path)
               else RouteTo None path)
         else mod_by_path_route s path)"

definition mod_send_msg :: "portal \<Rightarrow> Mods \<Rightarrow> http_request \<Rightarrow> route_effect" where
  "mod_send_msg p s r =
     (case mod_route_of p s r of
        RouteTo m uri \<Rightarrow> request_mod p r m uri
      | Redirect loc \<Rightarrow> Reply (redirect 301 loc))"

section \<open>Accounts\<close>

definition form_value :: "string \<Rightarrow> (string \<times> string) list \<Rightarrow> string" where
  "form_value key form = foldl (\<lambda>v kv. if fst kv = key then snd kv else v) [] form"

definition reserved_usernames :: "string list" where
  "reserved_usernames =
     [''api'', ''mod'', ''app'', ''help'', ''home'', ''index'', ''new'', ''about'', ''error'', ''create'',
      ''delete'', ''post'', ''view'', ''search'', ''notifications'']"

definition username_char :: "char \<Rightarrow> bool" where
  "username_char c \<longleftrightarrow> is_alnum c \<or> c = CHR ''_''"

text \<open>The checks of the name before the table is asked; \<open>None\<close> when it passes.\<close>

definition username_error :: "portal \<Rightarrow> string \<Rightarrow> http_response option" where
  "username_error p name =
     (if \<not> list_all username_char name
      then Some (signup_page p 400 ''Username should contain only alphanumeric characters'')
      else if length name > USERNAME_MAX_LENGTH \<or> name = []
      then Some (signup_page p 400 (''Username must be less than '' @ show_nat USERNAME_MAX_LENGTH @ '' characters''))
      else if length name = 1 \<or> name \<in> set reserved_usernames \<or> ends_with name ''settings''
      then Some (signup_page p 400 ''Username is reserved, try a different one'')
      else None)"

text \<open>The answer to a successful sign-up or login: the session cookie and the next page.\<close>

definition session_cookie :: "AuthToken \<Rightarrow> string" where
  "session_cookie t =
     serialize_cookie_options ''fiy_auth'' (m_token t)
       (default_cookie_options\<lparr>encode_fn := None, max_age := SESSION_LIFETIME, cookie_path := ''/'', http_only := True\<rparr>)"

definition session_response :: "portal \<Rightarrow> AuthToken \<Rightarrow> http_request \<Rightarrow> http_response result" where
  "session_response p t r =
     bind_result (p_url_param p (req_target r) ''redirect'') (\<lambda>to.
       Inr (with_field (with_field (respond_with 303 []) ''Set-Cookie'' (session_cookie t))
              ''Location'' (case to of Some x \<Rightarrow> x | None \<Rightarrow> ''/portal'')))"

definition signup_post ::
  "portal \<Rightarrow> (string \<Rightarrow> string) \<Rightarrow> string \<Rightarrow> (nat \<Rightarrow> nat list) \<Rightarrow> nat \<Rightarrow> users_state \<Rightarrow> Session \<Rightarrow>
   (users_state \<times> Session \<times> http_response result \<times> nat) option" where
  "signup_post p sha512 pw_salt rng i us c =
     (case parse_form_url_encoded (req_body (s_req c)) of
        None \<Rightarrow> Some (us, c, Inr (signup_page p 400 ''Form Error''), i)
      | Some form \<Rightarrow>
          (let name = form_value ''username'' form; password = form_value ''password'' form;
               contact = form_value ''contact'' form; full_name = form_value ''name'' form
           in case username_error p name of
                Some e \<Rightarrow> Some (us, c, Inr e, i)
              | None \<Rightarrow>
                  (case get_user us name of
                     (us1, Inl e) \<Rightarrow> Some (us1, c, Inl e, i)
                   | (us1, Inr (Some u)) \<Rightarrow>
                       Some (us1, c, Inr (signup_page p 400 ''Username is taken, try a different one''), i)
                   | (us1, Inr None) \<Rightarrow>
                       (if length full_name > NAME_MAX_LENGTH
                        then Some (us1, c, Inr (signup_page p 400
                               (''Name must be less than '' @ show_nat NAME_MAX_LENGTH @ '' characters'')), i)
                        else if length contact > EMAIL_MAX_LENGTH
                        then Some (us1, c, Inr (signup_page p 400
                               (''Contact info must be less than '' @ show_nat EMAIL_MAX_LENGTH @ '' characters'')), i)
                        else case add_user sha512 pw_salt us1
                                    \<lparr>username = name, is_admin = False, email = contact, joined_ts = p_now p\<rparr> password of
                               (us2, Inr True) \<Rightarrow>
                                 (case login_user sha512 pw_salt rng i (p_now p) us2 name password of
                                    None \<Rightarrow> None
                                  | Some (us3, Inl e, j) \<Rightarrow> Some (us3, c, Inl e, j)
                                  | Some (us3, Inr t, j) \<Rightarrow>
                                      Some (us3, clear_cookie_cache c, session_response p t (s_req c), j))
                             | (us2, _) \<Rightarrow>
                                 Some (us2, c, Inr (signup_page p 500 ''Failed to create account, try again later''), i)))))"

definition login_post ::
  "portal \<Rightarrow> (string \<Rightarrow> string) \<Rightarrow> string \<Rightarrow> (nat \<Rightarrow> nat list) \<Rightarrow> nat \<Rightarrow> users_state \<Rightarrow> Session \<Rightarrow>
   (users_state \<times> Session \<times> http_response result \<times> nat) option" where
  "login_post p sha512 pw_salt rng i us c =
     (case parse_form_url_encoded (req_body (s_req c)) of
        None \<Rightarrow> Some (us, c, Inr (login_page p 400 ''Form Error''), i)
      | Some form \<Rightarrow>
          (case login_user sha512 pw_salt rng i (p_now p) us (form_value ''username'' form) (form_value ''password'' form) of
             None \<Rightarrow> None
           | Some (us1, Inl e, j) \<Rightarrow> Some (us1, c, Inl e, j)
           | Some (us1, Inr t, j) \<Rightarrow>
               (if m_user t = None
                then Some (us1, c, Inr (login_page p 401 ''Incorrect username/password''), j)
                else Some (us1, clear_cookie_cache c, session_response p t (s_req c), j))))"

text \<open>The interface for network connectors; no route leads to it.\<close>

definition login_user_internal ::
  "(string \<Rightarrow> string) \<Rightarrow> string \<Rightarrow> Mods \<Rightarrow> users_state \<Rightarrow> http_request \<Rightarrow> http_response" where
  "login_user_internal sha512 pw_salt s us r =
     (if \<not> has_net_connector s (field_get (req_fields r) ''fiy-auth'') then respond_with 401 []
      else let res = auth_user_password sha512 pw_salt us (field_get (req_fields r) ''fiy-user'')
                       (field_get (req_fields r) ''fiy-pass'')
           in respond_with (if res = 0 then 200 else if res = 1 then 401 else 500) [])"

section \<open>Handshakes\<close>

text \<open>\<open>peer_handshake\<close>; \<open>gen\<close> is the token the new peer is given.\<close>

definition peer_handshake :: "portal \<Rightarrow> string \<Rightarrow> peers_state \<Rightarrow> string \<Rightarrow> route_effect" where
  "peer_handshake p gen ps body =
     (if p_federation p \<noteq> ENABLED
      then Reply (respond_with 401 ''This instance is not accepting federation requests right now.'')
      else case parse_handshake_request gen (p_now p) body of
             None \<Rightarrow> Reply (respond_with 400 ''Invalid handshake body'')
           | Some (peer, sig) \<Rightarrow>
               (if get_peer_for_domain ps (peer_domain peer) \<noteq> None then Reply (respond_with 400 ''Already peers'')
                else FetchKey (new_peer (peer_domain peer)) peer sig))"

text \<open>The loop around \<open>add_peer\<close>: another token each time, ten times; true if the domain was taken meanwhile.\<close>

fun add_peer_loop ::
  "(nat \<Rightarrow> nat list) \<Rightarrow> nat \<Rightarrow> nat \<Rightarrow> peers_state \<Rightarrow> Peer \<Rightarrow> peers_state \<times> Peer \<times> bool" where
  "add_peer_loop rng i tries s peer =
     (case add_peer s (peer_domain peer) peer of
        (s1, True) \<Rightarrow> (s1, peer, False)
      | (s1, False) \<Rightarrow>
          (case tries of
             0 \<Rightarrow> (s1, peer, False)
           | Suc n \<Rightarrow>
               (if get_peer_for_domain s1 (peer_domain peer) \<noteq> None then (s1, peer, True)
                else add_peer_loop rng (Suc i) n s1
                       (peer\<lparr>auth := (auth peer)\<lparr>bearer_token_we_accept := get_token_string (rng i)\<rparr>\<rparr>))))"

declare add_peer_loop.simps [simp del]

text \<open>
  The callback with the peer's key. Without a \<open>return\<close> after the first answer the handshake goes on with
  whatever body came; the answers it sends are listed. \<open>half\<close> is our part of the secret.
\<close>

definition with_pubkey_cb ::
  "(string \<Rightarrow> string \<Rightarrow> string \<Rightarrow> bool result) \<Rightarrow> (string \<Rightarrow> string result) \<Rightarrow> (nat \<Rightarrow> nat list) \<Rightarrow> nat \<Rightarrow> string \<Rightarrow>
   peers_state \<Rightarrow> Peer \<Rightarrow> string \<Rightarrow> http_response \<Rightarrow> peers_state \<times> http_response list \<times> unit result" where
  "with_pubkey_cb verify sign rng i half ps peer sig res =
     (let first = (if res_status res \<noteq> 200
                   then [respond_with 200 (''Failed to get public key from domain '' @ peer_domain peer)] else []);
          sig_data = peer_domain peer @ [NL] @ sym_key (auth peer) @ [NL] @ bearer_token_we_send (auth peer)
      in case verify (res_body res) sig_data sig of
           Inl e \<Rightarrow> (ps, first, Inl e)
         | Inr False \<Rightarrow> (ps, first @ [respond_with 401 ''Invalid signature''], Inr ())
         | Inr True \<Rightarrow>
             (let peer1 = peer\<lparr>auth := (auth peer)\<lparr>sym_key := sym_key (auth peer) @ half\<rparr>\<rparr>;
                  (ps1, peer2, taken) = add_peer_loop rng i 10 ps peer1
              in if taken then (ps1, first @ [respond_with 400 ''Already peers''], Inr ())
                 else let text = bearer_token_we_accept (auth peer2) @ [NL] @ half
                      in case sign text of
                           Inl e \<Rightarrow> (ps1, first, Inl e)
                         | Inr s \<Rightarrow> (ps1, first @ [respond_with 200 (text @ [NL] @ s)], Inr ())))"

definition err_key_cb :: "Peer \<Rightarrow> http_response" where
  "err_key_cb peer = respond_with 404 (''Could not get public key from domain '' @ peer_domain peer)"

section \<open>The routes\<close>

text \<open>\<open>GET /portal...\<close>; \<open>path\<close> is what follows.\<close>

definition portal_redirect :: "portal \<Rightarrow> http_request \<Rightarrow> http_response result" where
  "portal_redirect p r =
     (case field_find (req_fields r) ''FIY-Redirect'' of
        Some to \<Rightarrow> Inr (redirect 303 to)
      | None \<Rightarrow>
          bind_result (p_url_param p (req_target r) ''redirect'') (\<lambda>q.
            case q of
              Some to \<Rightarrow> Inr (redirect 303 to)
            | None \<Rightarrow> Inr (respond_with 400 ''Invalid redirect: no destination provided'')))"

definition portal_file :: "portal \<Rightarrow> string \<Rightarrow> string \<Rightarrow> bool \<Rightarrow> http_response" where
  "portal_file p file_path mime cached =
     (let res = with_field (respond_with 200 (p_file p file_path)) ''Content-Type'' mime
      in if cached then with_field res ''Cache-Control'' ''max-age=604800'' else res)"

definition portal_get ::
  "portal \<Rightarrow> (string \<Rightarrow> string) \<Rightarrow> string \<Rightarrow> (string \<Rightarrow> string) \<Rightarrow> users_state \<Rightarrow> Session \<Rightarrow> string \<Rightarrow>
   users_state \<times> Session \<times> http_response result" where
  "portal_get p sha512 pw_salt b64 us c path =
     (if starts_with path ''/login'' then (us, c, Inr (login_page p 200 []))
      else if starts_with path ''/signup'' then (us, c, Inr (signup_page p 200 []))
      else if starts_with path ''/theme.js'' then (us, c, Inr (portal_file p ''/theme.js'' ''text/javascript'' False))
      else if starts_with path ''/main.css''
      then (us, c, Inr (portal_file p ''/assets/minstyle.io.min.css'' ''text/css'' True))
      else if starts_with path ''/app.svg'' then (us, c, Inr (portal_file p ''/assets/app.svg'' ''image/svg+xml'' True))
      else if starts_with path ''/redirect'' then (us, c, portal_redirect p (s_req c))
      else if path = [] \<or> path = ''/''
      then (case find_user_local sha512 pw_salt b64 us c of
              (us1, c1, Inl e) \<Rightarrow> (us1, c1, Inl e)
            | (us1, c1, Inr None) \<Rightarrow> (us1, c1, Inr (redirect 303 ''/portal/login''))
            | (us1, c1, Inr (Some u)) \<Rightarrow> (us1, c1, Inr (html_page 200 (p_apps_body p u))))
      else (us, c, Inr (respond_with 404 (''404 not found!'' @ [NL]))))"

definition peer_key :: "portal \<Rightarrow> http_response" where
  "peer_key p =
     (if p_federation p = DISABLED then respond_with 401 []
      else with_field (respond_with 200 (p_public_key p)) ''Fiy-Now'' (show_int (p_now p)))"

definition robots_txt :: "portal \<Rightarrow> http_response" where
  "robots_txt p = with_field (with_field (respond_with 200 (p_file p ''/robots.txt'')) ''Content-Type'' ''text/plain'')
     ''Cache-control'' ''max-age=60000''"

definition route_request ::
  "portal \<Rightarrow> (string \<Rightarrow> string) \<Rightarrow> string \<Rightarrow> (string \<Rightarrow> string) \<Rightarrow> (nat \<Rightarrow> nat list) \<Rightarrow> nat \<Rightarrow> Mods \<Rightarrow> peers_state \<Rightarrow>
   users_state \<Rightarrow> Session \<Rightarrow> (users_state \<times> Session \<times> route_effect result \<times> nat) option" where
  "route_request p sha512 pw_salt b64 rng i s ps us c =
     (let r = s_req c; path = req_target r;
          reply = map_option (\<lambda>(us1, c1, res, j). (us1, c1, bind_result res (\<lambda>x. Inr (Reply x)), j));
          to_mod = Some (us, c, Inr (mod_send_msg p s r), i)
      in if req_method r = verb_get
         then (if starts_with path ''/portal''
               then (case portal_get p sha512 pw_salt b64 us c (drop 7 path) of
                       (us1, c1, res) \<Rightarrow> reply (Some (us1, c1, res, i)))
               else if path = ''/peer/key'' then reply (Some (us, c, Inr (peer_key p), i))
               else if path = ''/robots.txt'' then reply (Some (us, c, Inr (robots_txt p), i))
               else to_mod)
         else if req_method r = verb_post
         then (if starts_with path ''/portal''
               then (if starts_with (drop 7 path) ''/login'' then reply (login_post p sha512 pw_salt rng i us c)
                     else if starts_with (drop 7 path) ''/signup'' then reply (signup_post p sha512 pw_salt rng i us c)
                     else reply (Some (us, c, Inr (respond_with 404 (''404 not found!'' @ [NL])), i)))
               else if path = ''/peer/handshake''
               then Some (us, c, Inr (peer_handshake p (get_token_string (rng i)) ps (req_body r)), Suc i)
               else to_mod)
         else to_mod)"

section \<open>Dispatch: lemmas\<close>

lemma find_second:
  "c \<notin> set ys \<Longrightarrow> find_char (x # ys @ c # zs) c 1 = Some (1 + length ys)"
  "c \<notin> set ys \<Longrightarrow> find_char (x # ys) c 1 = None"
  using find_char_hit_at [of c ys "[x]" zs] find_char_miss_at [of c ys "[x]"] by simp_all

lemma substr_second: "substr (x # ys @ zs) 1 (length ys) = ys"
  by (simp add: substr_def)

lemma by_path_slash:
  assumes "CHR ''/'' \<notin> set nm"
  shows "mod_by_path_route s (CHR ''/'' # nm @ CHR ''/'' # x) =
    (case get_mod s nm of Some k \<Rightarrow> RouteTo (Some k) (CHR ''/'' # x)
     | None \<Rightarrow> RouteTo (get_mod s []) (CHR ''/'' # nm @ CHR ''/'' # x))"
  using find_second(1) [OF assms, of "CHR ''/''" x] substr_second [of "CHR ''/''" nm "CHR ''/'' # x"]
  by (simp add: mod_by_path_route_def Let_def split: option.split)

lemma by_path_plain:
  assumes "CHR ''/'' \<notin> set nm" and "CHR ''?'' \<notin> set nm" and "nm \<noteq> []"
  shows "mod_by_path_route s (CHR ''/'' # nm) =
    (case get_mod s nm of Some k \<Rightarrow> RouteTo (Some k) ''/''
     | None \<Rightarrow> RouteTo (get_mod s []) (CHR ''/'' # nm))"
  using find_second(2) [OF assms(1), of "CHR ''/''"] find_second(2) [OF assms(2), of "CHR ''/''"] assms(3)
  by (simp add: mod_by_path_route_def Let_def)

lemma by_path_query:
  assumes "CHR ''/'' \<notin> set nm" and "CHR ''?'' \<notin> set nm" and "nm \<noteq> []" and "CHR ''/'' \<notin> set q"
  shows "mod_by_path_route s (CHR ''/'' # nm @ CHR ''?'' # q) =
    (case get_mod s nm of Some k \<Rightarrow> RouteTo (Some k) (CHR ''/'' # CHR ''?'' # q)
     | None \<Rightarrow> RouteTo (get_mod s []) (CHR ''/'' # nm @ CHR ''?'' # q))"
proof -
  have no: "CHR ''/'' \<notin> set (nm @ CHR ''?'' # q)" using assms(1,4) by simp
  have len: "\<not> 1 + length nm < 2" using assms(3) by (cases nm) auto
  show ?thesis
    using find_second(2) [OF no, of "CHR ''/''"] find_second(1) [OF assms(2), of "CHR ''/''" q] len
      substr_second [of "CHR ''/''" nm "CHR ''?'' # q"]
    by (simp add: mod_by_path_route_def Let_def)
qed

text \<open>A slash in the query makes the name up to it, question mark included, the path looked up.\<close>

lemma by_path_query_slash:
  assumes "CHR ''/'' \<notin> set nm" and "CHR ''/'' \<notin> set q"
  shows "mod_by_path_route s (CHR ''/'' # nm @ CHR ''?'' # q @ CHR ''/'' # x) =
    (case get_mod s (nm @ CHR ''?'' # q) of Some k \<Rightarrow> RouteTo (Some k) (CHR ''/'' # x)
     | None \<Rightarrow> RouteTo (get_mod s []) (CHR ''/'' # nm @ CHR ''?'' # q @ CHR ''/'' # x))"
  using by_path_slash [of "nm @ CHR ''?'' # q" s x] assms by (simp split: option.split)

text \<open>Which targets the portal and the federation interface do not answer themselves.\<close>

definition free_name :: "string \<Rightarrow> bool" where
  "free_name nm \<longleftrightarrow> nm \<noteq> [] \<and> CHR ''/'' \<notin> set nm \<and> CHR ''?'' \<notin> set nm \<and> \<not> starts_with nm ''portal'' \<and>
     nm \<noteq> ''mods'' \<and> nm \<noteq> ''peer'' \<and> nm \<noteq> ''robots.txt''"

definition ends_name :: "string \<Rightarrow> bool" where
  "ends_name rest \<longleftrightarrow> rest = [] \<or> hd rest = CHR ''/'' \<or> hd rest = CHR ''?''"

lemma name_end_unique:
  assumes "nm @ rest = w @ t" and "ends_name rest" and "ends_name t"
    and "CHR ''/'' \<notin> set nm" "CHR ''?'' \<notin> set nm" "CHR ''/'' \<notin> set w" "CHR ''?'' \<notin> set w"
  shows "nm = w \<and> rest = t"
proof -
  let ?P = "\<lambda>c. c \<noteq> CHR ''/'' \<and> c \<noteq> CHR ''?''"
  have part: "takeWhile ?P (u @ v) = u" if "CHR ''/'' \<notin> set u" "CHR ''?'' \<notin> set u" "ends_name v" for u v
  proof -
    have "takeWhile ?P v = []" using that(3) by (cases v) (auto simp: ends_name_def)
    moreover have "\<forall>c \<in> set u. ?P c" using that(1,2) by auto
    ultimately show ?thesis by (simp add: takeWhile_append2)
  qed
  have "takeWhile ?P (nm @ rest) = nm" using assms(2,4,5) part by blast
  moreover have "takeWhile ?P (nm @ rest) = w" unfolding assms(1) using assms(3,6,7) part by blast
  ultimately show ?thesis using assms(1) by simp
qed

lemma free_name_target:
  assumes f: "free_name nm" and e: "ends_name rest"
  shows "\<not> starts_with (CHR ''/'' # nm @ rest) ''/portal'' \<and> \<not> starts_with (CHR ''/'' # nm @ rest) ''/mods/'' \<and>
    CHR ''/'' # nm @ rest \<noteq> ''/peer/key'' \<and> CHR ''/'' # nm @ rest \<noteq> ''/peer/handshake'' \<and>
    CHR ''/'' # nm @ rest \<noteq> ''/robots.txt''"
proof -
  have sl: "CHR ''/'' \<notin> set nm" and qu: "CHR ''?'' \<notin> set nm"
    and other: "nm \<noteq> ''mods''" "nm \<noteq> ''peer''" "nm \<noteq> ''robots.txt''" "\<not> starts_with nm ''portal''"
    using f by (simp_all add: free_name_def)
  have uniq: "nm = w" if "nm @ rest = w @ t" "ends_name t" "CHR ''/'' \<notin> set w" "CHR ''?'' \<notin> set w" for w t
    using name_end_unique [OF that(1) e that(2) sl qu that(3,4)] by simp
  have "\<not> starts_with (nm @ rest) ''portal''"
  proof
    assume "starts_with (nm @ rest) ''portal''"
    then obtain t where t: "nm @ rest = ''portal'' @ t" by (auto simp: starts_with_iff)
    show False
    proof (cases "length ''portal'' \<le> length nm")
      case True
      then have "take (length ''portal'') nm = ''portal''"
        using arg_cong [OF t, of "take (length ''portal'')"] by simp
      with other(4) show False by (simp add: starts_with_def)
    next
      case False
      then have "rest \<noteq> []" using arg_cong [OF t, of length] by auto
      moreover have "rest = drop (length nm) (''portal'' @ t)" using arg_cong [OF t, of "drop (length nm)"] by simp
      moreover have "drop (length nm) (w @ t) = drop (length nm) w @ t" if "length nm \<le> length w" for w
        using that by simp
      note this [of "''portal''"]
      moreover have ne: "drop (length nm) ''portal'' \<noteq> []" using False by simp
      ultimately have "rest = drop (length nm) ''portal'' @ t" using False by simp
      then have "hd rest \<in> set ''portal''"
        using ne by (metis hd_append2 hd_in_set in_set_dropD)
      with e \<open>rest \<noteq> []\<close> show False by (auto simp: ends_name_def)
    qed
  qed
  moreover have "\<not> starts_with (nm @ rest) ''mods/''"
  proof
    assume "starts_with (nm @ rest) ''mods/''"
    then obtain t where "nm @ rest = ''mods'' @ CHR ''/'' # t" by (auto simp: starts_with_iff)
    from uniq [OF this] have "nm = ''mods''" by (simp add: ends_name_def)
    with other(1) show False ..
  qed
  moreover have "nm @ rest \<noteq> ''peer'' @ ''/key''" "nm @ rest \<noteq> ''peer'' @ ''/handshake''"
    using uniq [of "''peer''" "''/key''"] uniq [of "''peer''" "''/handshake''"] other(2) by (auto simp: ends_name_def)
  moreover have "nm @ rest \<noteq> ''robots.txt'' @ []"
    using uniq [of "''robots.txt''" "[]"] other(3) by (auto simp: ends_name_def)
  ultimately show ?thesis by (simp add: starts_with_def)
qed

lemma route_to_mod:
  assumes "free_name nm" and "ends_name rest" and "req_target (s_req c) = CHR ''/'' # nm @ rest"
    and "field_get (req_fields (s_req c)) ''Host'' \<in> {[], p_host p}"
  shows "route_request p sha512 pw_salt b64 rng i s ps us c =
    Some (us, c, Inr (case mod_by_path_route s (req_target (s_req c)) of
        RouteTo m uri \<Rightarrow> request_mod p (s_req c) m uri | Redirect loc \<Rightarrow> Reply (redirect 301 loc)), i)"
proof -
  note t = free_name_target [OF assms(1,2), folded assms(3)]
  have "mod_route_of p s (s_req c) = mod_by_path_route s (req_target (s_req c))"
    using t assms(4) by (auto simp: mod_route_of_def Let_def)
  then have "mod_send_msg p s (s_req c) = (case mod_by_path_route s (req_target (s_req c)) of
        RouteTo m uri \<Rightarrow> request_mod p (s_req c) m uri | Redirect loc \<Rightarrow> Reply (redirect 301 loc))"
    by (simp add: mod_send_msg_def)
  then show ?thesis using t by (simp add: route_request_def Let_def)
qed

section \<open>Sign-up: lemmas\<close>

text \<open>Who has just signed up can log in.\<close>

lemma login_after_add:
  assumes inv: "users_inv us" and len: "\<And>x. length (sha512 x) = PASSWORD_HASH_SIZE"
    and add: "add_user sha512 pw_salt us u pw = (us2, Inr True)"
    and login: "login_user sha512 pw_salt rng i now us2 (username u) pw = Some (us3, res, j)"
  shows "\<exists>t row. res = Inr t \<and> users_db us (username u) = None \<and> users_db us3 = (users_db us)(username u \<mapsto> row) \<and>
    row = \<lparr>isAdmin = (if is_admin u then 1 else 0), hashedPassword = hash_password sha512 pw_salt pw,
           row_email = email u, joinTs = joined_ts u\<rparr> \<and>
    m_user t = Some (user_of_row (username u) row) \<and> m_token_cache us (m_token t) = None \<and>
    m_token_cache us3 = (m_token_cache us)(m_token t \<mapsto> t)"
proof -
  define row where "row = \<lparr>isAdmin = (if is_admin u then 1 else 0), hashedPassword = hash_password sha512 pw_salt pw,
           row_email = email u, joinTs = joined_ts u\<rparr>"
  from add have up: "db_up us" and free: "users_db us (username u) = None"
    and us2: "us2 = us\<lparr>users_db := (users_db us)(username u \<mapsto> row)\<rparr>"
    by (auto simp: add_user_def row_def split: if_splits)
  have inv2: "users_inv us2" using add_user_inv [OF inv, of sha512 pw_salt u pw] add by simp
  from inv2 show ?thesis
  proof (cases rule: get_user_cases [where n = "username u", consumes 1])
    case err
    with up us2 show ?thesis by simp
  next
    case none
    with us2 show ?thesis by simp
  next
    case (found s1 row')
    then have row': "row' = row" using us2 by simp
    have "hashedPassword row = sha512 (pw @ pw_salt)" by (simp add: row_def hash_password_def)
    then have "check_password_hash sha512 pw_salt pw (hashedPassword row)"
      using len check_password_hash_iff [of sha512 pw pw_salt "sha512 (pw @ pw_salt)"] by simp
    moreover have "db_up s1" "users_db s1 (username u) = Some row" using found us2 up by simp_all
    ultimately have "auth_user_password sha512 pw_salt s1 (username u) pw = 0"
      by (simp add: auth_user_password_def)
    with login found obtain t where a: "authorize_user rng i now s1 (user_of_row (username u) row') = Some (us3, t, j)"
      and res: "res = Inr t"
      by (auto simp: login_user_def)
    then have db: "users_db us3 = users_db s1" by (auto simp: authorize_user_def token_cache_insert_def Let_def)
    from authorize_user_session [OF a] found us2 free res row' db show ?thesis
      by (simp add: row_def)
  qed
qed

text \<open>Names that pass the checks.\<close>

definition username_ok :: "string \<Rightarrow> bool" where
  "username_ok name \<longleftrightarrow> list_all username_char name \<and> 2 \<le> length name \<and> length name \<le> USERNAME_MAX_LENGTH \<and>
     name \<notin> set reserved_usernames \<and> \<not> ends_with name ''settings''"

lemma username_error_None: "username_error p name = None \<longleftrightarrow> username_ok name"
  by (cases name; cases "tl name") (auto simp: username_error_def username_ok_def)

lemma get_user_keeps:
  assumes "users_inv us" and "get_user us n = (us1, r)"
  shows "users_db us1 = users_db us \<and> m_token_cache us1 = m_token_cache us \<and> (r = Inr None \<longrightarrow> us1 = us)"
  using assms(1) by (cases rule: get_user_cases [where n = n, consumes 1]) (use assms(2) in simp_all)

section \<open>Incoming handshakes: lemmas\<close>

lemma peer_own_token: "\<exists>t. peer = peer\<lparr>auth := (auth peer)\<lparr>bearer_token_we_accept := t\<rparr>\<rparr>"
  by (rule exI [of _ "bearer_token_we_accept (auth peer)"]) simp

lemma add_peer_loop_result:
  "add_peer_loop rng i n s peer = (s', peer', taken) \<Longrightarrow>
   (\<exists>t. peer' = peer\<lparr>auth := (auth peer)\<lparr>bearer_token_we_accept := t\<rparr>\<rparr>) \<and>
   (s' = s \<or> m_peers_out s (peer_domain peer) = None \<and> m_peers_in s (bearer_token_we_accept (auth peer')) = None \<and>
      s' = \<lparr>m_peers_out = (m_peers_out s)(peer_domain peer \<mapsto> Some peer'),
            m_peers_in = (m_peers_in s)(bearer_token_we_accept (auth peer') \<mapsto> Some peer')\<rparr>)"
proof (induction n arbitrary: i peer)
  case 0
  obtain s1 ok where a: "add_peer s (peer_domain peer) peer = (s1, ok)" by fastforce
  with 0 have "s' = s1" "peer' = peer" by (auto simp: add_peer_loop.simps split: bool.splits)
  with add_peer_cases [OF a] peer_own_token [of peer] show ?case by fast
next
  case (Suc n)
  obtain s1 ok where a: "add_peer s (peer_domain peer) peer = (s1, ok)" by fastforce
  show ?case
  proof (cases "ok \<or> get_peer_for_domain s1 (peer_domain peer) \<noteq> None")
    case True
    with a Suc.prems have "s' = s1" "peer' = peer" by (auto simp: add_peer_loop.simps split: bool.splits)
    with add_peer_cases [OF a] peer_own_token [of peer] show ?thesis by fast
  next
    case False
    let ?q = "peer\<lparr>auth := (auth peer)\<lparr>bearer_token_we_accept := get_token_string (rng i)\<rparr>\<rparr>"
    from False a have "add_peer s (peer_domain peer) peer = (s1, False)" by simp
    then have "s1 = s" using add_peer_cases [of s peer s1 False] by simp
    with False a Suc.prems have "add_peer_loop rng (Suc i) n s ?q = (s', peer', taken)"
      by (simp add: add_peer_loop.simps [of rng i "Suc n"])
    from Suc.IH [OF this] show ?thesis by simp
  qed
qed

text \<open>The text of a handshake as a peer sends it.\<close>

definition handshake_text :: "string \<Rightarrow> string \<Rightarrow> string \<Rightarrow> string" where
  "handshake_text domain secret token = domain @ [NL] @ secret @ [NL] @ token"

lemma parse_handshake_text:
  assumes "NL \<notin> set d" "NL \<notin> set secret" "NL \<notin> set token"
    and "d \<noteq> []" "secret \<noteq> []" "token \<noteq> []" "sig \<noteq> []"
  shows "parse_handshake_request gen now (handshake_text d secret token @ NL # sig) =
    Some (\<lparr>peer_domain = d, auth = peer_auth3 secret token gen now\<rparr>, sig)"
proof -
  let ?b = "d @ NL # secret @ NL # token @ NL # sig"
  have f1: "find_char ?b NL 0 = Some (length d)" using find_char_append_hit [OF assms(1)] by simp
  have f2: "find_char ?b NL (length d + 1) = Some (length d + 1 + length secret)"
    using find_char_hit_at [OF assms(2), of "d @ [NL]"] by simp
  have f3: "find_char ?b NL (length d + 1 + length secret + 1) = Some (length d + 1 + length secret + 1 + length token)"
    using find_char_hit_at [OF assms(3), of "d @ NL # secret @ [NL]"] by simp
  show ?thesis
    using assms(4-7) by (simp add: parse_handshake_request_def handshake_text_def f1 f2 [simplified] f3 [simplified]
        Let_def substr_def numeral_3_eq_3)
qed

section \<open>Properties\<close>

text \<open>
  C7. A request for a mod reaches it: with any method, for a mod with a path of one segment that
  neither the portal nor the federation interface claims, the mod gets \<open>/\<close>, the rest of the target
  after its name, or the query behind a slash. A slash in the query is the exception: then the
  root mod gets the whole target, unless some mod's path has the query in it.
\<close>

theorem mod_gets_its_requests:
  assumes "get_mod s nm = Some k" and "free_name nm"
    and "field_get (req_fields (s_req c)) ''Host'' \<in> {[], p_host p}"
  shows "(req_target (s_req c) = ''/'' @ nm \<longrightarrow>
      route_request p sha512 pw_salt b64 rng i s ps us c = Some (us, c, Inr (ToMod k ''/''), i)) \<and>
    (req_target (s_req c) = ''/'' @ nm @ ''/'' @ x \<longrightarrow>
      route_request p sha512 pw_salt b64 rng i s ps us c = Some (us, c, Inr (ToMod k (''/'' @ x)), i)) \<and>
    (req_target (s_req c) = ''/'' @ nm @ ''?'' @ q \<and> CHR ''/'' \<notin> set q \<longrightarrow>
      route_request p sha512 pw_salt b64 rng i s ps us c = Some (us, c, Inr (ToMod k (''/?'' @ q)), i)) \<and>
    (req_target (s_req c) = ''/'' @ nm @ ''?'' @ q @ ''/'' @ x \<and> CHR ''/'' \<notin> set q \<and>
       get_mod s (nm @ ''?'' @ q) = None \<and> get_mod s [] = Some rt \<longrightarrow>
      route_request p sha512 pw_salt b64 rng i s ps us c = Some (us, c, Inr (ToMod rt (req_target (s_req c))), i))"
proof (intro conjI impI)
  have sl: "CHR ''/'' \<notin> set nm" and qu: "CHR ''?'' \<notin> set nm" and ne: "nm \<noteq> []"
    using assms(2) by (simp_all add: free_name_def)
  note to_mod = route_to_mod [OF assms(2) _ _ assms(3), of _ sha512 pw_salt b64 rng i s ps us]
  {
    assume t: "req_target (s_req c) = ''/'' @ nm"
    show "route_request p sha512 pw_salt b64 rng i s ps us c = Some (us, c, Inr (ToMod k ''/''), i)"
      using to_mod [of "[]"] by_path_plain [OF sl qu ne, of s] t assms(1) by (simp add: ends_name_def request_mod_def)
  next
    assume t: "req_target (s_req c) = ''/'' @ nm @ ''/'' @ x"
    show "route_request p sha512 pw_salt b64 rng i s ps us c = Some (us, c, Inr (ToMod k (''/'' @ x)), i)"
      using to_mod [of "''/'' @ x"] by_path_slash [OF sl, of s x] t assms(1) by (simp add: ends_name_def request_mod_def)
  next
    assume "req_target (s_req c) = ''/'' @ nm @ ''?'' @ q \<and> CHR ''/'' \<notin> set q"
    then have t: "req_target (s_req c) = ''/'' @ nm @ ''?'' @ q" and q: "CHR ''/'' \<notin> set q" by simp_all
    show "route_request p sha512 pw_salt b64 rng i s ps us c = Some (us, c, Inr (ToMod k (''/?'' @ q)), i)"
      using to_mod [of "''?'' @ q"] by_path_query [OF sl qu ne q, of s] t assms(1)
      by (simp add: ends_name_def request_mod_def)
  next
    assume "req_target (s_req c) = ''/'' @ nm @ ''?'' @ q @ ''/'' @ x \<and> CHR ''/'' \<notin> set q \<and>
       get_mod s (nm @ ''?'' @ q) = None \<and> get_mod s [] = Some rt"
    then have t: "req_target (s_req c) = ''/'' @ nm @ ''?'' @ q @ ''/'' @ x" and q: "CHR ''/'' \<notin> set q"
      and m: "get_mod s (nm @ ''?'' @ q) = None" "get_mod s [] = Some rt" by simp_all
    show "route_request p sha512 pw_salt b64 rng i s ps us c = Some (us, c, Inr (ToMod rt (req_target (s_req c))), i)"
      using to_mod [of "''?'' @ q @ ''/'' @ x"] by_path_query_slash [OF sl q, of s x] t m
      by (simp add: ends_name_def request_mod_def)
  }
qed

definition demo_portal :: portal where
  "demo_portal = \<lparr>p_host = ''fiy.org'', p_protocol = ''https://'', p_federation = ENABLED, p_public_key = ''PEM'',
     p_now = 7, p_file = (\<lambda>_. []), p_login_body = (\<lambda>e. e), p_signup_body = (\<lambda>e. e), p_apps_body = (\<lambda>_. []),
     p_url_param = (\<lambda>_ _. Inr None)\<rparr>"

definition demo_mods :: Mods where
  "demo_mods = \<lparr>m_mods = [], m_mods_lookup = [''git'' \<mapsto> 1, [] \<mapsto> 0], m_mods_by_id = Map.empty,
     m_net_connectors = Map.empty\<rparr>"

definition demo_get :: "string \<Rightarrow> Session" where
  "demo_get t = new_session\<lparr>s_req := \<lparr>req_method = verb_get, req_target = t, req_fields = [(''Host'', ''fiy.org'')],
     req_body = []\<rparr>\<rparr>"

theorem mod_gets_its_requests_witness:
  "route_request demo_portal id [] id (\<lambda>_. []) 0 demo_mods no_peers demo_users (demo_get ''/git/a?b'') =
     Some (demo_users, demo_get ''/git/a?b'', Inr (ToMod 1 ''/a?b''), 0) \<and>
   route_request demo_portal id [] id (\<lambda>_. []) 0 demo_mods no_peers demo_users (demo_get ''/git?to=/a'') =
     Some (demo_users, demo_get ''/git?to=/a'', Inr (ToMod 0 ''/git?to=/a''), 0)"
proof -
  have g: "get_mod demo_mods ''git'' = Some 1" "get_mod demo_mods [] = Some 0"
    "get_mod demo_mods (''git'' @ ''?'' @ ''to='') = None"
    by (simp_all add: get_mod_def demo_mods_def)
  have f: "free_name ''git''" by (simp add: free_name_def starts_with_def)
  have h: "field_get (req_fields (s_req (demo_get t))) ''Host'' \<in> {[], p_host demo_portal}" for t
    by (simp add: demo_get_def demo_portal_def field_get_def same_name_def)
  have t: "req_target (s_req (demo_get t)) = t" for t by (simp add: demo_get_def)
  show ?thesis
    using mod_gets_its_requests [OF g(1) f h, of "''/git/a?b''" id "[]" id "\<lambda>_. []" 0 no_peers demo_users "''a?b''" "[]" 0]
      mod_gets_its_requests [OF g(1) f h, of "''/git?to=/a''" id "[]" id "\<lambda>_. []" 0 no_peers demo_users "''a''" "''to=''" 0] g t
    by simp
qed


definition demo_signup :: Session where
  "demo_signup = new_session\<lparr>m_cookies := [''a'' \<mapsto> ''b''],
     s_req := \<lparr>req_method = verb_post, req_target = ''/portal/signup'', req_fields = [],
               req_body = ''username=bob&password=x''\<rparr>\<rparr>"

lemma demo_signup_form:
  "parse_form_url_encoded (req_body (s_req demo_signup)) = Some [(''username'', ''bob''), (''password'', ''x'')]"
proof -
  have "req_body (s_req demo_signup) = form_body [(''username'', ''bob''), (''password'', ''x'')]"
    unfolding demo_signup_def by (simp, code_simp)
  then show ?thesis by (simp only:) code_simp
qed


text \<open>
  C12. An incoming handshake registers nobody without a signature: if the callback with the key
  changes the tables, federation data and signature were accepted under that key, the domain and
  the token were free, and exactly this peer was entered under both, with our half appended to the
  secret. But the answer of a server that has no key is not the end: the caller gets the error page
  with status 200, and if the check returns, a second answer.
\<close>

theorem incoming_handshake_checked:
  assumes "with_pubkey_cb verify sign rng i half ps peer sig res = (ps', answers, out)"
  shows "(ps' \<noteq> ps \<longrightarrow>
      verify (res_body res) (handshake_text (peer_domain peer) (sym_key (auth peer)) (bearer_token_we_send (auth peer))) sig
        = Inr True \<and>
      m_peers_out ps (peer_domain peer) = None \<and>
      (\<exists>q. peer_domain q = peer_domain peer \<and> sym_key (auth q) = sym_key (auth peer) @ half \<and>
         m_peers_in ps (bearer_token_we_accept (auth q)) = None \<and>
         m_peers_out ps' = (m_peers_out ps)(peer_domain peer \<mapsto> Some q) \<and>
         m_peers_in ps' = (m_peers_in ps)(bearer_token_we_accept (auth q) \<mapsto> Some q))) \<and>
    (out = Inr () \<longrightarrow> length answers = (if res_status res = 200 then 1 else 2)) \<and>
    (res_status res \<noteq> 200 \<longrightarrow> answers \<noteq> [] \<and> res_status (hd answers) = 200)"
proof -
  let ?txt = "handshake_text (peer_domain peer) (sym_key (auth peer)) (bearer_token_we_send (auth peer))"
  let ?first = "if res_status res \<noteq> 200
     then [respond_with 200 (''Failed to get public key from domain '' @ peer_domain peer)] else []"
  let ?peer1 = "peer\<lparr>auth := (auth peer)\<lparr>sym_key := sym_key (auth peer) @ half\<rparr>\<rparr>"
  have first: "length ?first = (if res_status res = 200 then 0 else 1)"
    "res_status res \<noteq> 200 \<Longrightarrow> ?first \<noteq> [] \<and> res_status (hd (?first @ xs)) = 200" for xs
    by (simp_all add: respond_with_def)
  note cb = assms [unfolded with_pubkey_cb_def Let_def, folded handshake_text_def]
  show ?thesis
  proof (cases "verify (res_body res) ?txt sig = Inr True")
    case False
    then have "ps' = ps \<and> (\<exists>xs. answers = ?first @ xs \<and> (out = Inr () \<longrightarrow> length xs = 1))"
      using cb by (auto simp: handshake_text_def split: sum.splits bool.splits)
    then show ?thesis using first by auto
  next
    case True
    obtain ps1 q taken where l: "add_peer_loop rng i 10 ps ?peer1 = (ps1, q, taken)" by (metis prod_cases3)
    from cb True l have ps': "ps' = ps1" and ans: "\<exists>xs. answers = ?first @ xs \<and> (out = Inr () \<longrightarrow> length xs = 1)"
      by (auto simp: handshake_text_def split: sum.splits if_splits)
    from add_peer_loop_result [OF l] obtain t where
      q: "q = ?peer1\<lparr>auth := (auth ?peer1)\<lparr>bearer_token_we_accept := t\<rparr>\<rparr>"
      and s: "ps1 = ps \<or> m_peers_out ps (peer_domain peer) = None \<and> m_peers_in ps (bearer_token_we_accept (auth q)) = None \<and>
        ps1 = \<lparr>m_peers_out = (m_peers_out ps)(peer_domain peer \<mapsto> Some q),
               m_peers_in = (m_peers_in ps)(bearer_token_we_accept (auth q) \<mapsto> Some q)\<rparr>" by auto
    have "peer_domain q = peer_domain peer" "sym_key (auth q) = sym_key (auth peer) @ half" by (simp_all add: q)
    with s ps' True ans first show ?thesis by auto
  qed
qed

theorem incoming_handshake_checked_witness:
  "\<exists>ps' answers. with_pubkey_cb (\<lambda>_ _ _. Inr False) Inr (\<lambda>_. [5]) 0 ''h'' no_peers demo_peer ''s'' (respond_with 500 ''oops'') =
      (ps', answers, Inr ()) \<and> length answers = 2 \<and> res_status (hd answers) = 200 \<and> ps' = no_peers"
proof -
  obtain answers where e: "with_pubkey_cb (\<lambda>_ _ _. Inr False) Inr (\<lambda>_. [5]) 0 ''h'' no_peers demo_peer ''s''
      (respond_with 500 ''oops'') = (no_peers, answers, Inr ())"
    by (simp add: with_pubkey_cb_def)
  show ?thesis using incoming_handshake_checked [OF e] e by (simp add: respond_with_def)
qed

text \<open>
  A genuine handshake is refused: whoever signs its own request correctly is told that the
  signature is wrong, because the callback checks it over other data, the request's token and a
  token that was drawn here. \<open>verify\<close> is an ideal signature scheme for the peer's key.
\<close>

theorem genuine_handshake_refused:
  assumes "\<And>x y. verify key x (sg y) = Inr (x = y)" and "\<And>x. sg x \<noteq> []"
    and "NL \<notin> set d" "NL \<notin> set secret" "NL \<notin> set token" "NL \<notin> set gen"
    and "d \<noteq> []" "secret \<noteq> []" "token \<noteq> []" "gen \<noteq> token"
    and "p_federation p = ENABLED" and "get_peer_for_domain ps d = None"
    and "res_status res = 200" and "res_body res = key"
  shows "\<exists>peer. peer_handshake p gen ps (handshake_text d secret token @ NL # sg (handshake_text d secret token)) =
      FetchKey (new_peer d) peer (sg (handshake_text d secret token)) \<and>
    with_pubkey_cb verify sign rng i half ps peer (sg (handshake_text d secret token)) res =
      (ps, [respond_with 401 ''Invalid signature''], Inr ())"
proof -
  let ?txt = "handshake_text d secret token"
  let ?peer = "\<lparr>peer_domain = d, auth = peer_auth3 secret token gen (p_now p)\<rparr>"
  have "peer_handshake p gen ps (?txt @ NL # sg ?txt) = FetchKey (new_peer d) ?peer (sg ?txt)"
    using parse_handshake_text [OF assms(3,4,5,7,8,9) assms(2) [of ?txt]] assms(11,12)
    by (simp add: peer_handshake_def)
  moreover have "handshake_text d token gen \<noteq> ?txt"
  proof
    assume "handshake_text d token gen = ?txt"
    then have e: "token @ NL # gen = secret @ NL # token" by (simp add: handshake_text_def)
    have "find_char (token @ NL # gen) NL 0 = Some (length token)"
      "find_char (secret @ NL # token) NL 0 = Some (length secret)"
      using find_char_append_hit [OF assms(5)] find_char_append_hit [OF assms(4)] by blast+
    with e have "gen = token" by simp
    with assms(10) show False by simp
  qed
  then have "verify key (handshake_text d token gen) (sg ?txt) = Inr False" by (simp add: assms(1))
  then have "with_pubkey_cb verify sign rng i half ps ?peer (sg ?txt) res = (ps, [respond_with 401 ''Invalid signature''], Inr ())"
    using assms(13,14) by (simp add: with_pubkey_cb_def handshake_text_def peer_auth3_def peer_auth4_def)
  ultimately show ?thesis by blast
qed

theorem genuine_handshake_refused_witness:
  "\<exists>peer. peer_handshake demo_portal ''gen'' no_peers (handshake_text ''b.org'' ''sec'' ''tok'' @ NL # CHR ''#'' # handshake_text ''b.org'' ''sec'' ''tok'') =
      FetchKey (new_peer ''b.org'') peer (CHR ''#'' # handshake_text ''b.org'' ''sec'' ''tok'') \<and>
    with_pubkey_cb (\<lambda>k x s. Inr (s = CHR ''#'' # x)) Inr (\<lambda>_. [5]) 0 ''h'' no_peers peer
      (CHR ''#'' # handshake_text ''b.org'' ''sec'' ''tok'') (respond_with 200 ''key'') =
      (no_peers, [respond_with 401 ''Invalid signature''], Inr ())"
proof -
  let ?v = "\<lambda>k x s. Inr (s = CHR ''#'' # x) :: bool result"
  have v: "?v ''key'' x (CHR ''#'' # y) = Inr (x = y)" for x y by auto
  show ?thesis
    by (rule genuine_handshake_refused [of ?v "''key''" "\<lambda>x. CHR ''#'' # x"])
      (auto simp: NL_def demo_portal_def get_peer_for_domain_def no_peers_def respond_with_def)
qed

end
