(* ===== verification/Templates.thy ===== *)
theory Templates
  imports FiyPrelude
begin

text \<open>
  \<open>util/MinSSR.hpp\<close> and the string operations of \<open>util/FileCache.hpp\<close>: expanding \<open>{{tag}}\<close> in a page,
  directly or over a template that was parsed before, and escaping text for a page. The tags are
  a list, sorted by the macros; the replacements a list of the same length, or one longer when the
  last one stands for every unknown tag. A position is a number; the loops work on positions of
  the whole text as the code's do.

  Shown: both ways of expanding agree, for any text, and put the rule's value for every known tag
  and nothing else; escaped text cannot leave its place in a page and is not confused with another;
  the expansion of \<open>FileCache\<close> does not return for an unclosed tag; \<open>replace_all\<close> returns.
\<close>

declare add_2_eq_Suc [simp del] add_2_eq_Suc' [simp del]

section \<open>Tags\<close>

text \<open>\<open>std::ranges::lower_bound\<close> on a sorted range.\<close>

definition lower_bound :: "string list \<Rightarrow> string \<Rightarrow> nat" where
  "lower_bound tags tag = length (takeWhile (\<lambda>t. t < tag) tags)"

definition tag_index :: "string list \<Rightarrow> string \<Rightarrow> nat" where
  "tag_index sorted_tags tag =
     (let it = lower_bound sorted_tags tag
      in if it = length sorted_tags \<or> sorted_tags ! it \<noteq> tag then length sorted_tags else it)"

definition sort_tags :: "string list \<Rightarrow> string list" where
  "sort_tags tags = sort tags"

section \<open>Direct expansion\<close>

text \<open>The first loop of \<open>mustache\<close>: where to replace by which index; an unknown tag is its negated length less 1.\<close>

function mustache_points :: "string \<Rightarrow> string list \<Rightarrow> nat \<Rightarrow> nat \<Rightarrow> (nat \<times> int) list" where
  "mustache_points t tags subs i =
     (case find_str_from t ''{{'' i of
        None \<Rightarrow> []
      | Some j \<Rightarrow>
          (case find_str_from t ''}}'' (j + 2) of
             None \<Rightarrow> []
           | Some e \<Rightarrow>
               (let tag = substr t (j + 2) (e - (j + 2));
                    idx = tag_index tags tag;
                    rest = mustache_points t tags subs (e + 2)
                in if idx < subs
                   then (j, if idx = length tags then - int (length tag) - 1 else int idx) # rest
                   else rest)))"
  by pat_completeness auto
termination
proof (relation "measure (\<lambda>(t, tags, subs, i). length t - i)", goal_cases)
  case (2 t tags subs i j e)
  from find_str_from_bound [OF 2(1)] find_str_from_bound [OF 2(2)] show ?case by (simp; linarith)
qed simp

declare mustache_points.simps [simp del]

text \<open>The second loop: the text between the points and the replacements.\<close>

fun mustache_output :: "string \<Rightarrow> string list \<Rightarrow> string list \<Rightarrow> nat \<Rightarrow> (nat \<times> int) list \<Rightarrow> string" where
  "mustache_output t tags subs i [] = drop i t"
| "mustache_output t tags subs i ((p, second) # ps) =
     substr t i (p - i) @
     (if second < 0 then subs ! (length subs - 1) else subs ! nat second) @
     mustache_output t tags subs
       (p + 4 + (if second < 0 then nat (- (second + 1)) else length (tags ! nat second))) ps"

definition mustache :: "string \<Rightarrow> string list \<Rightarrow> string list \<Rightarrow> string" where
  "mustache template_string sorted_tags substitutions =
     mustache_output template_string sorted_tags substitutions 0
       (mustache_points template_string sorted_tags (length substitutions) 0)"

section \<open>Parsed templates\<close>

record ParsedTemplate =
  stripped_template :: string
  substitution_points :: "(nat \<times> int) list"

text \<open>The first loop of the constructor; \<open>off\<close> is \<open>index_offset\<close>, a position in the stripped text.\<close>

function parsed_points :: "string \<Rightarrow> string list \<Rightarrow> bool \<Rightarrow> nat \<Rightarrow> nat \<Rightarrow> (nat \<times> int) list" where
  "parsed_points t tags leave_unknown prev off =
     (case find_str_from t ''{{'' prev of
        None \<Rightarrow> []
      | Some i \<Rightarrow>
          (let off1 = off + (i - prev)
           in case find_str_from t ''}}'' (i + 2) of
                None \<Rightarrow> []
              | Some e \<Rightarrow>
                  (let l = e - (i + 2); idx = tag_index tags (substr t (i + 2) l)
                   in if idx = length tags
                      then (if leave_unknown then parsed_points t tags leave_unknown (e + 2) (off1 + l + 4)
                            else (off1, -1 - int l) # parsed_points t tags leave_unknown (e + 2) off1)
                      else (off1, int idx) # parsed_points t tags leave_unknown (e + 2) off1)))"
  by pat_completeness auto
termination
proof (relation "measure (\<lambda>(t, tags, leave, i, off). length t - i)", goal_cases)
  case (2 t tags leave prev off i x e xa xb)
  from find_str_from_bound [OF 2(1)] find_str_from_bound [OF 2(3)] show ?case by (simp; linarith)
next
  case (3 t tags leave prev off i x e xa xb)
  from find_str_from_bound [OF 3(1)] find_str_from_bound [OF 3(3)] show ?case by (simp; linarith)
next
  case (4 t tags leave prev off i x e xa xb)
  from find_str_from_bound [OF 4(1)] find_str_from_bound [OF 4(3)] show ?case by (simp; linarith)
qed simp

declare parsed_points.simps [simp del]

text \<open>The second loop: the text without the replaced tags.\<close>

fun strip_tags :: "string \<Rightarrow> string list \<Rightarrow> nat \<Rightarrow> nat \<Rightarrow> (nat \<times> int) list \<Rightarrow> string" where
  "strip_tags t tags i off [] = (if i < length t then drop i t else [])"
| "strip_tags t tags i off ((p, second) # ps) =
     (let l = p - off
      in substr t i l @
         strip_tags t tags (i + l + 4 + (if second < 0 then nat (- second - 1) else length (tags ! nat second)))
           (off + l) ps)"

definition parse_template :: "string \<Rightarrow> string list \<Rightarrow> bool \<Rightarrow> ParsedTemplate" where
  "parse_template t sorted_tags leave_unknown =
     (let ps = parsed_points t sorted_tags leave_unknown 0 0
      in \<lparr>stripped_template = strip_tags t sorted_tags 0 0 ps, substitution_points = ps\<rparr>)"

fun process_points :: "string \<Rightarrow> string list \<Rightarrow> nat \<Rightarrow> (nat \<times> int) list \<Rightarrow> string" where
  "process_points stripped subs prev [] = drop prev stripped"
| "process_points stripped subs prev ((p, second) # ps) =
     substr stripped prev (p - prev) @
     (if second < 0 then subs ! (length subs - 1) else subs ! nat second) @
     process_points stripped subs p ps"

definition process :: "ParsedTemplate \<Rightarrow> string list \<Rightarrow> string" where
  "process tp substitutions = process_points (stripped_template tp) substitutions 0 (substitution_points tp)"

section \<open>The macros\<close>

text \<open>The rules of a page, and optionally the value for unknown tags.\<close>

definition rule_tags :: "(string \<times> string) list \<Rightarrow> string list" where
  "rule_tags rules = sort_tags (map fst rules)"

definition rule_replacements :: "(string \<times> string) list \<Rightarrow> string option \<Rightarrow> string list" where
  "rule_replacements rules unknown =
     (let tags = rule_tags rules;
          known = foldl (\<lambda>r kv. r[tag_index tags (fst kv) := snd kv]) (replicate (length tags) []) rules
      in case unknown of None \<Rightarrow> known | Some u \<Rightarrow> known @ [u])"

definition min_ssr_mustache :: "string \<Rightarrow> (string \<times> string) list \<Rightarrow> string option \<Rightarrow> string" where
  "min_ssr_mustache template_string rules unknown =
     process (parse_template template_string (rule_tags rules) (unknown = None)) (rule_replacements rules unknown)"

definition min_ssr_mustache_variable :: "string \<Rightarrow> (string \<times> string) list \<Rightarrow> string option \<Rightarrow> string" where
  "min_ssr_mustache_variable template_string rules unknown =
     mustache template_string (rule_tags rules) (rule_replacements rules unknown)"

section \<open>What a page should become\<close>

text \<open>Without positions: the first \<open>{{\<close> with a \<open>}}\<close> after it is replaced, then the rest of the page.\<close>

function expand :: "(string \<Rightarrow> string option) \<Rightarrow> string \<Rightarrow> string" where
  "expand f t =
     (case find_str ''{{'' t of
        None \<Rightarrow> t
      | Some j \<Rightarrow>
          (case find_str ''}}'' (drop (j + 2) t) of
             None \<Rightarrow> t
           | Some k \<Rightarrow>
               take j t @
               (case f (take k (drop (j + 2) t)) of
                  Some v \<Rightarrow> v
                | None \<Rightarrow> take (k + 4) (drop j t)) @
               expand f (drop (j + k + 4) t)))"
  by pat_completeness auto
termination
proof (relation "measure (\<lambda>(f, t). length t)", goal_cases)
  case (2 f t j k)
  from find_str_bound [OF 2(1)] show ?case by simp
qed simp

declare expand.simps [simp del]

definition rule_value :: "(string \<times> string) list \<Rightarrow> string option \<Rightarrow> string \<Rightarrow> string option" where
  "rule_value rules unknown tag =
     (case map_of (rev rules) tag of Some v \<Rightarrow> Some v | None \<Rightarrow> unknown)"

lemma lower_bound_sorted:
  assumes "sorted tags" "tag \<in> set tags"
  shows "lower_bound tags tag < length tags \<and> tags ! lower_bound tags tag = tag"
  using assms
proof (induction tags)
  case (Cons x xs)
  show ?case
  proof (cases "x < tag")
    case True
    with Cons show ?thesis by (auto simp: lower_bound_def)
  next
    case False
    with Cons.prems have "x = tag" by auto
    with False show ?thesis by (simp add: lower_bound_def)
  qed
qed simp

lemma tag_index_known:
  "sorted tags \<Longrightarrow> tag \<in> set tags \<Longrightarrow> tag_index tags tag < length tags \<and> tags ! tag_index tags tag = tag"
  using lower_bound_sorted [of tags tag] by (simp add: tag_index_def Let_def)

lemma tag_index_nth: "tag_index tags tag < length tags \<Longrightarrow> tags ! tag_index tags tag = tag"
  by (auto simp: tag_index_def Let_def split: if_splits)

lemma tag_index_le: "tag_index tags tag \<le> length tags"
  by (auto simp: tag_index_def lower_bound_def Let_def length_takeWhile_le)

lemma tag_index_unknown: "tag \<notin> set tags \<Longrightarrow> tag_index tags tag = length tags"
  using tag_index_nth [of tags tag] tag_index_le [of tags tag] by (metis le_neq_implies_less nth_mem)

lemma rule_tags_facts [simp]:
  "sorted (rule_tags rules)" "set (rule_tags rules) = fst ` set rules" "length (rule_tags rules) = length rules"
  by (simp_all add: rule_tags_def sort_tags_def)

text \<open>The next tag of a page seen from position \<open>i\<close>, in the terms of the loops and of \<open>expand\<close>.\<close>

lemma substr_split: "p \<le> i \<Longrightarrow> i \<le> j \<Longrightarrow> substr t p (j - p) = substr t p (i - p) @ substr t i (j - i)"
proof -
  assume "p \<le> i" "i \<le> j"
  then have "j - p = (i - p) + (j - i)" "p + (i - p) = i" by simp_all
  then show ?thesis unfolding substr_def by (metis drop_drop add.commute take_add)
qed

lemma substr_drop: "p \<le> i \<Longrightarrow> drop p t = substr t p (i - p) @ drop i t"
  by (simp add: substr_def) (metis append_take_drop_id drop_drop le_add_diff_inverse2)

lemma next_tag_none:
  assumes "i \<le> length t" "find_str_from t ''{{'' i = None"
  shows "expand val (drop i t) = drop i t"
  using assms by (simp add: expand.simps [of _ "drop i t"] find_str_from_def)

lemma next_tag_open:
  assumes "i \<le> length t" "find_str_from t ''{{'' i = Some j" "find_str_from t ''}}'' (j + 2) = None"
  shows "expand val (drop i t) = drop i t"
proof -
  from assms obtain k where k: "j = i + k" "find_str ''{{'' (drop i t) = Some k"
    by (auto simp: find_str_from_def)
  have "find_str ''}}'' (drop (j + 2) t) = None"
    using assms find_str_from_bound [OF assms(2)] by (auto simp: find_str_from_def)
  then show ?thesis using k by (simp add: expand.simps [of _ "drop i t"] ac_simps)
qed

lemma next_tag:
  assumes "i \<le> length t" "find_str_from t ''{{'' i = Some j" "find_str_from t ''}}'' (j + 2) = Some e"
  shows "expand val (drop i t) = substr t i (j - i) @
    (case val (substr t (j + 2) (e - (j + 2))) of Some v \<Rightarrow> v | None \<Rightarrow> substr t j (e + 2 - j)) @
    expand val (drop (e + 2) t)"
proof -
  from assms obtain k where k: "j = i + k" "find_str ''{{'' (drop i t) = Some k"
    by (auto simp: find_str_from_def)
  have jb: "j + 2 \<le> length t" using find_str_from_bound [OF assms(2)] by simp
  with assms(3) obtain n where n: "e = j + 2 + n" "find_str ''}}'' (drop (j + 2) t) = Some n"
    by (auto simp: find_str_from_def)
  have d: "drop (k + 2) (drop i t) = drop (j + 2) t" "drop k (drop i t) = drop j t"
    "drop (k + n + 4) (drop i t) = drop (e + 2) t" "n + 4 = e + 2 - j" "n = e - (j + 2)" "k = j - i"
    using k n by (simp_all add: ac_simps)
  show ?thesis
    unfolding expand.simps [of _ "drop i t"] k(2) option.case d(1) n(2) d(2,3)
    by (simp only: d(4) substr_def) (use d(5,6) in simp)
qed

lemma tag_length:
  "find_str_from t ''{{'' i = Some j \<Longrightarrow> find_str_from t ''}}'' (j + 2) = Some e \<Longrightarrow>
   length (substr t (j + 2) (e - (j + 2))) = e - (j + 2) \<and> i \<le> j \<and> j + 2 \<le> e \<and> e + 2 \<le> length t"
  using find_str_from_bound [of t "''{{''" i j] find_str_from_bound [of t "''}}''" "j + 2" e]
  by (simp add: substr_def min_def) linarith

text \<open>
  What an expansion may rely on: the replacement at a known tag's index is its value; with one
  replacement more than tags, that one is the value of every other tag; otherwise they have none.
\<close>

locale tag_values =
  fixes tags :: "string list" and subs :: "string list" and val :: "string \<Rightarrow> string option"
  assumes subs_length: "length subs = length tags \<or> length subs = length tags + 1"
    and known_value: "tag_index tags tag < length tags \<Longrightarrow> val tag = Some (subs ! tag_index tags tag)"
    and unknown_value: "tag_index tags tag = length tags \<Longrightarrow>
      val tag = (if length subs = length tags then None else Some (subs ! (length subs - 1)))"
begin

lemma replacement_of:
  assumes "tag_index tags tag < length subs"
  shows "val tag = Some (if tag_index tags tag = length tags then subs ! (length subs - 1)
                         else subs ! tag_index tags tag)"
  using assms known_value [of tag] unknown_value [of tag] subs_length tag_index_le [of tags tag]
  by (cases "tag_index tags tag = length tags") auto

lemma no_replacement: "\<not> tag_index tags tag < length subs \<Longrightarrow> val tag = None"
  using unknown_value [of tag] subs_length tag_index_le [of tags tag] by auto

text \<open>The two loops of \<open>mustache\<close>; \<open>p\<close> is the end of the last replacement, \<open>i\<close> of the last tag.\<close>

lemma mustache_output_expand:
  "p \<le> i \<Longrightarrow> i \<le> length t \<Longrightarrow>
   mustache_output t tags subs p (mustache_points t tags (length subs) i) =
   substr t p (i - p) @ expand val (drop i t)"
proof (induction "length t - i" arbitrary: p i rule: less_induct)
  case less
  note pi = less.prems
  show ?case
  proof (cases "find_str_from t ''{{'' i")
    case None
    then show ?thesis
      using pi next_tag_none [OF pi(2) None] substr_drop [OF pi(1)] by (simp add: mustache_points.simps)
  next
    case j: (Some j)
    show ?thesis
    proof (cases "find_str_from t ''}}'' (j + 2)")
      case None
      then show ?thesis using pi next_tag_open [OF pi(2) j None] substr_drop [OF pi(1)] j
        by (simp add: mustache_points.simps [of t tags _ i])
    next
      case e: (Some e)
      note b = tag_length [OF j e]
      define tag where "tag = substr t (j + 2) (e - (j + 2))"
      have lt: "length tag = e - (j + 2)" using b by (simp add: tag_def)
      have IH: "mustache_output t tags subs q (mustache_points t tags (length subs) (e + 2)) =
        substr t q (e + 2 - q) @ expand val (drop (e + 2) t)" if "q \<le> e + 2" for q
        by (rule less.hyps) (use that b in linarith)+
      note nt = next_tag [OF pi(2) j e, of val, folded tag_def]
      have "length (substr t (j + 2) (e - (j + 2))) = length tag" by (simp add: tag_def)
      then have mp: "mustache_points t tags (length subs) i =
        (if tag_index tags tag < length subs
         then (j, if tag_index tags tag = length tags then - int (length tag) - 1 else int (tag_index tags tag)) #
              mustache_points t tags (length subs) (e + 2)
         else mustache_points t tags (length subs) (e + 2))"
        by (simp add: mustache_points.simps [of t tags _ i] j e Let_def tag_def)
      show ?thesis
      proof (cases "tag_index tags tag < length subs")
        case True
        have "tag_index tags tag \<noteq> length tags \<Longrightarrow> tags ! tag_index tags tag = tag"
          using tag_index_nth tag_index_le le_neq_implies_less by blast
        moreover have "j + 4 + length tag = e + 2" using b lt by linarith
        moreover have "mustache_output t tags subs (e + 2) (mustache_points t tags (length subs) (e + 2)) =
          expand val (drop (e + 2) t)" using IH [of "e + 2"] by (simp add: substr_def)
        ultimately show ?thesis using True substr_split [of p i j t] pi b
          by (auto simp: mp nt replacement_of [OF True] ac_simps)
      next
        case False
        then show ?thesis
          using substr_split [of p i "e + 2" t] substr_split [of i j "e + 2" t] pi b IH [of p]
          by (simp add: mp nt no_replacement)
      qed
    qed
  qed
qed

text \<open>
  The loops of the constructor and of \<open>process\<close>: \<open>i\<close> and \<open>off0\<close> are the ends of the last
  replaced tag in the page and in the stripped text \<open>kept @ \<dots>\<close>, \<open>prev\<close> and \<open>off0 + (prev - i)\<close> those of
  the last tag.
\<close>

lemma process_expand:
  assumes "leave_unknown \<longleftrightarrow> length subs = length tags"
  shows "i \<le> prev \<Longrightarrow> prev \<le> length t \<Longrightarrow> length kept = off0 \<Longrightarrow>
    ps = parsed_points t tags leave_unknown prev (off0 + (prev - i)) \<Longrightarrow>
    process_points (kept @ strip_tags t tags i off0 ps) subs off0 ps =
    substr t i (prev - i) @ expand val (drop prev t)"
proof (induction "length t - prev" arbitrary: i prev off0 kept ps rule: less_induct)
  case less
  note pi = less.prems
  have last: "process_points (kept @ strip_tags t tags i off0 []) subs off0 [] =
      substr t i (prev - i) @ drop prev t"
    using pi substr_drop [OF pi(1), of t] by (cases "i < length t") (simp_all add: substr_def)
  show ?case
  proof (cases "find_str_from t ''{{'' prev")
    case None
    then show ?thesis using last next_tag_none [OF pi(2) None] pi(4) by (simp add: parsed_points.simps)
  next
    case j: (Some j)
    show ?thesis
    proof (cases "find_str_from t ''}}'' (j + 2)")
      case None
      then show ?thesis using last next_tag_open [OF pi(2) j None] pi(4) j
        by (simp add: parsed_points.simps [of t tags _ prev])
    next
      case e: (Some e)
      note b = tag_length [OF j e]
      define tag where "tag = substr t (j + 2) (e - (j + 2))"
      have lt: "length tag = e - (j + 2)" using b by (simp add: tag_def)
      have off: "off0 + (prev - i) + (j - prev) = off0 + (j - i)" using pi b by simp
      note nt = next_tag [OF pi(2) j e, of val, folded tag_def]
      have ps: "ps = (if tag_index tags tag = length tags
           then (if leave_unknown then parsed_points t tags leave_unknown (e + 2) (off0 + (j - i) + length tag + 4)
                 else (off0 + (j - i), -1 - int (length tag)) # parsed_points t tags leave_unknown (e + 2) (off0 + (j - i)))
           else (off0 + (j - i), int (tag_index tags tag)) # parsed_points t tags leave_unknown (e + 2) (off0 + (j - i)))"
        unfolding pi(4) parsed_points.simps [of t tags _ prev] j e option.case Let_def off tag_def using b by simp
      show ?thesis
      proof (cases "tag_index tags tag < length subs")
        case True
        define kept' where "kept' = kept @ substr t i (j - i)"
        have ls: "length (substr t i (j - i)) = j - i" using pi b by (simp add: substr_def min_def) linarith
        then have lk: "length kept' = off0 + (j - i)" using pi by (simp add: kept'_def)
        define qs where "qs = parsed_points t tags leave_unknown (e + 2) (off0 + (j - i))"
        define sec where
          "sec = (if tag_index tags tag = length tags then -1 - int (length tag) else int (tag_index tags tag))"
        have IH: "process_points (kept' @ strip_tags t tags (e + 2) (off0 + (j - i)) qs) subs (off0 + (j - i)) qs =
            expand val (drop (e + 2) t)"
          using less.hyps [of "e + 2" "e + 2" kept' "off0 + (j - i)" qs] b lk qs_def by (simp add: substr_def) linarith
        have psq: "ps = (off0 + (j - i), sec) # qs"
          using True assms subs_length by (auto simp: ps qs_def sec_def)
        have "tag_index tags tag \<noteq> length tags \<Longrightarrow> tags ! tag_index tags tag = tag"
          using tag_index_nth tag_index_le le_neq_implies_less by blast
        then have pos: "i + (j - i) + 4 + (if sec < 0 then nat (- sec - 1) else length (tags ! nat sec)) = e + 2"
          using b lt pi by (simp add: sec_def) linarith
        have strip: "strip_tags t tags i off0 ps =
            substr t i (j - i) @ strip_tags t tags (e + 2) (off0 + (j - i)) qs"
          by (simp only: psq strip_tags.simps Let_def diff_add_inverse pos)
        have rep: "val tag = Some (if sec < 0 then subs ! (length subs - 1) else subs ! nat sec)"
          by (simp add: replacement_of [OF True] sec_def)
        have slice: "substr (kept @ substr t i (j - i) @ u) off0 (j - i) = substr t i (j - i)" for u
          using pi ls by (simp add: substr_def [of "kept @ _"])
        have proc: "process_points S subs off0 ps = substr S off0 (j - i) @
            (if sec < 0 then subs ! (length subs - 1) else subs ! nat sec) @
            process_points S subs (off0 + (j - i)) qs" for S
          by (simp add: psq)
        have "process_points (kept @ strip_tags t tags i off0 ps) subs off0 ps =
            substr t i (j - i) @ (if sec < 0 then subs ! (length subs - 1) else subs ! nat sec) @
            expand val (drop (e + 2) t)"
          using IH unfolding strip proc slice kept'_def append_assoc by simp
        then show ?thesis using substr_split [of i prev j t] pi b by (simp add: nt rep)
      next
        case False
        then have "leave_unknown" "tag_index tags tag = length tags"
          using assms subs_length tag_index_le [of tags tag] by auto
        moreover have pos: "off0 + (j - i) + length tag + 4 = off0 + (e + 2 - i)" using b lt pi by linarith
        ultimately have "ps = parsed_points t tags leave_unknown (e + 2) (off0 + (e + 2 - i))"
          using ps unfolding pos by simp
        moreover have "length t - (e + 2) < length t - prev" using b by linarith
        ultimately show ?thesis
          using less.hyps [of "e + 2" i kept off0 ps] substr_split [of i prev "e + 2" t]
            substr_split [of prev j "e + 2" t] pi b
          by (simp add: nt no_replacement [OF False])
      qed
    qed
  qed
qed

end

section \<open>The macros put the rules' values\<close>

definition set_replacements :: "string list \<Rightarrow> (string \<times> string) list \<Rightarrow> string list \<Rightarrow> string list" where
  "set_replacements tags rules r = foldl (\<lambda>r kv. r[tag_index tags (fst kv) := snd kv]) r rules"

lemma set_replacements_length [simp]: "length (set_replacements tags rules r) = length r"
  unfolding set_replacements_def by (induction rules arbitrary: r) auto

lemma set_replacements_value:
  assumes "sorted tags" "length r = length tags"
  shows "fst ` set rules \<subseteq> set tags \<Longrightarrow> tag \<in> fst ` set rules \<Longrightarrow>
    map_of (rev rules) tag = Some (set_replacements tags rules r ! tag_index tags tag)"
proof (induction rules rule: rev_induct)
  case (snoc kv rules)
  obtain k v where kv: "kv = (k, v)" by (cases kv)
  have k: "tag_index tags k < length tags" "tags ! tag_index tags k = k"
    using tag_index_known [OF assms(1), of k] snoc.prems(1) kv by auto
  have step: "set_replacements tags (rules @ [(k, v)]) r = (set_replacements tags rules r)[tag_index tags k := v]"
    by (simp add: set_replacements_def)
  show ?case
  proof (cases "tag = k")
    case True
    then show ?thesis using k assms(2) by (simp add: step kv)
  next
    case False
    then have tag: "tag \<in> fst ` set rules" using snoc.prems(2) kv by auto
    then have "tags ! tag_index tags tag = tag"
      using tag_index_known [OF assms(1), of tag] snoc.prems(1) by auto
    then have "tag_index tags k \<noteq> tag_index tags tag" using False k(2) by auto
    then show ?thesis using snoc.IH [OF _ tag] snoc.prems(1) False by (simp add: step kv)
  qed
qed simp

lemma rule_replacements_eq:
  "rule_replacements rules unknown =
   set_replacements (rule_tags rules) rules (replicate (length rules) []) @ (case unknown of None \<Rightarrow> [] | Some u \<Rightarrow> [u])"
  by (simp add: rule_replacements_def set_replacements_def Let_def split: option.split)

interpretation rules: tag_values "rule_tags rules" "rule_replacements rules unknown" "rule_value rules unknown"
  for rules unknown
proof (unfold_locales, goal_cases)
  case 1
  show ?case by (simp add: rule_replacements_eq split: option.split)
next
  case (2 tag)
  then have "tag \<in> fst ` set rules"
    using tag_index_nth [of "rule_tags rules" tag] nth_mem [of "tag_index (rule_tags rules) tag" "rule_tags rules"] by simp
  then have "map_of (rev rules) tag =
      Some (set_replacements (rule_tags rules) rules (replicate (length rules) []) ! tag_index (rule_tags rules) tag)"
    by (intro set_replacements_value) simp_all
  then show ?case using 2 by (simp add: rule_value_def rule_replacements_eq nth_append)
next
  case (3 tag)
  have "tag \<notin> fst ` set rules" using tag_index_known [of "rule_tags rules" tag] 3 by auto
  then have "map_of (rev rules) tag = None" by (simp add: map_of_eq_None_iff)
  then show ?case by (simp add: rule_value_def rule_replacements_eq nth_append split: option.split)
qed

text \<open>
  C15. For every page, every list of rules and every value for unknown tags, the macros that parse the
  page once and the ones that expand it directly give the same page: each tag that has a rule is
  replaced by its last rule's value, every other one by the value for unknown tags or left as it
  is; a \<open>{{\<close> that is not closed ends the expansion.
\<close>

theorem mustache_expands:
  "min_ssr_mustache page rules unknown = expand (rule_value rules unknown) page \<and>
   min_ssr_mustache_variable page rules unknown = expand (rule_value rules unknown) page"
proof
  have "(unknown = None) = (length (rule_replacements rules unknown) = length (rule_tags rules))"
    by (cases unknown) (simp_all add: rule_replacements_eq)
  from rules.process_expand [OF this, of 0 0 page "[]" 0, OF _ _ _ refl]
  show "min_ssr_mustache page rules unknown = expand (rule_value rules unknown) page"
    by (simp add: min_ssr_mustache_def process_def parse_template_def Let_def substr_def)
  show "min_ssr_mustache_variable page rules unknown = expand (rule_value rules unknown) page"
    using rules.mustache_output_expand [of 0 0 page rules unknown]
    by (simp add: min_ssr_mustache_variable_def mustache_def substr_def)
qed

section \<open>Escaping\<close>

text \<open>\<open>MinSSR::escape_html\<close>.\<close>

fun escape_char :: "char \<Rightarrow> string" where
  "escape_char c =
     (if c = CHR ''<'' then ''&lt;''
      else if c = CHR ''&'' then ''&amp;''
      else if c = CHR ''>'' then ''&gt;''
      else if c = CHR 0x27 then ''&apos;''
      else if c = CHR 0x22 then ''&quot;''
      else [c])"

definition escape_html :: "string \<Rightarrow> string" where
  "escape_html non_html = concat (map escape_char non_html)"

text \<open>The text that a browser shows for escaped text; \<open>entities\<close> are those of \<open>escape_html\<close>.\<close>

definition entities :: "(string \<times> char) list" where
  "entities = [(''&lt;'', CHR ''<''), (''&amp;'', CHR ''&''), (''&gt;'', CHR ''>''),
               (''&apos;'', CHR 0x27), (''&quot;'', CHR 0x22)]"

function shown_text :: "string \<Rightarrow> string" where
  "shown_text [] = []"
| "shown_text (c # cs) =
     (case List.find (\<lambda>(e, d). starts_with (c # cs) e) entities of
        Some (e, d) \<Rightarrow> d # shown_text (drop (length e - 1) cs)
      | None \<Rightarrow> c # shown_text cs)"
  by pat_completeness auto
termination by (relation "measure length") auto

lemma shown_text_escape_char: "shown_text (escape_char c @ s) = c # shown_text s"
  by (auto simp: entities_def starts_with_def)

text \<open>
  C35. Text put into a page after \<open>escape_html\<close> cannot open a tag or leave a quoted attribute, and is
  shown as the text it was; so two different texts stay different.
\<close>

theorem escape_html_safe:
  "set (escape_html s) \<inter> {CHR ''<'', CHR ''>'', CHR 0x27, CHR 0x22} = {} \<and> shown_text (escape_html s) = s"
proof
  have "set (escape_char c) \<inter> {CHR ''<'', CHR ''>'', CHR 0x27, CHR 0x22} = {}" for c by auto
  then show "set (escape_html s) \<inter> {CHR ''<'', CHR ''>'', CHR 0x27, CHR 0x22} = {}"
    unfolding escape_html_def by auto
  show "shown_text (escape_html s) = s"
    unfolding escape_html_def by (induction s) (simp_all del: escape_char.simps add: shown_text_escape_char)
qed

section \<open>The loops of \<open>FileCache\<close>\<close>

text \<open>\<open>FileCache::replace_all\<close>; \<open>None\<close> when the loop does not end.\<close>

partial_function (option) replace_loop :: "string \<Rightarrow> string \<Rightarrow> nat \<Rightarrow> string \<Rightarrow> string option" where
  "replace_loop needle replacement i haystack =
     (case find_str_from haystack needle i of
        None \<Rightarrow> Some haystack
      | Some j \<Rightarrow>
          replace_loop needle replacement (j + length replacement)
            (take j haystack @ replacement @ drop (j + length needle) haystack))"

definition replace_all :: "string \<Rightarrow> string \<Rightarrow> string \<Rightarrow> string option" where
  "replace_all haystack needle replacement = replace_loop needle replacement 0 haystack"

fun replace_all_rules :: "string \<Rightarrow> (string \<times> string) list \<Rightarrow> string option" where
  "replace_all_rules template_string [] = Some template_string"
| "replace_all_rules template_string ((needle, to) # rules) =
     Option.bind (replace_all template_string needle to) (\<lambda>t. replace_all_rules t rules)"

function replaced :: "string \<Rightarrow> string \<Rightarrow> string \<Rightarrow> string" where
  "replaced needle replacement s =
     (case if needle = [] then None else find_str needle s of
        None \<Rightarrow> s
      | Some j \<Rightarrow> take j s @ replacement @ replaced needle replacement (drop (j + length needle) s))"
  by pat_completeness auto
termination
proof (relation "measure (\<lambda>(needle, replacement, s). length s)", goal_cases)
  case (2 needle replacement s j)
  then have "find_str needle s = Some j" "needle \<noteq> []" by (auto split: if_splits)
  from find_str_bound [OF this(1)] this(2) show ?case by (cases needle) auto
qed simp

declare replaced.simps [simp del]

lemma replace_loop_replaced:
  assumes "needle \<noteq> []"
  shows "i = length front \<Longrightarrow>
    replace_loop needle replacement i (front @ s) = Some (front @ replaced needle replacement s)"
proof (induction "length s" arbitrary: i front s rule: less_induct)
  case less
  have f: "find_str_from (front @ s) needle i = map_option (\<lambda>j. length front + j) (find_str needle s)"
    using less.prems by (simp add: find_str_from_def)
  show ?case
  proof (cases "find_str needle s")
    case None
    then show ?thesis using assms by (simp add: replace_loop.simps [of _ _ i] replaced.simps [of _ _ s] f)
  next
    case (Some j)
    note b = find_str_bound [OF Some]
    have "length (drop (j + length needle) s) < length s" using b assms by (cases needle) auto
    from less.hyps [OF this, of "length front + j + length replacement" "front @ take j s @ replacement"] b
    show ?thesis using Some assms
      by (simp add: replace_loop.simps [of _ _ i] replaced.simps [of _ _ s] f)
  qed
qed

text \<open>
  \<open>replace_all\<close> returns for every non-empty needle, also when the replacement contains it, with every
  occurrence from the left replaced.
\<close>

theorem replace_all_returns:
  "needle \<noteq> [] \<Longrightarrow> replace_all haystack needle replacement = Some (replaced needle replacement haystack)"
  using replace_loop_replaced [of needle 0 "[]" replacement haystack] by (simp add: replace_all_def)

theorem replace_all_returns_witness: "replace_all ''aXbX'' ''X'' ''XX'' = Some ''aXXbXX''"
  using replace_all_returns [of "''X''" "''aXbX''" "''XX''"]
  by (simp add: replaced.simps starts_with_def)

text \<open>
  \<open>FileCache::mustache\<close>. For a tag that is not closed \<open>end\<close> is \<open>npos\<close>, the rest of the page the tag,
  and \<open>end + 2\<close> wraps to 1.
\<close>

partial_function (option) file_mustache_loop :: "(string \<times> string) list \<Rightarrow> nat \<Rightarrow> string \<Rightarrow> string option" where
  "file_mustache_loop rules i t =
     (case find_str_from t ''{{'' i of
        None \<Rightarrow> Some t
      | Some j \<Rightarrow>
          (let e = find_str_from t ''}}'' (j + 2);
               tag = substr_to t (j + 2) e
           in case map_of rules tag of
                Some v \<Rightarrow> file_mustache_loop rules (j + length v) (take j t @ v @ drop (j + length tag + 4) t)
              | None \<Rightarrow> file_mustache_loop rules (case e of Some k \<Rightarrow> k + 2 | None \<Rightarrow> 1) t))"

definition file_mustache :: "string \<Rightarrow> (string \<times> string) list \<Rightarrow> string option" where
  "file_mustache template_string rules = file_mustache_loop rules 0 template_string"

text \<open>An unknown tag that is not closed and does not start the page keeps the loop from ending.\<close>

lemma file_mustache_stuck:
  assumes "find_str_from t ''{{'' 1 = Some j" "find_str_from t ''}}'' (j + 2) = None"
    "map_of rules (drop (j + 2) t) = None"
  shows "file_mustache_loop rules 1 t = None"
proof (rule ccontr)
  assume "file_mustache_loop rules 1 t \<noteq> None"
  then obtain y where y: "file_mustache_loop rules 1 t = Some y" by auto
  have "\<not> (r = rules \<and> i = 1 \<and> u = t)" if "file_mustache_loop r i u = Some y" for r i u y
    using that
  proof (induction rule: file_mustache_loop.raw_induct [rotated, consumes 1, case_names step])
    case (step loop r i u y)
    then show ?case using assms by (fastforce simp: substr_to_def Let_def)
  qed
  with y show False by blast
qed

text \<open>
  A page with an unknown tag that is opened after its first character and not closed is never
  expanded by \<open>FileCache::mustache\<close>: the search starts again at position 1, for ever. The expansion
  of \<open>MinSSR\<close> returns the page.
\<close>

theorem open_tag_never_returns:
  assumes "find_str_from page ''{{'' 0 = Some j" "0 < j" "find_str_from page ''}}'' (j + 2) = None"
    "map_of rules (drop (j + 2) page) = None"
  shows "file_mustache page rules = None \<and> min_ssr_mustache_variable page rules unknown = page"
proof
  obtain c cs where page: "page = c # cs" using assms(1) by (cases page) (auto simp: find_str_from_def)
  have "find_str_from page ''{{'' 1 = Some j"
    using assms(1,2) by (auto simp: find_str_from_def page split: if_splits)
  then have "file_mustache_loop rules 1 page = None" using assms(3,4) by (rule file_mustache_stuck)
  then show "file_mustache page rules = None"
    using assms by (simp add: file_mustache_def file_mustache_loop.simps [of _ 0] substr_to_def Let_def)
  show "min_ssr_mustache_variable page rules unknown = page"
    using next_tag_open [OF _ assms(1,3)] rules.mustache_output_expand [of 0 0 page rules unknown]
    by (simp add: min_ssr_mustache_variable_def mustache_def substr_def)
qed

theorem open_tag_never_returns_witness:
  "file_mustache ''a{{b'' [(''c'', ''d'')] = None \<and> min_ssr_mustache_variable ''a{{b'' [(''c'', ''d'')] None = ''a{{b''"
  using open_tag_never_returns [of "''a{{b''" 1 "[(''c'', ''d'')]" None]
  by (simp add: find_str_from_def starts_with_def)

end
