(* ===== verification/ModRouter.thy ===== *)
theory ModRouter
  imports FiyApi WebUtils
begin

text \<open>
  \<open>modlib/Router.hpp\<close>: the router that a mod can use for its requests. A handler is a value of any
  type; which one is called with which parameters is the value of \<open>router_handle_request\<close>.
  The loop of \<open>parse_route\<close> may not end: then the parsed route is \<open>None\<close>.

  Shown: a request is matched segment by segment; a route with two slashes is never entered, one
  with fewer matches only a path without segments.
\<close>

record 'h Route =
  route_parts :: "string list"
  route_handler :: 'h

record ('h, 'n) mod_router =
  m_routes :: "nat \<rightharpoonup> 'h Route list"
  m_not_found_handler :: "'n option"

section \<open>Routes\<close>

definition route_part :: "string \<Rightarrow> string" where
  "route_part part = (if part = ''{}'' then [] else if part = CHR 0x5C # ''{}'' then ''{}'' else part)"

text \<open>The loop of \<open>parse_route\<close>: \<open>i\<close> is put on the slash, where the next search finds it again.\<close>

partial_function (option) parse_route_loop :: "string \<Rightarrow> nat \<Rightarrow> string list \<Rightarrow> string list option" where
  "parse_route_loop path i parts =
     (case find_char path (CHR ''/'') i of
        None \<Rightarrow> Some parts
      | Some slash \<Rightarrow> parse_route_loop path slash (parts @ [route_part (substr path i (slash - i))]))"

definition parse_route :: "string \<Rightarrow> 'h \<Rightarrow> 'h Route option" where
  "parse_route path handler =
     map_option (\<lambda>ps. \<lparr>route_parts = ps, route_handler = handler\<rparr>) (parse_route_loop path 1 [])"

text \<open>\<open>m_routes[method].emplace_back\<close>.\<close>

definition add_route :: "('h, 'n) mod_router \<Rightarrow> nat \<Rightarrow> string \<Rightarrow> 'h \<Rightarrow> ('h, 'n) mod_router option" where
  "add_route r verb path handler =
     map_option
       (\<lambda>rt. r\<lparr>m_routes := (m_routes r)(verb \<mapsto> (case m_routes r verb of None \<Rightarrow> [] | Some rs \<Rightarrow> rs) @ [rt])\<rparr>)
       (parse_route path handler)"

definition METHOD_GET :: nat where
  "METHOD_GET = 2"

definition router_get :: "('h, 'n) mod_router \<Rightarrow> string \<Rightarrow> 'h \<Rightarrow> ('h, 'n) mod_router option" where
  "router_get r path handler = add_route r METHOD_GET path handler"

definition set_not_found :: "('h, 'n) mod_router \<Rightarrow> 'n \<Rightarrow> ('h, 'n) mod_router" where
  "set_not_found r handler = r\<lparr>m_not_found_handler := Some handler\<rparr>"

section \<open>Requests\<close>

function match_loop :: "string list \<Rightarrow> string \<Rightarrow> nat \<Rightarrow> nat \<Rightarrow> string list option" where
  "match_loop parts path start i =
     (let e = find_char path (CHR ''/'') start;
          segment = (case e of None \<Rightarrow> drop start path | Some k \<Rightarrow> substr path start (k - start));
          continue = (\<lambda>j. case e of
            None \<Rightarrow> if j \<noteq> length parts then None else Some []
          | Some k \<Rightarrow> match_loop parts path (k + 1) j)
      in if segment = [] then continue i
         else if i \<ge> length parts then None
         else if parts ! i = [] then map_option ((#) segment) (continue (i + 1))
         else if segment \<noteq> parts ! i then None
         else continue (i + 1))"
  by pat_completeness auto
termination
  by (relation "measure (\<lambda>(parts, path, start, i). Suc (length path) - start)")
    (auto dest!: find_char_Some_bound [OF sym])

declare match_loop.simps [simp del]

definition match :: "string \<Rightarrow> 'h Route \<Rightarrow> string list option" where
  "match path route = match_loop (route_parts route) path 0 0"

text \<open>
  A parameter is a view into the \<open>std::string\<close> that \<open>match\<close> got as a temporary: when the handler is
  called it no longer points to a string; what it pointed to is kept for the statements.
\<close>

datatype param = DanglingView string

datatype ('h, 'n) routed =
    Handled 'h "param list"
  | NotFoundHandled 'n
  | Unhandled

fun first_match :: "string \<Rightarrow> 'h Route list \<Rightarrow> ('h \<times> string list) option" where
  "first_match path [] = None"
| "first_match path (route # routes) =
     (case match path route of
        Some params \<Rightarrow> Some (route_handler route, params)
      | None \<Rightarrow> first_match path routes)"

definition router_handle_request :: "('h, 'n) mod_router \<Rightarrow> nat \<Rightarrow> string \<Rightarrow> ('h, 'n) routed" where
  "router_handle_request r verb path =
     (case (case m_routes r verb of None \<Rightarrow> None | Some routes \<Rightarrow> first_match path routes) of
        Some (h, params) \<Rightarrow> Handled h (map DanglingView params)
      | None \<Rightarrow> (case m_not_found_handler r of Some n \<Rightarrow> NotFoundHandled n | None \<Rightarrow> Unhandled))"

section \<open>Matching is by segment\<close>

lemma split_on_find:
  "split_on d s = (case find_char s d 0 of None \<Rightarrow> [s] | Some k \<Rightarrow> take k s # split_on d (drop (Suc k) s))"
proof (induction s)
  case (Cons c cs)
  then show ?case by (auto simp: find_char_def Let_def)
qed simp

lemma find_char_drop: "find_char s d i = map_option ((+) i) (find_char (drop i s) d 0)"
  by (auto simp: find_char_def Let_def)

fun match_segments :: "string list \<Rightarrow> string list \<Rightarrow> string list option" where
  "match_segments [] [] = Some []"
| "match_segments (p # ps) (s # ss) =
     (if p = [] then map_option ((#) s) (match_segments ps ss)
      else if s = p then match_segments ps ss else None)"
| "match_segments _ _ = None"

definition segments :: "string \<Rightarrow> string list" where
  "segments path = filter (\<lambda>s. s \<noteq> []) (split_on (CHR ''/'') path)"

lemma match_loop_segments:
  "start \<le> length path \<Longrightarrow> i \<le> length parts \<Longrightarrow>
   match_loop parts path start i = match_segments (drop i parts) (segments (drop start path))"
proof (induction "length path - start" arbitrary: start i rule: less_induct)
  case less
  have step: "match_segments (drop i parts) (s # ss) =
      (if i \<ge> length parts then None
       else if parts ! i = [] then map_option ((#) s) (match_segments (drop (i + 1) parts) ss)
       else if s = parts ! i then match_segments (drop (i + 1) parts) ss else None)" for s ss
    by (cases "i < length parts") (simp_all add: Cons_nth_drop_Suc [symmetric])
  have end_of: "match_segments (drop j parts) [] = (if j \<noteq> length parts then None else Some [])"
    if "j \<le> length parts" for j
    using that by (cases "drop j parts") auto
  show ?case
  proof (cases "find_char (drop start path) (CHR ''/'') 0")
    case None
    then show ?thesis
      using less.prems step end_of [of i] end_of [of "i + 1"] 
      by (auto simp: match_loop.simps [of parts path start] find_char_drop [of path _ start]
          segments_def split_on_find [of _ "drop start path"] Let_def)
  next
    case (Some k)
    then have k: "find_char path (CHR ''/'') start = Some (start + k)" "k < length path - start"
      using find_char_Some_bound [OF Some] by (simp_all add: find_char_drop [of path _ start])
    have IH: "match_loop parts path (start + k + 1) j =
        match_segments (drop j parts) (segments (drop (start + k + 1) path))" if "j \<le> length parts" for j
      by (rule less.hyps) (use that k in auto)
    have "segments (drop start path) =
        (if take k (drop start path) = [] then [] else [take k (drop start path)]) @
        segments (drop (start + k + 1) path)"
      using Some by (simp add: segments_def split_on_find [of _ "drop start path"] add.commute)
    then show ?thesis
      using less.prems IH [of i] IH [of "i + 1"] step
      by (auto simp: match_loop.simps [of parts path start] k substr_def Let_def)
  qed
qed

text \<open>
  A route matches a path exactly when the path has as many non-empty segments as the route has
  parts and each literal part is the segment at its place; the handler gets the segments at the
  places of the parameters, in order.
\<close>

theorem match_by_segment: "match path route = match_segments (route_parts route) (segments path)"
  unfolding match_def using match_loop_segments [of 0 path 0 "route_parts route"] by simp

section \<open>Routes that cannot be entered\<close>

lemma parse_route_stuck:
  assumes "path ! i = CHR ''/''" "i < length path"
  shows "parse_route_loop path i parts = None"
proof (rule ccontr)
  assume "parse_route_loop path i parts \<noteq> None"
  then obtain y where y: "parse_route_loop path i parts = Some y" by auto
  have f: "find_char path (CHR ''/'') i = Some i"
    using assms by (simp add: find_char_def Cons_nth_drop_Suc [symmetric])
  have "\<not> (p = path \<and> j = i)" if "parse_route_loop p j ps = Some y" for p j ps y
    using that
  proof (induction rule: parse_route_loop.raw_induct [rotated, consumes 1, case_names step])
    case (step loop p j ps y)
    then show ?case using f by fastforce
  qed
  with y show False by blast
qed

lemma parse_route_cases:
  "parse_route path h =
     (if CHR ''/'' \<in> set (drop 1 path) then None else Some \<lparr>route_parts = [], route_handler = h\<rparr>)"
proof (cases "find_char path (CHR ''/'') 1")
  case None
  then show ?thesis
    using find_char_None_iff [of path "CHR ''/''" 1] by (simp add: parse_route_def parse_route_loop.simps)
next
  case (Some k)
  have "parse_route_loop path k ps = None" for ps
    using find_char_Some_bound [OF Some] find_char_Some_nth [OF Some] by (intro parse_route_stuck) auto
  moreover have "CHR ''/'' \<in> set (drop 1 path)"
    using find_char_None_iff [of path "CHR ''/''" 1] Some by auto
  ultimately show ?thesis using Some by (simp add: parse_route_def parse_route_loop.simps [of path "Suc 0"])
qed

text \<open>
  \<open>add_route\<close> does not return for a path with a slash after its first character; every other
  path, whatever it says, becomes a route that matches the paths without a segment and no other:
  a mod's handlers answer only the root, or nothing.
\<close>

theorem routes_match_only_root:
  "(CHR ''/'' \<in> set (drop 1 path) \<longrightarrow> add_route r verb path h = None) \<and>
   (\<forall>r'. add_route r verb path h = Some r' \<longrightarrow>
      (\<exists>rs rt. m_routes r' verb = Some (rs @ [rt]) \<and> route_handler rt = h \<and>
        (\<forall>target. match target rt \<noteq> None \<longleftrightarrow> segments target = [])))"
proof -
  have "match_segments [] ss \<noteq> None \<longleftrightarrow> ss = []" for ss by (cases ss) auto
  then show ?thesis
    by (auto simp: add_route_def parse_route_cases match_by_segment segments_def)
qed

end
