(* ===== verification/Paths.thy ===== *)
theory Paths
  imports FiyPrelude WebUtils
begin

text \<open>
  What the mods use of \<open>std::filesystem\<close>: paths as POSIX text, their elements, \<open>operator/\<close>,
  \<open>extension\<close>, \<open>lexically_normal\<close>, \<open>lexically_relative\<close>; the file system of the operating system is a
  record of functions, which a file operation that throws \<open>filesystem_error\<close> answers with \<open>None\<close>.
\<close>

section \<open>Paths\<close>

abbreviation SLASH :: char where
  "SLASH \<equiv> CHR ''/''"

definition is_absolute :: "string \<Rightarrow> bool" where
  "is_absolute p \<longleftrightarrow> p \<noteq> [] \<and> hd p = SLASH"

text \<open>The elements that iterating over a path visits: the root directory, the names, an empty one after a last slash.\<close>

definition path_names :: "string \<Rightarrow> string list" where
  "path_names s = filter (\<lambda>n. n \<noteq> []) (split_on SLASH s)"

definition path_elements :: "string \<Rightarrow> string list" where
  "path_elements p =
     (if is_absolute p then [[SLASH]] else []) @ path_names p @
     (if path_names p \<noteq> [] \<and> last p = SLASH then [[]] else [])"

text \<open>\<open>operator/\<close>.\<close>

definition path_append :: "string \<Rightarrow> string \<Rightarrow> string" where
  "path_append p q =
     (if is_absolute q then q
      else if p \<noteq> [] \<and> last p \<noteq> SLASH then p @ SLASH # q
      else p @ q)"

text \<open>The path that consists of these elements.\<close>

fun path_of :: "string list \<Rightarrow> string" where
  "path_of [] = []"
| "path_of (e # es) = foldl path_append e es"

text \<open>\<open>path::filename\<close> and \<open>path::extension\<close>; a leading dot does not start an extension.\<close>

definition path_filename :: "string \<Rightarrow> string" where
  "path_filename p = rev (takeWhile (\<lambda>c. c \<noteq> SLASH) (rev p))"

definition path_extension :: "string \<Rightarrow> string" where
  "path_extension p =
     (let f = path_filename p; tail_rev = takeWhile (\<lambda>c. c \<noteq> CHR ''.'') (rev f);
          n = length f - length tail_rev
      in if f = ''..'' \<or> CHR ''.'' \<notin> set f \<or> n = 1 then [] else drop (n - 1) f)"

text \<open>
  \<open>lexically_normal\<close> on the elements: a dot is dropped, \<open>..\<close> takes back the name before it, and is
  dropped after the root directory; what they leave behind is a directory, so a last slash stays.
\<close>

fun normal_elements :: "string list \<Rightarrow> string list \<Rightarrow> string list" where
  "normal_elements stack [] = rev stack"
| "normal_elements stack (e # es) =
     (let stay = (if es = [] \<and> stack \<noteq> [] \<and> hd stack \<noteq> [SLASH] then [[]] else [])
      in if e = ''.'' then (if es = [] then rev stack @ stay else normal_elements stack es)
         else if e = ''..'' then
           (case stack of
              [] \<Rightarrow> normal_elements [e] es
            | d # ds \<Rightarrow>
                (if d = [SLASH] then normal_elements stack es
                 else if d = ''..'' then normal_elements (e # stack) es
                 else if es = [] then rev ds @ (if ds \<noteq> [] \<and> hd ds \<noteq> [SLASH] then [[]] else [])
                 else normal_elements ds es))
         else if e = [] then rev stack @ stay
         else normal_elements (e # stack) es)"

definition lexically_normal :: "string \<Rightarrow> string list" where
  "lexically_normal p =
     (let es = normal_elements [] (path_elements p) in if es = [] \<and> p \<noteq> [] then [''.''] else es)"

text \<open>\<open>lexically_relative\<close>, on elements; a path that leaves the base is empty.\<close>

fun drop_common :: "string list \<Rightarrow> string list \<Rightarrow> string list \<times> string list" where
  "drop_common (a # as) (b # bs) = (if a = b then drop_common as bs else (a # as, b # bs))"
| "drop_common as bs = (as, bs)"

definition up_count :: "string list \<Rightarrow> int" where
  "up_count bs = (\<Sum>b\<leftarrow>bs. if b = ''..'' then -1 else if b = ''.'' \<or> b = [] then 0 else 1)"

definition lexically_relative :: "string list \<Rightarrow> string list \<Rightarrow> string" where
  "lexically_relative p base =
     (case drop_common p base of (as, bs) \<Rightarrow>
        let n = up_count bs
        in if as = [] \<and> bs = [] then ''.''
           else if n < 0 then []
           else if n = 0 \<and> (as = [] \<or> hd as = []) then ''.''
           else path_of (replicate (nat n) ''..'' @ as))"

section \<open>The file system\<close>

datatype file_status = FsMissing | FsRegular | FsDirectory | FsOther | FsFailure

record file_system =
  fs_status :: "string \<Rightarrow> file_status"
  fs_canonical :: "string \<Rightarrow> string option"
  fs_open :: "string \<Rightarrow> string option"
  fs_entries :: "string \<Rightarrow> (string \<times> bool) list option"
  fs_cwd :: string

definition fs_load :: "file_system \<Rightarrow> string \<Rightarrow> string" where
  "fs_load fs path = (case fs_open fs path of None \<Rightarrow> [] | Some contents \<Rightarrow> contents)"

definition fs_absolute :: "file_system \<Rightarrow> string \<Rightarrow> string" where
  "fs_absolute fs p = path_append (fs_cwd fs) p"

text \<open>
  \<open>weakly_canonical\<close>: the leading elements that exist are resolved by the operating system, the
  rest is appended and normalised; the result as its elements.
\<close>

fun existing_part :: "file_system \<Rightarrow> string \<Rightarrow> string list \<Rightarrow> (string \<times> string list) option" where
  "existing_part fs found [] = Some (found, [])"
| "existing_part fs found (e # es) =
     (case fs_status fs (path_append found e) of
        FsFailure \<Rightarrow> None
      | FsMissing \<Rightarrow> Some (found, e # es)
      | _ \<Rightarrow> existing_part fs (path_append found e) es)"

definition weakly_canonical :: "file_system \<Rightarrow> string \<Rightarrow> string list option" where
  "weakly_canonical fs p =
     (case fs_status fs p of
        FsFailure \<Rightarrow> None
      | FsMissing \<Rightarrow>
          (case existing_part fs [] (path_elements p) of
             None \<Rightarrow> None
           | Some (found, rest) \<Rightarrow>
               map_option (\<lambda>q. lexically_normal (foldl path_append q rest))
                 (if found = [] then Some [] else fs_canonical fs found))
      | _ \<Rightarrow> map_option path_elements (fs_canonical fs p))"

section \<open>No dots are left\<close>

definition no_dots :: "string list \<Rightarrow> bool" where
  "no_dots es \<longleftrightarrow> ''.'' \<notin> set es \<and> ''..'' \<notin> set es"

lemma normal_elements_no_dots:
  "no_dots stack \<Longrightarrow> stack \<noteq> [] \<Longrightarrow> last stack = [SLASH] \<Longrightarrow>
   no_dots (normal_elements stack es) \<and> normal_elements stack es \<noteq> []"
proof (induction stack es rule: normal_elements.induct)
  case (2 stack e es)
  show ?case
  proof (cases "e = ''.'' \<or> e = []")
    case True
    with 2 show ?thesis by (auto simp: no_dots_def)
  next
    case F: False
    show ?thesis
    proof (cases "e = ''..''")
      case True
      obtain d ds where d: "stack = d # ds" using 2 by (cases stack) auto
      show ?thesis
      proof (cases "d = [SLASH]")
        case True
        with 2 \<open>e = ''..''\<close> d show ?thesis by simp
      next
        case False
        then have ds: "ds \<noteq> []" using "2.prems"(3) d by auto
        then have l: "last ds = [SLASH]" using "2.prems"(3) d by simp
        have nd: "no_dots ds" "d \<noteq> ''..''" using "2.prems"(1) d by (auto simp: no_dots_def)
        show ?thesis
        proof (cases "es = []")
          case True
          with \<open>e = ''..''\<close> d False nd ds show ?thesis by (auto simp: no_dots_def)
        next
          case es: False
          with "2.IH"(5) [OF refl _ \<open>e = ''..''\<close> d False nd(2) es nd(1) ds l] \<open>e = ''..''\<close> d False nd(2)
          show ?thesis by simp
        qed
      qed
    next
      case False
      with 2 F show ?thesis by (auto simp: no_dots_def)
    qed
  qed
qed (auto simp: no_dots_def)

lemma lexically_normal_no_dots: "is_absolute p \<Longrightarrow> no_dots (lexically_normal p)"
proof -
  assume a: "is_absolute p"
  then obtain es where es: "path_elements p = [SLASH] # es" by (simp add: path_elements_def)
  have "normal_elements [] ([SLASH] # es) = normal_elements [[SLASH]] es" by simp
  moreover have "no_dots (normal_elements [[SLASH]] es)"
    and "normal_elements [[SLASH]] es \<noteq> []"
    using normal_elements_no_dots [of "[[SLASH]]" es] by (simp_all add: no_dots_def)
  ultimately show ?thesis by (simp add: lexically_normal_def es Let_def)
qed

lemma path_append_absolute: "is_absolute p \<Longrightarrow> is_absolute (path_append p q)"
  by (auto simp: path_append_def is_absolute_def)

lemma foldl_path_append_absolute: "is_absolute p \<Longrightarrow> is_absolute (foldl path_append p es)"
  by (induction es arbitrary: p) (auto simp: path_append_absolute)

lemma existing_part_split:
  "existing_part fs f es = Some (found, rest) \<Longrightarrow> \<exists>pre. es = pre @ rest \<and> found = foldl path_append f pre"
proof (induction es arbitrary: f)
  case (Cons e es)
  from Cons.prems consider "found = f" "rest = e # es" | "existing_part fs (path_append f e) es = Some (found, rest)"
    by (cases "fs_status fs (path_append f e)") auto
  then show ?case
  proof cases
    case 2
    from Cons.IH [OF this] obtain pre where "es = pre @ rest" "found = foldl path_append (path_append f e) pre" by auto
    then show ?thesis by (intro exI [of _ "e # pre"]) simp
  qed (intro exI [of _ "[]"], simp)
qed simp

lemma weakly_canonical_no_dots:
  assumes real: "\<And>p q. fs_canonical fs p = Some q \<Longrightarrow> is_absolute q \<and> no_dots (path_elements q)"
    and p: "is_absolute p" and wc: "weakly_canonical fs p = Some es"
  shows "no_dots es"
proof (cases "fs_status fs p = FsMissing")
  case True
  with wc obtain found rest q where ep: "existing_part fs [] (path_elements p) = Some (found, rest)"
    and q: "(if found = [] then Some [] else fs_canonical fs found) = Some q"
    and es: "es = lexically_normal (foldl path_append q rest)"
    by (auto simp: weakly_canonical_def split: option.splits)
  from existing_part_split [OF ep] obtain pre
    where pre: "path_elements p = pre @ rest" "found = foldl path_append [] pre" by auto
  have root: "path_elements p = [SLASH] # tl (path_elements p)" using p by (simp add: path_elements_def)
  have slash: "path_append [] [SLASH] = [SLASH]" "is_absolute [SLASH]"
    by (simp_all add: path_append_def is_absolute_def)
  have "is_absolute (foldl path_append q rest)"
  proof (cases "found = []")
    case True
    have "pre = []"
    proof (rule ccontr)
      assume "pre \<noteq> []"
      then obtain pre' where "pre = [SLASH] # pre'" using pre(1) root by (cases pre) auto
      then have "is_absolute found" using pre(2) slash foldl_path_append_absolute by simp
      with True show False by (simp add: is_absolute_def)
    qed
    then have "rest = [SLASH] # tl rest" using pre(1) root by (cases rest) auto
    moreover have "foldl path_append q ([SLASH] # tl rest) = foldl path_append [SLASH] (tl rest)"
      using q True slash(1) by simp
    ultimately show ?thesis using foldl_path_append_absolute [OF slash(2)] by metis
  next
    case False
    with q have "fs_canonical fs found = Some q" by simp
    then show ?thesis using real foldl_path_append_absolute by blast
  qed
  then show ?thesis unfolding es by (rule lexically_normal_no_dots)
next
  case False
  with wc obtain q where "fs_canonical fs p = Some q" "es = path_elements q"
    by (cases "fs_status fs p") (auto simp: weakly_canonical_def)
  then show ?thesis using real by blast
qed

end
