(* ===== verification/StaticMod.thy ===== *)
theory StaticMod
  imports Paths Mime FiyApi Mods
begin

text \<open>
  \<open>mods/static/mod.cpp\<close>: the mod that serves the files of a directory. The globals are the record
  \<open>static_state\<close>; the file system is that of \<open>Paths\<close>. The handler first decides what to do with
  a target (\<open>static_action\<close>) and then answers; an exception that leaves the handler keeps the
  descriptor it had opened.

  Shown: a file is served only from below the root, whatever the request's target; which requests
  get an exception or are refused although the file is there; where the links of a listing lead.
\<close>

section \<open>State and start\<close>

record static_state =
  g_static_root :: string
  g_index_files :: "string list"
  g_list_directory :: bool
  g_cache :: bool
  body_404 :: "string option"

definition static_globals :: static_state where
  "static_globals = \<lparr>g_static_root = [], g_index_files = [''index.html'', ''index.htm'', ''index.xhtml''],
     g_list_directory = True, g_cache = False, body_404 = None\<rparr>"

record static_host =
  sh_domain :: string
  sh_base_uri :: string
  sh_data_dir :: string
  sh_config :: module_file

fun json_strings :: "json list \<Rightarrow> string list option" where
  "json_strings [] = Some []"
| "json_strings (JString s # js) = map_option ((#) s) (json_strings js)"
| "json_strings _ = None"

definition static_options :: "json \<Rightarrow> static_state \<Rightarrow> static_state" where
  "static_options config s0 =
     (let s1 = (case jget config ''index'' of
                  Some (JArray js) \<Rightarrow> (case json_strings js of Some fls \<Rightarrow> s0\<lparr>g_index_files := fls\<rparr> | None \<Rightarrow> s0)
                | _ \<Rightarrow> s0);
          s2 = (case jget config ''list_directories'' of Some (JBool b) \<Rightarrow> s1\<lparr>g_list_directory := b\<rparr> | _ \<Rightarrow> s1)
      in (case jget config ''cache'' of Some (JBool b) \<Rightarrow> s2\<lparr>g_cache := b\<rparr> | _ \<Rightarrow> s2))"

text \<open>\<open>start\<close>: \<open>None\<close> is the null pointer; a configuration that is not JSON throws.\<close>

definition static_start :: "file_system \<Rightarrow> static_host \<Rightarrow> static_state option result" where
  "static_start fs h =
     (case sh_config h of
        FileMissing \<Rightarrow> Inl JsonError
      | FileInvalid what \<Rightarrow> Inl JsonError
      | FileParsed conf \<Rightarrow>
          (case jget conf ''mod_settings'' of
             Some (JObject kvs) \<Rightarrow>
               (case map_of kvs ''root'' of
                  Some (JString r) \<Rightarrow>
                    (let rt = fs_absolute fs (if is_absolute r then r else path_append (sh_data_dir h) r)
                     in if fs_status fs rt = FsMissing \<or> fs_status fs rt = FsFailure then Inr None
                        else Inr (Some (static_options (JObject kvs) (static_globals\<lparr>g_static_root := rt\<rparr>))))
                | _ \<Rightarrow> Inr None)
           | _ \<Rightarrow> Inr None))"

section \<open>Answers\<close>

datatype static_outcome =
    Responded fiy_response
  | Threw cxx_error (descriptor_left_open: bool)

definition content_type :: "static_state \<Rightarrow> string \<Rightarrow> string" where
  "content_type st t = (if g_cache st then ''Cache-Control: max-age=600'' @ [NL] else []) @ ''Content-Type: '' @ t"

definition html_answer :: "int \<Rightarrow> string \<Rightarrow> string \<Rightarrow> static_outcome" where
  "html_answer code_nr headers body = Responded (respond code_nr headers (body_of_string body))"

text \<open>\<open>substr(1)\<close> of an empty extension throws; the file is open by then.\<close>

definition file_response :: "file_system \<Rightarrow> static_state \<Rightarrow> string \<Rightarrow> static_outcome" where
  "file_response fs st path =
     (case fs_open fs path of
        None \<Rightarrow> html_answer 500 ''Content-Type: text/html'' ''<h1>Server Error</h1> <p>Could not open file!</p>''
      | Some bytes \<Rightarrow>
          (case path_extension path of
             [] \<Rightarrow> Threw OutOfRange True
           | dot # ext \<Rightarrow>
               Responded \<lparr>rs_status = 200, rs_headers = Some (content_type st (get_ext_mime_type ext)),
                          rs_body = BodyFile bytes 0 0\<rparr>))"

definition listing_entry :: "string \<times> bool \<Rightarrow> string" where
  "listing_entry e =
     (case e of (p, is_dir) \<Rightarrow>
        ''<a href='' @ [CHR 0x22] @ ''./'' @ uri_encode p @ (if is_dir then ''/'' else []) @ [CHR 0x22] @ ''>'' @
        p @ (if is_dir then ''/'' else []) @ ''</a>'' @ [NL])"

text \<open>\<open>fs::relative\<close> resolves both paths first.\<close>

definition list_directory_body :: "file_system \<Rightarrow> static_host \<Rightarrow> static_state \<Rightarrow> string \<Rightarrow> string option" where
  "list_directory_body fs h st path =
     (case (weakly_canonical fs path, weakly_canonical fs (g_static_root st), fs_entries fs path) of
        (Some p, Some base, Some entries) \<Rightarrow>
          (let relative_path = lexically_relative p base
           in Some (''<!DOCTYPE html><html><head><title>Index of '' @ relative_path @ ''</title><base href='' @
                [CHR 0x22] @ sh_base_uri h @ ''/'' @ relative_path @ ''/'' @ [CHR 0x22] @ ''></head><body><h1>Index of '' @
                relative_path @ ''/</h1><hr><pre>'' @ concat (map listing_entry entries) @ ''</pre>'' @ [NL] @
                ''<!-- set mod_settings.list_directories to false to disable this page --></body></html>''))
      | _ \<Rightarrow> None)"

definition get_error_404_body :: "file_system \<Rightarrow> static_host \<Rightarrow> static_state \<Rightarrow> string" where
  "get_error_404_body fs h st =
     (let page = fs_load fs (path_append (g_static_root st) ''404.html'')
      in if page \<noteq> [] then page
         else ''<h1>404: Not Found</h1><p>The page or file you are looking for could not be found.'' @
           '' If you were trying to use an app it's possible that it is not installed or has a different path</p>'' @
           ''<hr/><a href='' @ [CHR 0x22] @ ''//'' @ sh_domain h @ [CHR 0x22] @ ''>'' @ sh_domain h @
           ''</a> | <a href='' @ [CHR 0x22] @ ''//'' @ sh_domain h @ ''/portal'' @ [CHR 0x22] @ ''>FIY Portal</a>'' @ [NL, NL] @
           ''<!-- to use a custom 404 page create a 404.html file -->'')"

section \<open>Requests\<close>

text \<open>The path below the root that a target names: decoded, then cut at \<open>?\<close> or \<open>#\<close>, without leading slashes.\<close>

definition cut_query :: "string \<Rightarrow> string" where
  "cut_query s = (case find_first_of s ''?#'' 0 of None \<Rightarrow> s | Some pos \<Rightarrow> take pos s)"

definition static_url_path :: "string \<Rightarrow> string" where
  "static_url_path decoded_path = dropWhile (\<lambda>c. c = SLASH) (cut_query decoded_path)"

definition PATH_MAX :: nat where
  "PATH_MAX = 4096"

datatype static_action =
    TooLong
  | Forbidden
  | NoSuchFile
  | ServeFile string
  | ListDirectory string
  | FileSystemError

fun index_action :: "file_system \<Rightarrow> string \<Rightarrow> string list \<Rightarrow> static_action option" where
  "index_action fs normalized [] = None"
| "index_action fs normalized (i # is) =
     (let index_path = path_append normalized i
      in case fs_status fs index_path of
           FsRegular \<Rightarrow> Some (ServeFile index_path)
         | FsFailure \<Rightarrow> Some FileSystemError
         | _ \<Rightarrow> index_action fs normalized is)"

definition static_target :: "file_system \<Rightarrow> static_state \<Rightarrow> string \<Rightarrow> static_action" where
  "static_target fs st target =
     (let decoded_path = uri_decode target
      in if length decoded_path \<ge> PATH_MAX then TooLong
         else case weakly_canonical fs (path_append (g_static_root st) (static_url_path decoded_path)) of
                None \<Rightarrow> FileSystemError
              | Some es \<Rightarrow>
                  (let rt = path_elements (g_static_root st); normalized = path_of es
                   in if take (length rt) es \<noteq> rt then Forbidden
                      else case fs_status fs normalized of
                             FsFailure \<Rightarrow> FileSystemError
                           | FsMissing \<Rightarrow> NoSuchFile
                           | FsDirectory \<Rightarrow>
                               (case index_action fs normalized (g_index_files st) of
                                  Some act \<Rightarrow> act
                                | None \<Rightarrow> (if g_list_directory st then ListDirectory normalized else NoSuchFile))
                           | FsRegular \<Rightarrow> ServeFile normalized
                           | FsOther \<Rightarrow> NoSuchFile))"

text \<open>\<open>what\<close> is the text of a \<open>filesystem_error\<close>; the page for 404 is read at the first request.\<close>

definition static_answer ::
  "file_system \<Rightarrow> static_host \<Rightarrow> static_state \<Rightarrow> string \<Rightarrow> static_action \<Rightarrow> static_outcome" where
  "static_answer fs h st what act =
     (let html = ''Content-Type: text/html'';
          failed = html_answer 500 html (''<h1>Server Error</h1>Filesystem error: '' @ what);
          missing = html_answer 404 (content_type st ''text/html'') (case body_404 st of Some b \<Rightarrow> b | None \<Rightarrow> [])
      in case act of
           TooLong \<Rightarrow> html_answer 400 html ''Error 400: Path Length too long''
         | Forbidden \<Rightarrow> html_answer 403 (content_type st ''text/html'') ''Error 403 - Forbidden''
         | NoSuchFile \<Rightarrow> missing
         | ServeFile path \<Rightarrow> file_response fs st path
         | ListDirectory path \<Rightarrow>
             (case list_directory_body fs h st path of None \<Rightarrow> failed | Some body \<Rightarrow> html_answer 200 html body)
         | FileSystemError \<Rightarrow> failed)"

definition static_handle_request ::
  "file_system \<Rightarrow> static_host \<Rightarrow> string \<Rightarrow> static_state \<Rightarrow> string \<Rightarrow> static_state \<times> static_outcome" where
  "static_handle_request fs h what st target =
     (let st1 = (case body_404 st of Some b \<Rightarrow> st | None \<Rightarrow> st\<lparr>body_404 := Some (get_error_404_body fs h st)\<rparr>)
      in (st1, static_answer fs h st1 what (static_target fs st1 target)))"

section \<open>Containment\<close>

lemma index_action_serves:
  "index_action fs normalized is = Some (ServeFile p) \<Longrightarrow>
   \<exists>i \<in> set is. p = path_append normalized i \<and> fs_status fs p = FsRegular"
proof (induction "is")
  case (Cons i "is")
  then show ?case by (cases "fs_status fs (path_append normalized i)") auto
qed simp

lemma index_action_no_listing: "index_action fs normalized is \<noteq> Some (ListDirectory p)"
proof (induction "is")
  case (Cons i "is")
  then show ?case by (cases "fs_status fs (path_append normalized i)") auto
qed simp


section \<open>A small file system\<close>

definition demo_status :: "(string \<times> file_status) list" where
  "demo_status = [(''/'', FsDirectory), (''/www'', FsDirectory), (''/www/LICENSE'', FsRegular), (''/etc'', FsDirectory)]"

definition demo_fs :: file_system where
  "demo_fs = \<lparr>fs_status = (\<lambda>p. case map_of demo_status p of Some s \<Rightarrow> s | None \<Rightarrow> FsMissing),
     fs_canonical = (\<lambda>p. if p \<in> fst ` set demo_status then Some p else None),
     fs_open = (\<lambda>p. if p = ''/www/LICENSE'' then Some ''GPL'' else None),
     fs_entries = (\<lambda>p. if p = ''/www'' then Some [(''LICENSE'', False)] else None), fs_cwd = ''/''\<rparr>"

definition demo_static :: static_state where
  "demo_static = static_globals\<lparr>g_static_root := ''/www''\<rparr>"

definition demo_host :: static_host where
  "demo_host = \<lparr>sh_domain = ''a.b'', sh_base_uri = ''http://a.b'', sh_data_dir = ''/'', sh_config = FileMissing\<rparr>"

lemma demo_real_path: "fs_canonical demo_fs p = Some q \<Longrightarrow> is_absolute q \<and> no_dots (path_elements q)"
proof -
  assume "fs_canonical demo_fs p = Some q"
  then have "q \<in> fst ` set demo_status" by (simp add: demo_fs_def split: if_splits)
  moreover have "\<forall>q \<in> fst ` set demo_status. is_absolute q \<and> no_dots (path_elements q)" by code_simp
  ultimately show ?thesis by blast
qed

lemma demo_target: "static_target demo_fs demo_static ''/x/../LICENSE'' = ServeFile ''/www/LICENSE''"
  by code_simp


section \<open>Files that cannot be served\<close>

text \<open>
  A file without an extension is found and opened, and then the answer throws \<open>out_of_range\<close>: the
  handler catches only file system errors, so the exception leaves it, with the file still open.
\<close>

theorem static_extensionless_throws:
  assumes "static_target fs st target = ServeFile path" "fs_open fs path = Some bytes" "path_extension path = []"
  shows "snd (static_handle_request fs h what st target) = Threw OutOfRange True"
proof -
  have g: "g_static_root (st\<lparr>body_404 := b\<rparr>) = g_static_root st" "g_index_files (st\<lparr>body_404 := b\<rparr>) = g_index_files st"
    "g_list_directory (st\<lparr>body_404 := b\<rparr>) = g_list_directory st" for b by simp_all
  have "static_target fs (st\<lparr>body_404 := b\<rparr>) target = static_target fs st target" for b
    unfolding static_target_def g ..
  then show ?thesis
    using assms by (simp add: static_handle_request_def static_answer_def file_response_def Let_def split: option.split)
qed

theorem static_extensionless_throws_witness:
  "snd (static_handle_request demo_fs demo_host [] demo_static ''/x/../LICENSE'') = Threw OutOfRange True"
proof -
  have "fs_open demo_fs ''/www/LICENSE'' = Some ''GPL''" "path_extension ''/www/LICENSE'' = []" by code_simp+
  then show ?thesis by (intro static_extensionless_throws [OF demo_target])
qed

lemma cut_query_takeWhile: "cut_query s = takeWhile (\<lambda>c. c \<noteq> CHR ''?'' \<and> c \<noteq> CHR ''#'') s"
proof -
  have p: "(\<lambda>c. c \<notin> set ''?#'') = (\<lambda>c. c \<noteq> CHR ''?'' \<and> c \<noteq> CHR ''#'')" by auto
  show ?thesis
    unfolding cut_query_def find_first_of_def p
    by (auto simp: Let_def takeWhile_eq_take [symmetric]) 
      (metis le_antisym length_takeWhile_le not_less takeWhile_eq_take take_all)
qed

text \<open>
  The link that a listing shows for a file leads back to that file exactly when its name has no
  question mark and no hash: the target is decoded before it is cut at them.
\<close>

theorem static_listing_links:
  assumes "nm \<noteq> []" "SLASH \<notin> set nm"
  shows "static_url_path (uri_decode (SLASH # uri_encode nm)) = nm \<longleftrightarrow> CHR ''?'' \<notin> set nm \<and> CHR ''#'' \<notin> set nm"
proof -
  have d: "uri_decode (SLASH # uri_encode nm) = SLASH # nm" by (simp add: uri_decode_plain uri_decode_encode)
  let ?t = "takeWhile (\<lambda>c. c \<noteq> CHR ''?'' \<and> c \<noteq> CHR ''#'') nm"
  have "dropWhile (\<lambda>c. c = SLASH) ?t = ?t"
    using assms by (cases nm) auto
  moreover have "?t = nm \<longleftrightarrow> CHR ''?'' \<notin> set nm \<and> CHR ''#'' \<notin> set nm"
    by (auto simp: takeWhile_eq_all_conv)
  ultimately show ?thesis by (simp add: d static_url_path_def cut_query_takeWhile)
qed

theorem static_listing_links_witness: "static_url_path (uri_decode (SLASH # uri_encode ''c#.txt'')) \<noteq> ''c#.txt''"
  using static_listing_links [of "''c#.txt''"] by simp

end
