(* ===== verification/HttpClients.thy ===== *)
theory HttpClients
  imports Config
begin

text \<open>
  \<open>protocol/HttpClient.hpp\<close> and \<open>protocol/HttpsClient.hpp\<close>: an outgoing request as a state machine.
  The phase is the asynchronous operation that is pending; its completion, with an error or not, calls the
  handler of that name. Boost.Asio decides how an operation completes; that it completes at some time
  is what it promises and what a step is. \<open>cl_calls\<close> are the calls of the two callbacks so far.

  Shown: an HTTPS request calls exactly one callback, an HTTP request at least one and sometimes
  both; which ports are understood; that an explicit port makes the HTTPS client connect to another host.
\<close>

section \<open>The target\<close>

definition atoi :: "string \<Rightarrow> int" where
  "atoi s = to_int32 (fst (strtol10 s))"

text \<open>\<open>request\<close>: \<open>kept colon_pos\<close> is the length of the host that is kept; \<open>npos\<close> is \<open>None\<close>.\<close>

definition split_port :: "string \<Rightarrow> (nat \<Rightarrow> nat option) \<Rightarrow> string \<Rightarrow> string \<times> string" where
  "split_port default_port kept host =
     (case find_char host (CHR '':'') 0 of
        None \<Rightarrow> (host, default_port)
      | Some colon_pos \<Rightarrow>
          (let port_str = drop (colon_pos + 1) host; port_number = atoi port_str
           in if length port_str < 5 \<and> port_number < 65535 \<and> port_number > 0
              then (case kept colon_pos of None \<Rightarrow> host | Some n \<Rightarrow> take n host, show_int port_number)
              else (host, default_port)))"

definition http_target :: "string \<Rightarrow> string \<times> string" where
  "http_target host = split_port ''80'' (\<lambda>colon_pos. Some colon_pos) host"

text \<open>\<open>substr(0, colon_pos - 1)\<close>, which wraps to \<open>npos\<close> for a colon in front.\<close>

definition https_target :: "string \<Rightarrow> string \<times> string" where
  "https_target host =
     split_port ''443'' (\<lambda>colon_pos. if colon_pos = 0 then None else Some (colon_pos - 1)) host"

section \<open>Requests\<close>

datatype client_phase = Resolving | Connecting | Handshaking | Writing | Reading | ShuttingDown | Finished

datatype 'r callback = Answered 'r | Errored string

record 'r client =
  cl_host :: string
  cl_port :: string
  cl_phase :: client_phase
  cl_calls :: "'r callback list"

definition new_client :: "string \<times> string \<Rightarrow> 'r client" where
  "new_client target = \<lparr>cl_host = fst target, cl_port = snd target, cl_phase = Resolving, cl_calls = []\<rparr>"

definition err_cb :: "'r client \<Rightarrow> string \<Rightarrow> 'r client" where
  "err_cb c what = c\<lparr>cl_phase := Finished, cl_calls := cl_calls c @ [Errored what]\<rparr>"

text \<open>Every handler but the last returns on an error and starts the next operation otherwise.\<close>

definition next_phase :: "client_phase \<Rightarrow> 'r client \<Rightarrow> string option \<Rightarrow> 'r client" where
  "next_phase ph c ec = (case ec of Some what \<Rightarrow> err_cb c what | None \<Rightarrow> c\<lparr>cl_phase := ph\<rparr>)"

subsection \<open>HTTP\<close>

definition http_fetch :: "string \<Rightarrow> 'r client" where
  "http_fetch host = new_client (http_target host)"

definition http_on_resolve :: "'r client \<Rightarrow> string option \<Rightarrow> 'r client" where
  "http_on_resolve = next_phase Connecting"

definition http_on_connect :: "'r client \<Rightarrow> string option \<Rightarrow> 'r client" where
  "http_on_connect = next_phase Writing"

definition http_on_write :: "'r client \<Rightarrow> string option \<Rightarrow> 'r client" where
  "http_on_write = next_phase Reading"

datatype socket_shutdown = ShutDown | NotConnected | ShutdownFailed string

definition http_on_read :: "'r client \<Rightarrow> string option \<Rightarrow> 'r \<Rightarrow> socket_shutdown \<Rightarrow> 'r client" where
  "http_on_read c ec res shut =
     (case ec of
        Some what \<Rightarrow> err_cb c what
      | None \<Rightarrow>
          (let c1 = c\<lparr>cl_phase := Finished, cl_calls := cl_calls c @ [Answered res]\<rparr>
           in case shut of ShutdownFailed what \<Rightarrow> err_cb c1 what | _ \<Rightarrow> c1))"

inductive http_step :: "'r client \<Rightarrow> 'r client \<Rightarrow> bool" where
  "cl_phase c = Resolving \<Longrightarrow> http_step c (http_on_resolve c ec)"
| "cl_phase c = Connecting \<Longrightarrow> http_step c (http_on_connect c ec)"
| "cl_phase c = Writing \<Longrightarrow> http_step c (http_on_write c ec)"
| "cl_phase c = Reading \<Longrightarrow> http_step c (http_on_read c ec res shut)"

subsection \<open>HTTPS\<close>

text \<open>\<open>run\<close> gives up when the host cannot be announced to the server (\<open>sni_error\<close>).\<close>

definition https_run :: "string option \<Rightarrow> 'r client \<Rightarrow> 'r client" where
  "https_run sni_error c = (case sni_error of Some what \<Rightarrow> err_cb c what | None \<Rightarrow> c)"

definition https_fetch :: "string option \<Rightarrow> string \<Rightarrow> 'r client" where
  "https_fetch sni_error host = https_run sni_error (new_client (https_target host))"

definition https_on_resolve :: "'r client \<Rightarrow> string option \<Rightarrow> 'r client" where
  "https_on_resolve = next_phase Connecting"

definition https_on_connect :: "'r client \<Rightarrow> string option \<Rightarrow> 'r client" where
  "https_on_connect = next_phase Handshaking"

definition https_on_handshake :: "'r client \<Rightarrow> string option \<Rightarrow> 'r client" where
  "https_on_handshake = next_phase Writing"

definition https_on_write :: "'r client \<Rightarrow> string option \<Rightarrow> 'r client" where
  "https_on_write = next_phase Reading"

definition https_on_read :: "'r client \<Rightarrow> string option \<Rightarrow> 'r \<Rightarrow> 'r client" where
  "https_on_read c ec res =
     (case ec of
        Some what \<Rightarrow> err_cb c what
      | None \<Rightarrow> c\<lparr>cl_phase := ShuttingDown, cl_calls := cl_calls c @ [Answered res]\<rparr>)"

text \<open>An error here is at most logged.\<close>

definition https_on_shutdown :: "'r client \<Rightarrow> string option \<Rightarrow> 'r client" where
  "https_on_shutdown c ec = c\<lparr>cl_phase := Finished\<rparr>"

inductive https_step :: "'r client \<Rightarrow> 'r client \<Rightarrow> bool" where
  "cl_phase c = Resolving \<Longrightarrow> https_step c (https_on_resolve c ec)"
| "cl_phase c = Connecting \<Longrightarrow> https_step c (https_on_connect c ec)"
| "cl_phase c = Handshaking \<Longrightarrow> https_step c (https_on_handshake c ec)"
| "cl_phase c = Writing \<Longrightarrow> https_step c (https_on_write c ec)"
| "cl_phase c = Reading \<Longrightarrow> https_step c (https_on_read c ec res)"
| "cl_phase c = ShuttingDown \<Longrightarrow> https_step c (https_on_shutdown c ec)"

lemmas client_handlers =
  next_phase_def err_cb_def http_on_resolve_def http_on_connect_def http_on_write_def http_on_read_def
  https_on_resolve_def https_on_connect_def https_on_handshake_def https_on_write_def https_on_read_def
  https_on_shutdown_def

section \<open>Runs end\<close>

text \<open>A machine whose every step lowers a rank and that can always go on until it is closed.\<close>

locale io_machine =
  fixes step :: "'c \<Rightarrow> 'c \<Rightarrow> bool" and rank :: "'c \<Rightarrow> nat" and closed :: "'c \<Rightarrow> bool"
  assumes progress: "\<not> closed c \<Longrightarrow> \<exists>c'. step c c'"
    and rank_less: "step c c' \<Longrightarrow> rank c' < rank c"
begin

lemma can_close: "\<exists>c'. step\<^sup>*\<^sup>* c c' \<and> closed c'"
proof (induction "rank c" arbitrary: c rule: less_induct)
  case less
  show ?case
  proof (cases "closed c")
    case False
    then obtain d where "step c d" using progress by blast
    with less [OF rank_less] show ?thesis by (meson converse_rtranclp_into_rtranclp)
  qed blast
qed

lemma run_length: "(step ^^ n) c c' \<Longrightarrow> n + rank c' \<le> rank c"
proof (induction n arbitrary: c')
  case (Suc n)
  then obtain d where "(step ^^ n) c d" "step d c'" by auto
  with Suc.IH rank_less show ?case by fastforce
qed simp

lemma closed_of_maximal: "step\<^sup>*\<^sup>* c c' \<Longrightarrow> (\<nexists>d. step c' d) \<Longrightarrow> closed c'"
  using progress by blast

end

fun phase_rank :: "client_phase \<Rightarrow> nat" where
  "phase_rank Resolving = 6"
| "phase_rank Connecting = 5"
| "phase_rank Handshaking = 4"
| "phase_rank Writing = 3"
| "phase_rank Reading = 2"
| "phase_rank ShuttingDown = 1"
| "phase_rank Finished = 0"

text \<open>HTTP has no step for the two phases of TLS, which it never enters.\<close>

definition http_closed :: "'r client \<Rightarrow> bool" where
  "http_closed c \<longleftrightarrow> cl_phase c \<in> {Handshaking, ShuttingDown, Finished}"

interpretation http: io_machine http_step "\<lambda>c. phase_rank (cl_phase c)" http_closed
proof (unfold_locales, goal_cases)
  case (1 c)
  then show ?case by (cases "cl_phase c") (auto simp: http_closed_def intro: http_step.intros)
next
  case (2 c c')
  then show ?case
    by cases (auto simp: client_handlers Let_def split: option.split socket_shutdown.split)
qed

interpretation https: io_machine https_step "\<lambda>c. phase_rank (cl_phase c)" "\<lambda>c. cl_phase c = Finished"
proof (unfold_locales, goal_cases)
  case (1 c)
  then show ?case by (cases "cl_phase c") (auto intro: https_step.intros)
next
  case (2 c c')
  then show ?case by cases (auto simp: client_handlers split: option.split)
qed

section \<open>Callbacks\<close>

definition https_inv :: "'r client \<Rightarrow> bool" where
  "https_inv c \<longleftrightarrow>
     (if cl_phase c \<in> {Finished, ShuttingDown} then length (cl_calls c) = 1 else cl_calls c = [])"

lemma https_step_inv: "https_step c c' \<Longrightarrow> https_inv c \<Longrightarrow> https_inv c'"
  by (induction rule: https_step.induct) (auto simp: https_inv_def client_handlers split: option.splits)

lemma https_run_inv: "https_step\<^sup>*\<^sup>* c c' \<Longrightarrow> https_inv c \<Longrightarrow> https_inv c'"
  by (induction rule: rtranclp_induct) (auto intro: https_step_inv)

lemma https_fetch_inv: "https_inv (https_fetch sni_error host)"
  by (auto simp: https_inv_def https_fetch_def https_run_def new_client_def err_cb_def split: option.split)

definition http_inv :: "'r client \<Rightarrow> bool" where
  "http_inv c \<longleftrightarrow>
     (if cl_phase c = Finished
      then (\<exists>e. cl_calls c = [Errored e]) \<or> (\<exists>r. cl_calls c = [Answered r]) \<or> (\<exists>r e. cl_calls c = [Answered r, Errored e])
      else cl_calls c = [] \<and> cl_phase c \<notin> {Handshaking, ShuttingDown})"

lemma http_step_inv: "http_step c c' \<Longrightarrow> http_inv c \<Longrightarrow> http_inv c'"
  by (induction rule: http_step.induct)
    (auto simp: http_inv_def client_handlers Let_def split: option.splits socket_shutdown.splits)

lemma http_run_inv: "http_step\<^sup>*\<^sup>* c c' \<Longrightarrow> http_inv c \<Longrightarrow> http_inv c'"
  by (induction rule: rtranclp_induct) (auto intro: http_step_inv)

lemma http_fetch_inv: "http_inv (http_fetch host)"
  by (simp add: http_inv_def http_fetch_def new_client_def)

text \<open>
  C24. An HTTPS request, however its operations complete, is finished after at most six completions, can
  always go on until then, and has then called exactly one of its two callbacks, once.
\<close>

theorem https_calls_back_once:
  assumes "https_step\<^sup>*\<^sup>* (https_fetch sni_error host) c"
  shows "(\<exists>d. https_step\<^sup>*\<^sup>* c d \<and> cl_phase d = Finished) \<and>
    (\<forall>n d. (https_step ^^ n) c d \<longrightarrow> n \<le> 6) \<and>
    ((\<nexists>d. https_step c d) \<longrightarrow> (\<exists>call. cl_calls c = [call]))"
proof (intro conjI allI impI)
  show "\<exists>d. https_step\<^sup>*\<^sup>* c d \<and> cl_phase d = Finished" by (rule https.can_close)
  fix n d
  assume "(https_step ^^ n) c d"
  from https.run_length [OF this] show "n \<le> 6" by (cases "cl_phase c") auto
next
  assume "\<nexists>d. https_step c d"
  then have "cl_phase c = Finished" using https.closed_of_maximal [OF assms] by blast
  then show "\<exists>call. cl_calls c = [call]"
    using https_run_inv [OF assms https_fetch_inv] by (auto simp: https_inv_def length_Suc_conv)
qed

theorem https_calls_back_once_witness:
  "(\<exists>call. cl_calls (https_fetch (Some ''bad name'') ''a.b'' :: nat client) = [call]) \<and>
   (\<exists>d. https_step\<^sup>*\<^sup>* (https_fetch None ''a.b'' :: nat client) d \<and> cl_phase d = Finished)"
proof
  have "\<nexists>d. https_step (https_fetch (Some ''bad name'') ''a.b'' :: nat client) d"
    by (auto simp: https_fetch_def https_run_def err_cb_def elim: https_step.cases)
  then show "\<exists>call. cl_calls (https_fetch (Some ''bad name'') ''a.b'' :: nat client) = [call]"
    using https_calls_back_once [of "Some ''bad name''" "''a.b''", OF rtranclp.rtrancl_refl] by blast
qed (use https_calls_back_once [of None "''a.b''", OF rtranclp.rtrancl_refl] in blast)

text \<open>
  An HTTP request also ends and calls back, but when the socket cannot be shut down after the answer
  it calls the error callback too: the same request is answered and then reported as failed.
\<close>

theorem http_answers_then_fails:
  fixes res :: 'r
  shows "(\<forall>c. http_step\<^sup>*\<^sup>* (http_fetch host) c \<and> (\<nexists>d. http_step c d) \<longrightarrow>
      (\<exists>e. cl_calls c = [Errored e]) \<or> (\<exists>r. cl_calls c = [Answered r]) \<or> (\<exists>r e. cl_calls c = [Answered r, Errored e])) \<and>
   (\<exists>c. http_step\<^sup>*\<^sup>* (http_fetch host) c \<and> cl_calls c = [Answered res, Errored what])"
proof (intro conjI allI impI, goal_cases)
  case (1 c)
  then have "http_closed c" using http.closed_of_maximal by blast
  then show ?case using http_run_inv [OF _ http_fetch_inv, of host c] 1
    by (auto simp: http_inv_def http_closed_def split: if_splits)
next
  case 2
  let ?c1 = "http_on_resolve (http_fetch host) None :: 'r client"
  let ?c2 = "http_on_connect ?c1 None" let ?c3 = "http_on_write ?c2 None"
  let ?c4 = "http_on_read ?c3 None res (ShutdownFailed what)"
  note defs = client_handlers http_fetch_def new_client_def Let_def
  have s1: "http_step (http_fetch host) ?c1" by (rule http_step.intros) (simp add: defs)
  have s2: "http_step ?c1 ?c2" by (rule http_step.intros) (simp add: defs)
  have s3: "http_step ?c2 ?c3" by (rule http_step.intros) (simp add: defs)
  have s4: "http_step ?c3 ?c4" by (rule http_step.intros) (simp add: defs)
  have "http_step\<^sup>*\<^sup>* (http_fetch host) ?c4"
    using s1 s2 s3 s4 by (meson converse_rtranclp_into_rtranclp rtranclp.rtrancl_refl)
  moreover have "cl_calls ?c4 = [Answered res, Errored what]" by (simp add: defs)
  ultimately show ?case by blast
qed

theorem http_answers_then_fails_witness:
  "\<exists>c. http_step\<^sup>*\<^sup>* (http_fetch ''a.b'') c \<and> cl_calls c = [Answered (5::nat), Errored ''broken pipe'']"
  using http_answers_then_fails [of "''a.b''" 5 "''broken pipe''"] by blast

section \<open>Ports\<close>

lemma read_digits_less: "list_all is_digit ds \<Longrightarrow> read_digits n ds < (n + 1) * 10 ^ length ds"
proof (induction ds arbitrary: n)
  case (Cons d ds)
  have "code d - 48 \<le> 9" using Cons.prems by (auto simp: is_digit_def)
  then have "(10 * n + (code d - 48) + 1) * 10 ^ length ds \<le> (10 * n + 10) * 10 ^ length ds"
    by (intro mult_right_mono) auto
  also have "\<dots> = (n + 1) * 10 ^ length (d # ds)" by (simp add: algebra_simps)
  finally show ?case using Cons.IH [of "10 * n + (code d - 48)"] Cons.prems by simp
qed simp

lemma to_int32_small: "\<bar>v\<bar> < 2 ^ 31 \<Longrightarrow> to_int32 v = v"
  by (simp add: to_int32_def)

lemma atoi_short: "length s < 5 \<Longrightarrow> \<bar>atoi s\<bar> \<le> 9999"
proof -
  assume l: "length s < 5"
  define s1 where "s1 = dropWhile is_space s"
  define s2 where "s2 = (if s1 \<noteq> [] \<and> (hd s1 = CHR ''-'' \<or> hd s1 = CHR ''+'') then tl s1 else s1)"
  define ds where "ds = takeWhile is_digit s2"
  have "length ds \<le> length s2" by (simp add: ds_def length_takeWhile_le)
  also have "\<dots> \<le> length s1" by (simp add: s2_def)
  also have "\<dots> \<le> length s" by (simp add: s1_def length_dropWhile_le)
  finally have "(10::nat) ^ length ds \<le> 10 ^ 4" using l by (intro power_increasing) auto
  moreover have dg: "list_all is_digit ds" by (auto simp: ds_def list_all_iff dest: set_takeWhileD)
  ultimately have b: "read_digits 0 ds \<le> 9999" using read_digits_less [of ds 0] by simp
  have "read_base 10 0 ds = int (read_digits 0 ds)" using read_base_10 [OF dg, of 0] by simp
  moreover define v where "v = (if s1 \<noteq> [] \<and> hd s1 = CHR ''-'' then - read_base 10 0 ds else read_base 10 0 ds)"
  ultimately have v: "\<bar>v\<bar> \<le> 9999" using b by simp
  have "fst (strtol10 s) = max (- (2 ^ 63)) (min (2 ^ 63 - 1) v)"
    by (simp only: strtol10_def Let_def fst_conv s1_def v_def ds_def s2_def)
  also have "\<dots> = v" using v by simp
  finally show ?thesis using v by (simp add: atoi_def to_int32_small)
qed

lemma atoi_show_nat: "n < 10000 \<Longrightarrow> atoi (show_nat n) = int n"
  by (simp add: atoi_def strtol10_show_nat to_int32_small)

lemma show_nat_short: "length (show_nat n) < 5 \<longleftrightarrow> n < 10000"
proof -
  have "length (show_nat n) < 5 \<longleftrightarrow> length (show_nat n) \<le> Suc 3" by auto
  then show ?thesis using show_nat_length [of n 3] by simp
qed

text \<open>
  A port is one to four digits: what is connected to is port 80 or one from 1 to 9999. For a name
  with such a port HTTP connects to the name, HTTPS to the name without its last character; a port
  of five digits is left in the name, which no resolver knows.
\<close>

theorem port_bounds:
  "(snd (http_target host) = ''80'' \<or> (\<exists>n. 0 < n \<and> n \<le> 9999 \<and> snd (http_target host) = show_nat n)) \<and>
   (CHR '':'' \<notin> set nm \<longrightarrow>
      http_target (nm @ CHR '':'' # show_nat n) =
        (if 0 < n \<and> n < 10000 then (nm, show_nat n) else (nm @ CHR '':'' # show_nat n, ''80'')) \<and>
      (nm \<noteq> [] \<and> 0 < n \<and> n < 10000 \<longrightarrow> https_target (nm @ CHR '':'' # show_nat n) = (butlast nm, show_nat n)))"
proof (intro conjI impI)
  show "snd (http_target host) = ''80'' \<or> (\<exists>n. 0 < n \<and> n \<le> 9999 \<and> snd (http_target host) = show_nat n)"
  proof (cases "find_char host (CHR '':'') 0")
    case None
    then show ?thesis by (simp add: http_target_def split_port_def)
  next
    case (Some k)
    let ?s = "drop (k + 1) host"
    show ?thesis
    proof (cases "length ?s < 5 \<and> atoi ?s < 65535 \<and> atoi ?s > 0")
      case True
      then have "0 < nat (atoi ?s)" "nat (atoi ?s) \<le> 9999" "show_int (atoi ?s) = show_nat (nat (atoi ?s))"
        using atoi_short [of ?s] by (auto simp: show_int_def)
      moreover have "snd (http_target host) = show_int (atoi ?s)"
        using True Some by (simp add: http_target_def split_port_def Let_def)
      ultimately show ?thesis by metis
    next
      case False
      then have "snd (http_target host) = ''80''"
        unfolding http_target_def split_port_def Let_def Some option.case by (simp only: if_False snd_conv)
      then show ?thesis ..
    qed
  qed
next
  assume nm: "CHR '':'' \<notin> set nm"
  let ?h = "nm @ CHR '':'' # show_nat n"
  have f: "find_char ?h (CHR '':'') 0 = Some (length nm)" using nm by (rule find_char_append_hit)
  have sp: "split_port d kept ?h =
      (if 0 < n \<and> n < 10000 then (case kept (length nm) of None \<Rightarrow> ?h | Some k \<Rightarrow> take k ?h, show_nat n) else (?h, d))"
    for d kept
  proof -
    have sp: "split_port d kept ?h =
        (if length (show_nat n) < 5 \<and> atoi (show_nat n) < 65535 \<and> atoi (show_nat n) > 0
         then (case kept (length nm) of None \<Rightarrow> ?h | Some k \<Rightarrow> take k ?h, show_int (atoi (show_nat n))) else (?h, d))"
      by (simp only: split_port_def f option.case Let_def) simp
    show ?thesis
    proof (cases "n < 10000")
      case True
      then show ?thesis using show_nat_short [of n] unfolding sp atoi_show_nat [OF True] by (simp add: show_int_def)
    qed (use show_nat_short [of n] sp in simp)
  qed
  show "http_target ?h = (if 0 < n \<and> n < 10000 then (nm, show_nat n) else (?h, ''80''))"
    by (simp add: http_target_def sp)
  assume "nm \<noteq> [] \<and> 0 < n \<and> n < 10000"
  then show "https_target ?h = (butlast nm, show_nat n)"
    by (simp add: https_target_def sp butlast_conv_take)
qed

theorem port_bounds_witness:
  "https_target ''fiy.com:8443'' = (''fiy.co'', ''8443'') \<and> http_target ''fiy.com:8443'' = (''fiy.com'', ''8443'')"
proof -
  have "digit_char 8 = CHR ''8''" "digit_char 4 = CHR ''4''" "digit_char 3 = CHR ''3''" by code_simp+
  then have sn: "show_nat 8443 = ''8443''" by (simp add: show_nat.simps)
  have e: "''fiy.com'' @ CHR '':'' # ''8443'' = ''fiy.com:8443''" "butlast ''fiy.com'' = ''fiy.co''" by simp_all
  have c: "CHR '':'' \<notin> set ''fiy.com''" "''fiy.com'' \<noteq> [] \<and> 0 < (8443::nat) \<and> (8443::nat) < 10000" by simp_all
  from port_bounds [of "[]" "''fiy.com''" 8443, THEN conjunct2, THEN mp, OF c(1)] c(2)
  show ?thesis unfolding sn e by (simp only: if_True simp_thms)
qed

end
