(* ===== verification/Repos.thy ===== *)
theory Repos
  imports Paths FiyApi
begin

text \<open>
  \<open>mods/git/src/Repos/BasicRepo.cpp\<close>, \<open>BasicRepo.hpp\<close>, \<open>LocalRepo.cpp\<close> and \<open>LocalRepo.hpp\<close>: naming a
  repository in a request, the two checks of a user's access, creating a repository, and the cache of
  open repositories. A class that is derived is a record that is extended. The tables of the database
  are a record of maps and lists; directories are the element lists of \<open>Paths\<close>; libgit2 is asked
  only whether it can initialise a directory. An object of the cache has an address and is
  destroyed when nothing refers to it.

  Shown: a repository's path names it again, except for the shortest ones; who may write; where the two access
  checks disagree; what creating leaves behind; that the cache has one live object per path and when it locks up.
\<close>

section \<open>Naming a repository\<close>

record BasicRepo =
  rp_instance :: string
  rp_owner :: string
  rp_name :: string

definition empty_repo :: BasicRepo where
  "empty_repo = \<lparr>rp_instance = [], rp_owner = [], rp_name = []\<rparr>"

definition owner_user :: "'a BasicRepo_scheme \<Rightarrow> string" where
  "owner_user r = rp_owner r @ (if rp_instance r \<noteq> [] then ''@'' @ rp_instance r else [])"

definition repo_path :: "'a BasicRepo_scheme \<Rightarrow> string" where
  "repo_path r = owner_user r @ ''/'' @ rp_name r"

definition repo_is_local :: "'a BasicRepo_scheme \<Rightarrow> bool" where
  "repo_is_local r \<longleftrightarrow> rp_instance r = []"

definition repo_fs_path :: "string \<Rightarrow> 'a BasicRepo_scheme \<Rightarrow> string" where
  "repo_fs_path data_dir r = data_dir @ (if repo_is_local r then ''/repos/'' else ''/mirrors/'') @ repo_path r"

text \<open>\<open>substr(find_first_not_of('/'))\<close> throws when there are only slashes.\<close>

definition skip_slashes :: "string \<Rightarrow> string result" where
  "skip_slashes url =
     (if url \<noteq> [] \<and> hd url = SLASH
      then (if dropWhile (\<lambda>c. c = SLASH) url = [] then Inl OutOfRange else Inr (dropWhile (\<lambda>c. c = SLASH) url))
      else Inr url)"

text \<open>The part before the slash; \<open>None\<close> when the at sign comes after it.\<close>

definition parse_owner :: "string \<Rightarrow> BasicRepo \<Rightarrow> string \<Rightarrow> nat \<Rightarrow> BasicRepo option" where
  "parse_owner host_domain r url slash =
     (case find_char url (CHR ''@'') 0 of
        None \<Rightarrow> Some (r\<lparr>rp_instance := [], rp_owner := take slash url\<rparr>)
      | Some at_pos \<Rightarrow>
          (if at_pos > slash then None
           else let i = substr url (at_pos + 1) (slash - at_pos - 1)
                in Some (r\<lparr>rp_owner := take at_pos url, rp_instance := (if i = host_domain then [] else i)\<rparr>)))"

text \<open>
  The name: up to the next slash or question mark, without \<open>.git\<close>. \<open>end - 4\<close> wraps for an end
  before 4, and then \<open>compare\<close> throws.
\<close>

definition parse_repo_name :: "BasicRepo \<Rightarrow> string \<Rightarrow> nat \<Rightarrow> (BasicRepo \<times> bool) result" where
  "parse_repo_name r url start =
     (if start \<ge> length url then Inr (r, False)
      else let stop = (case find_first_of url ''/?'' start of None \<Rightarrow> length url | Some e \<Rightarrow> e)
           in if stop < 4 then Inl OutOfRange
              else let stop' = (if substr url (stop - 4) 4 = ''.git'' then stop - 4 else stop);
                       nm = substr url start (stop' - start)
                   in Inr (r\<lparr>rp_name := nm\<rparr>, nm \<noteq> []))"

text \<open>\<open>from_path\<close>: the object, also when it fails, and the result.\<close>

definition from_path :: "string \<Rightarrow> BasicRepo \<Rightarrow> string \<Rightarrow> (BasicRepo \<times> bool) result" where
  "from_path host_domain r url0 =
     (if length url0 < 3 then Inr (r, False)
      else bind_result (skip_slashes url0) (\<lambda>url1.
        if length url1 < 3 then Inr (r, False)
        else let url = (if hd url1 = CHR ''@'' then tl url1 else url1)
             in if length url < 3 then Inr (r, False)
                else case find_char url SLASH 0 of
                       None \<Rightarrow> Inr (r, False)
                     | Some slash \<Rightarrow>
                         (case parse_owner host_domain r url slash of
                            None \<Rightarrow> Inr (r, False)
                          | Some r1 \<Rightarrow> parse_repo_name r1 url (slash + 1))))"

text \<open>\<open>canonical_url\<close>: what is compared with the domain still has its at sign.\<close>

definition canonical_url :: "string \<Rightarrow> string \<Rightarrow> string result" where
  "canonical_url host_domain url0 =
     (if length url0 < 3 then Inr []
      else bind_result (skip_slashes url0) (\<lambda>url.
        if length url < 3 then Inr []
        else case find_char url SLASH 0 of
               None \<Rightarrow> Inr []
             | Some slash \<Rightarrow>
                 (let cut_git = (\<lambda>u. if ends_with u ''.git'' then take (length u - 4) u else u)
                  in case find_char url (CHR ''@'') 0 of
                       None \<Rightarrow> Inr (cut_git url)
                     | Some at_pos \<Rightarrow>
                         (if at_pos > slash then Inr []
                          else Inr (cut_git (if substr url at_pos (slash - at_pos) = host_domain
                                             then take at_pos url @ drop slash url else url))))))"

section \<open>Paths name repositories\<close>

definition plain_repo :: "string \<Rightarrow> BasicRepo \<Rightarrow> bool" where
  "plain_repo host_domain r \<longleftrightarrow>
     rp_owner r \<noteq> [] \<and> list_all (\<lambda>c. c \<notin> {SLASH, CHR ''@''}) (rp_owner r) \<and>
     SLASH \<notin> set (rp_instance r) \<and> rp_instance r \<noteq> host_domain \<and>
     rp_name r \<noteq> [] \<and> list_all (\<lambda>c. c \<notin> {SLASH, CHR ''?'', CHR ''@''}) (rp_name r) \<and> \<not> ends_with (rp_name r) ''.git''"

lemma find_first_of_None: "set cs \<inter> set (drop i s) = {} \<Longrightarrow> find_first_of s cs i = None"
proof -
  assume "set cs \<inter> set (drop i s) = {}"
  then have "takeWhile (\<lambda>x. x \<notin> set cs) (drop i s) = drop i s" by (auto simp: takeWhile_eq_all_conv)
  then have "length (takeWhile (\<lambda>x. x \<notin> set cs) (drop i s)) = length s - i"
    by (metis length_drop)
  then show ?thesis by (simp add: find_first_of_def Let_def)
qed

lemma owner_user_no_slash: "plain_repo d r \<Longrightarrow> SLASH \<notin> set (owner_user r)"
  by (auto simp: plain_repo_def owner_user_def list_all_iff)

lemma parse_owner_path:
  assumes "plain_repo host_domain r"
  shows "parse_owner host_domain r0 (repo_path r) (length (owner_user r)) = Some (r\<lparr>rp_name := rp_name r0\<rparr>)"
proof (cases "rp_instance r = []")
  case True
  have "find_char (repo_path r) (CHR ''@'') 0 = None"
    using assms True by (auto simp: find_char_None_iff repo_path_def owner_user_def plain_repo_def list_all_iff)
  then show ?thesis using True by (simp add: parse_owner_def repo_path_def owner_user_def)
next
  case False
  have "CHR ''@'' \<notin> set (rp_owner r)" using assms by (auto simp: plain_repo_def list_all_iff)
  then have "find_char (repo_path r) (CHR ''@'') 0 = Some (length (rp_owner r))"
    using find_char_append_hit [of "CHR ''@''" "rp_owner r" "rp_instance r @ ''/'' @ rp_name r"] False
    by (simp add: repo_path_def owner_user_def)
  then show ?thesis
    using False assms by (simp add: parse_owner_def repo_path_def owner_user_def plain_repo_def substr_def Let_def)
qed

lemma parse_repo_name_whole:
  assumes "start < length url" "find_first_of url ''/?'' start = None"
  shows "length url < 4 \<Longrightarrow> parse_repo_name r url start = Inl OutOfRange"
    and "4 \<le> length url \<Longrightarrow> substr url (length url - 4) 4 \<noteq> ''.git'' \<Longrightarrow>
      parse_repo_name r url start = Inr (r\<lparr>rp_name := drop start url\<rparr>, True)"
  using assms by (simp_all add: parse_repo_name_def Let_def substr_def)

lemma parse_repo_name_path:
  assumes "plain_repo host_domain r"
  shows "parse_repo_name r0 (repo_path r) (length (owner_user r) + 1) =
    (if length (repo_path r) = 3 then Inl OutOfRange else Inr (r0\<lparr>rp_name := rp_name r\<rparr>, True))"
proof -
  let ?p = "repo_path r" and ?n = "rp_name r"
  have nm: "drop (length (owner_user r) + 1) ?p = ?n" by (simp add: repo_path_def)
  have len: "length ?p = length (owner_user r) + 1 + length ?n" by (simp add: repo_path_def)
  have pos: "owner_user r \<noteq> []" "?n \<noteq> []" using assms by (auto simp: plain_repo_def owner_user_def)
  have "set ''/?'' \<inter> set ?n = {}" using assms by (auto simp: plain_repo_def list_all_iff)
  then have f: "find_first_of ?p ''/?'' (length (owner_user r) + 1) = None"
    by (intro find_first_of_None) (simp only: nm)
  have nogit: "substr ?p (length ?p - 4) 4 \<noteq> ''.git''" if "4 \<le> length ?p"
  proof
    assume g: "substr ?p (length ?p - 4) 4 = ''.git''"
    show False
    proof (cases "4 \<le> length ?n")
      case True
      then have "substr ?p (length ?p - 4) 4 = drop (length ?n - 4) ?n"
        using len by (simp add: substr_def repo_path_def Suc_diff_le drop_Cons')
      with g True have "ends_with ?n ''.git''" by (simp add: ends_with_def numeral_eq_Suc)
      with assms show False by (simp add: plain_repo_def)
    next
      case False
      then have "SLASH \<in> set (substr ?p (length ?p - 4) 4)"
        using that len by (simp add: substr_def repo_path_def)
      with g show False by simp
    qed
  qed
  have "length ?p \<ge> 3" using pos len by (cases "owner_user r"; cases ?n) auto
  then have "length ?p < 4 \<longleftrightarrow> length ?p = 3" by linarith
  moreover have start: "length (owner_user r) + 1 < length ?p" using pos(2) len by (cases ?n) simp_all
  ultimately show ?thesis
    using parse_repo_name_whole [OF start f, of r0] nogit nm by (cases "length ?p < 4") (simp_all add: not_less)
qed

text \<open>
  The path of a repository, with or without slashes and an at sign before it, is parsed back to the
  same repository; but for the shortest paths, one letter each, the parser throws.
\<close>

theorem repo_path_roundtrip:
  assumes "plain_repo host_domain r" "pre \<in> {[], [SLASH], [CHR ''@''], [SLASH, CHR ''@'']}"
  shows "from_path host_domain r0 (pre @ repo_path r) =
    (if length (repo_path r) = 3 then Inl OutOfRange else Inr (r, True))"
proof -
  let ?p = "repo_path r"
  obtain c o' where o: "owner_user r = c # o'" "c \<noteq> SLASH" "c \<noteq> CHR ''@''"
    using assms(1) by (cases "rp_owner r") (auto simp: plain_repo_def owner_user_def)
  then have p: "?p = c # o' @ ''/'' @ rp_name r" by (simp add: repo_path_def)
  have "rp_name r \<noteq> []" using assms(1) by (simp add: plain_repo_def)
  then have l: "length ?p \<ge> 3" by (cases "rp_name r") (simp_all add: p)
  have f: "find_char ?p SLASH 0 = Some (length (owner_user r))"
    using find_char_append_hit [OF owner_user_no_slash [OF assms(1)]] by (simp add: repo_path_def)
  have inner: "(case find_char ?p SLASH 0 of
        None \<Rightarrow> Inr (r0, False)
      | Some slash \<Rightarrow>
          (case parse_owner host_domain r0 ?p slash of
             None \<Rightarrow> Inr (r0, False)
           | Some r1 \<Rightarrow> parse_repo_name r1 ?p (slash + 1))) =
      (if length ?p = 3 then Inl OutOfRange else Inr (r, True))"
    unfolding f option.case parse_owner_path [OF assms(1)] parse_repo_name_path [OF assms(1)] by simp
  define at_front where "at_front = (CHR ''@'' \<in> set pre)"
  have skip: "skip_slashes (pre @ ?p) = Inr (if at_front then CHR ''@'' # ?p else ?p)"
    using assms(2) o p by (auto simp: skip_slashes_def at_front_def)
  have "length (pre @ ?p) \<ge> 3" using l by simp
  moreover have "hd ?p \<noteq> CHR ''@''" using o p by simp
  ultimately show ?thesis
    unfolding from_path_def skip bind_result_simps using l inner by (cases at_front) (simp_all add: Let_def)
qed

theorem repo_path_roundtrip_witness:
  "from_path ''a.b'' empty_repo ''/@ann@x.y/code'' =
     Inr (\<lparr>rp_instance = ''x.y'', rp_owner = ''ann'', rp_name = ''code''\<rparr>, True) \<and>
   from_path ''a.b'' empty_repo ''/x/y'' = Inl OutOfRange"
proof -
  let ?r = "\<lparr>rp_instance = ''x.y'', rp_owner = ''ann'', rp_name = ''code''\<rparr>"
  let ?s = "\<lparr>rp_instance = [], rp_owner = ''x'', rp_name = ''y''\<rparr>"
  have "plain_repo ''a.b'' ?r" "plain_repo ''a.b'' ?s" by code_simp+
  moreover have "repo_path ?r = ''ann@x.y/code''" "repo_path ?s = ''x/y''" by code_simp+
  ultimately show ?thesis
    using repo_path_roundtrip [of "''a.b''" ?r "[SLASH, CHR ''@'']" empty_repo]
      repo_path_roundtrip [of "''a.b''" ?s "[SLASH]" empty_repo] by simp
qed

text \<open>
  \<open>canonical_url\<close> is meant to drop the instance's own domain from \<open>user@domain/repo\<close>; it never does.
\<close>

theorem canonical_keeps_domain:
  assumes "list_all (\<lambda>c. c \<notin> {SLASH, CHR ''@''}) u" "u \<noteq> []" "SLASH \<notin> set d" "d \<noteq> [] \<longrightarrow> hd d \<noteq> CHR ''@''"
    "\<not> ends_with (u @ ''@'' @ d @ ''/'' @ nm) ''.git''"
  shows "canonical_url d (u @ ''@'' @ d @ ''/'' @ nm) = Inr (u @ ''@'' @ d @ ''/'' @ nm)"
proof -
  let ?url = "u @ ''@'' @ d @ ''/'' @ nm"
  have u: "CHR ''@'' \<notin> set u" "SLASH \<notin> set u" "hd u \<noteq> SLASH"
    using assms(1,2) by (auto simp: list_all_iff dest: hd_in_set)
  have at: "find_char ?url (CHR ''@'') 0 = Some (length u)"
    using find_char_append_hit [OF u(1), of "d @ ''/'' @ nm"] by simp
  have sl: "find_char ?url SLASH 0 = Some (length u + 1 + length d)"
    using find_char_append_hit [of SLASH "u @ ''@'' @ d" nm] u(2) assms(3) by simp
  have "substr ?url (length u) (length u + 1 + length d - length u) = CHR ''@'' # d" by (simp add: substr_def)
  then have ne: "substr ?url (length u) (length u + 1 + length d - length u) \<noteq> d"
    using assms(4) by (metis list.discI list.sel(1))
  have "length ?url \<ge> 3" using assms(2) by (cases u) auto
  moreover have "skip_slashes ?url = Inr ?url" using u(3) assms(2) by (simp add: skip_slashes_def)
  ultimately show ?thesis
    unfolding canonical_url_def using at sl ne assms(5)
    by (simp only: if_False not_less [symmetric] bind_result_simps option.case Let_def) simp
qed

theorem canonical_keeps_domain_witness: "canonical_url ''a.b'' ''ann@a.b/code'' = Inr ''ann@a.b/code''"
  using canonical_keeps_domain [of "''ann''" "''a.b''" "''code''"] by (simp add: ends_with_def)

section \<open>Access\<close>

datatype Access = AccessError | Blocked | Read | Write | Admin | Owner

fun access_level :: "Access \<Rightarrow> int" where
  "access_level AccessError = -1"
| "access_level Blocked = 0"
| "access_level Read = 1"
| "access_level Write = 2"
| "access_level Admin = 3"
| "access_level Owner = 4"

text \<open>The tables; a visibility is the integer of a \<open>fiy::Locality\<close>.\<close>

record repo_row =
  row_id :: int
  row_description :: string
  row_visibility :: int
  row_create_ts :: int

record git_db =
  tbl_repos :: "(string \<times> string) \<rightharpoonup> repo_row"
  tbl_access :: "(string \<times> string \<times> int) list"
  tbl_forks :: "(string \<times> string) list"
  tbl_likes :: "(string \<times> string) list"
  tbl_tickets :: "int list"

fun locality_int :: "Locality \<Rightarrow> int" where
  "locality_int L_USER = 0"
| "locality_int L_INSTANCE = 1"
| "locality_int L_FEDIVERSE = 2"
| "locality_int L_PUBLIC = 3"

definition access_user_str :: "string option \<Rightarrow> string option \<Rightarrow> string" where
  "access_user_str user udom =
     (case user of None \<Rightarrow> [] | Some u \<Rightarrow> u) @ (case udom of None \<Rightarrow> [] | Some d \<Rightarrow> ''@'' @ d)"

definition user_can_access_local ::
  "git_db \<Rightarrow> 'a BasicRepo_scheme \<Rightarrow> Access \<Rightarrow> string option \<Rightarrow> string option \<Rightarrow> bool" where
  "user_can_access_local db r min_level user udom \<longleftrightarrow>
     list_ex (\<lambda>(path, u, level). path = repo_path r \<and> u = access_user_str user udom \<and> level \<ge> access_level min_level)
       (tbl_access db)"

definition can_access_local ::
  "git_db \<Rightarrow> 'a BasicRepo_scheme \<Rightarrow> Access \<Rightarrow> string option \<Rightarrow> string option \<Rightarrow> bool" where
  "can_access_local db r min_level user udom \<longleftrightarrow>
     (if \<not> repo_is_local r then True
      else if user = Some (rp_owner r) then access_level min_level \<le> access_level Owner
      else if access_level min_level \<le> access_level Read then
        (case tbl_repos db (rp_owner r, rp_name r) of
           None \<Rightarrow> False
         | Some row \<Rightarrow>
             (if row_visibility row = locality_int L_PUBLIC then True
              else if row_visibility row = locality_int L_FEDIVERSE then user \<noteq> None \<and> udom \<noteq> None
              else if row_visibility row = locality_int L_INSTANCE then user \<noteq> None \<and> udom = None
              else False))
      else if user = None then False
      else user_can_access_local db r min_level user udom)"

record LocalRepo = BasicRepo +
  lr_description :: string
  lr_visibility :: int
  lr_fork_of :: string
  lr_id :: int
  lr_create_ts :: int

text \<open>The constructor.\<close>

definition load_local_repo :: "git_db \<Rightarrow> BasicRepo \<Rightarrow> LocalRepo" where
  "load_local_repo db r =
     (let r0 = \<lparr>rp_instance = rp_instance r, rp_owner = rp_owner r, rp_name = rp_name r,
                lr_description = [], lr_visibility = 0, lr_fork_of = [], lr_id = -1, lr_create_ts = -1\<rparr>
      in case tbl_repos db (rp_owner r, rp_name r) of
           None \<Rightarrow> r0
         | Some row \<Rightarrow>
             r0\<lparr>lr_description := row_description row, lr_visibility := row_visibility row,
                lr_create_ts := row_create_ts row, lr_id := row_id row,
                lr_fork_of := (case find (\<lambda>(from_p, to_p). to_p = repo_path r) (tbl_forks db) of
                                 Some (from_p, _) \<Rightarrow> from_p | None \<Rightarrow> [])\<rparr>)"

definition valid_repo :: "LocalRepo \<Rightarrow> bool" where
  "valid_repo r \<longleftrightarrow> lr_create_ts r \<noteq> -1"

definition can_access_repo :: "git_db \<Rightarrow> LocalRepo \<Rightarrow> Access \<Rightarrow> string option \<Rightarrow> string option \<Rightarrow> bool" where
  "can_access_repo db r min_level user udom \<longleftrightarrow>
     (let local_owner = (udom = None \<and> user = Some (rp_owner r));
          rest = (if local_owner then access_level min_level \<le> access_level Owner
                  else user_can_access_local db r min_level user udom)
      in if \<not> repo_is_local r then True
         else if access_level min_level \<le> access_level Read then
           (if lr_visibility r = locality_int L_PUBLIC then True
            else if lr_visibility r = locality_int L_FEDIVERSE then user \<noteq> None
            else if lr_visibility r = locality_int L_INSTANCE then user \<noteq> None \<and> udom = None
            else if lr_visibility r = locality_int L_USER then (if local_owner then True else rest)
            else False)
         else rest)"

text \<open>
  More than reading a local repository takes its owner, of this instance, or an entry of the access
  table for exactly this user, domain included, with at least that level.
\<close>

theorem write_needs_grant:
  assumes "can_access_repo db r level user udom" "repo_is_local r" "access_level level > access_level Read"
  shows "(user = Some (rp_owner r) \<and> udom = None) \<or>
    (\<exists>lv \<ge> access_level level. (repo_path r, access_user_str user udom, lv) \<in> set (tbl_access db))"
  using assms
  by (auto simp: can_access_repo_def user_can_access_local_def list_ex_iff Let_def split: if_splits)

theorem access_checks_disagree:
  fixes r :: LocalRepo
  assumes "repo_is_local r" "\<forall>lv. (repo_path r, rp_owner r @ ''@'' @ d, lv) \<notin> set (tbl_access db)"
  shows "can_access_local db r Owner (Some (rp_owner r)) (Some d) \<and>
    \<not> can_access_repo db r Write (Some (rp_owner r)) (Some d)"
  using assms
  by (auto simp: can_access_local_def can_access_repo_def user_can_access_local_def access_user_str_def list_ex_iff Let_def)

definition demo_db :: git_db where
  "demo_db = \<lparr>tbl_repos = [(''ann'', ''code'') \<mapsto>
       \<lparr>row_id = 1, row_description = ''secret'', row_visibility = 0, row_create_ts = 9\<rparr>],
     tbl_access = [(''ann/code'', ''bob@x.y'', 2)], tbl_forks = [], tbl_likes = [], tbl_tickets = []\<rparr>"

definition demo_repo :: BasicRepo where
  "demo_repo = \<lparr>rp_instance = [], rp_owner = ''ann'', rp_name = ''code''\<rparr>"

theorem write_needs_grant_witness:
  "(''ann/code'', ''bob@x.y'', 2) \<in> set (tbl_access demo_db) \<and>
   (\<exists>lv \<ge> 2. (''ann/code'', ''bob@x.y'', lv) \<in> set (tbl_access demo_db))"
proof -
  let ?r = "load_local_repo demo_db demo_repo"
  have "can_access_repo demo_db ?r Write (Some ''bob'') (Some ''x.y'')" "repo_is_local ?r" by code_simp+
  moreover have "repo_path ?r = ''ann/code''" "access_user_str (Some ''bob'') (Some ''x.y'') = ''bob@x.y''"
    "rp_owner ?r = ''ann''" by code_simp+
  ultimately have "\<exists>lv \<ge> 2. (''ann/code'', ''bob@x.y'', lv) \<in> set (tbl_access demo_db)"
    using write_needs_grant [of demo_db ?r Write "Some ''bob''" "Some ''x.y''"] by simp
  then show ?thesis by (simp add: demo_db_def)
qed

section \<open>Creating a repository\<close>

text \<open>
  The directories that exist, as element lists, and the outcomes of libgit2 and of the insertion: the
  number of rows, or \<open>None\<close> when the library throws.
  \<open>create_directory\<close> returns false for an existing one and throws without a parent.
\<close>

record git_store =
  gs_db :: git_db
  gs_dirs :: "string list list"

definition create_directory :: "git_store \<Rightarrow> string \<Rightarrow> (git_store \<times> bool) option" where
  "create_directory st p =
     (let d = lexically_normal p
      in if d \<in> set (gs_dirs st) then Some (st, False)
         else if butlast d \<in> set (gs_dirs st) then Some (st\<lparr>gs_dirs := d # gs_dirs st\<rparr>, True)
         else None)"

datatype create_outcome = Created | CreateError string | CreateThrew cxx_error

definition create_repo ::
  "string \<Rightarrow> int \<Rightarrow> bool \<Rightarrow> int option \<Rightarrow> int \<Rightarrow> git_store \<Rightarrow> BasicRepo \<Rightarrow> string \<Rightarrow> int \<Rightarrow> git_store \<times> create_outcome" where
  "create_repo data_dir now git_ok inserted new_id st r description visibility =
     (if rp_instance r \<noteq> [] then (st, CreateError ''4XX: Cannot create non-local repo'')
      else if tbl_repos (gs_db st) (rp_owner r, rp_name r) \<noteq> None
      then (st, CreateError ''4XX: Repo with same name already exists'')
      else let user_dir = data_dir @ ''/repos/'' @ rp_owner r;
               with_user_dir =
                 (if lexically_normal user_dir \<in> set (gs_dirs st) then Some (st, True) else create_directory st user_dir)
           in case with_user_dir of
                None \<Rightarrow> (st, CreateThrew RuntimeError)
              | Some (st1, False) \<Rightarrow> (st1, CreateError ''5XX: Failed to create user repos directory'')
              | Some (st1, True) \<Rightarrow>
                  (case create_directory st1 (user_dir @ ''/'' @ rp_name r) of
                     None \<Rightarrow> (st1, CreateThrew RuntimeError)
                   | Some (st2, False) \<Rightarrow> (st2, CreateError ''5XX: Failed to create repo directory'')
                   | Some (st2, True) \<Rightarrow>
                       (if \<not> git_ok
                        then (st2, CreateError ''5XX: Server Error: Failed to create bare git repo.'')
                        else case inserted of
                               None \<Rightarrow> (st2, CreateThrew DatabaseError)
                             | Some n \<Rightarrow>
                                 (if n \<le> 0
                                  then (st2, CreateError ''5XX: Database Error: Failed to create database entry'')
                                  else (st2\<lparr>gs_db := (gs_db st2)\<lparr>tbl_repos := (tbl_repos (gs_db st2))
                                         ((rp_owner r, rp_name r) \<mapsto>
                                           \<lparr>row_id = new_id, row_description = description, row_visibility = visibility,
                                            row_create_ts = now\<rparr>)\<rparr>\<rparr>, Created)))))"

lemma create_directory_facts:
  "create_directory st p = Some (st', made) \<Longrightarrow>
   gs_db st' = gs_db st \<and> set (gs_dirs st) \<subseteq> set (gs_dirs st') \<and> lexically_normal p \<in> set (gs_dirs st') \<and>
   (made \<longleftrightarrow> lexically_normal p \<notin> set (gs_dirs st))"
  by (auto simp: create_directory_def Let_def split: if_splits)

lemma create_directory_again:
  "create_directory st p = Some (st', made) \<Longrightarrow> set (gs_dirs st') \<subseteq> set (gs_dirs st'') \<Longrightarrow>
   create_directory st'' p = Some (st'', False)"
  using create_directory_facts [of st p st' made] by (auto simp: create_directory_def Let_def)

text \<open>
  A creation that succeeds adds exactly its row and keeps every other table; one that fails keeps the
  whole database. But when it fails after the directory was made, the directory stays, and every
  later attempt for this repository fails too, with another message.
\<close>

theorem create_repo_effect:
  assumes "create_repo data_dir now git_ok inserted new_id st r description visibility = (st', res)"
  shows "(res = Created \<longrightarrow> tbl_repos (gs_db st') = (tbl_repos (gs_db st))((rp_owner r, rp_name r) \<mapsto>
      \<lparr>row_id = new_id, row_description = description, row_visibility = visibility, row_create_ts = now\<rparr>)) \<and>
    (res \<noteq> Created \<longrightarrow> gs_db st' = gs_db st) \<and>
    (res = CreateError ''5XX: Server Error: Failed to create bare git repo.'' \<longrightarrow>
       (\<forall>ok ok' i now'. create_repo data_dir now' ok ok' i st' r description visibility =
          (st', CreateError ''5XX: Failed to create repo directory'')))"
proof (intro conjI impI)
  note split = prod.splits option.splits bool.splits if_splits
  show "tbl_repos (gs_db st') = (tbl_repos (gs_db st))((rp_owner r, rp_name r) \<mapsto>
      \<lparr>row_id = new_id, row_description = description, row_visibility = visibility, row_create_ts = now\<rparr>)"
    if "res = Created"
    using assms that
    by (auto simp: create_repo_def Let_def dest!: create_directory_facts split: split)
  show "gs_db st' = gs_db st" if "res \<noteq> Created"
    using assms that
    by (auto simp: create_repo_def Let_def dest!: create_directory_facts split: split)
  assume res: "res = CreateError ''5XX: Server Error: Failed to create bare git repo.''"
  let ?u = "data_dir @ ''/repos/'' @ rp_owner r"
  from assms res obtain st1 where l: "rp_instance r = []" "tbl_repos (gs_db st) (rp_owner r, rp_name r) = None"
    and u: "st1 = st \<and> lexically_normal ?u \<in> set (gs_dirs st) \<or> create_directory st ?u = Some (st1, True)"
    and d: "create_directory st1 (?u @ ''/'' @ rp_name r) = Some (st', True)"
    by (auto simp: create_repo_def Let_def split: split)
  have "gs_db st' = gs_db st" "lexically_normal ?u \<in> set (gs_dirs st')"
    using u create_directory_facts [OF d] by (auto dest!: create_directory_facts)
  with l create_directory_again [OF d order_refl]
  show "\<forall>ok ok' i now'. create_repo data_dir now' ok ok' i st' r description visibility =
      (st', CreateError ''5XX: Failed to create repo directory'')"
    by (simp add: create_repo_def Let_def)
qed

definition demo_store :: git_store where
  "demo_store = \<lparr>gs_db = demo_db, gs_dirs = [[''/'', ''d'', ''repos''], [''/'', ''d'', ''repos'', ''ann''], [''/'', ''d'', ''repos'', ''bob'']]\<rparr>"

theorem access_checks_disagree_witness:
  "can_access_local demo_db (load_local_repo demo_db demo_repo) Owner (Some ''ann'') (Some ''evil.com'') \<and>
   \<not> can_access_repo demo_db (load_local_repo demo_db demo_repo) Write (Some ''ann'') (Some ''evil.com'')"
proof -
  let ?r = "load_local_repo demo_db demo_repo"
  have "repo_is_local ?r" "rp_owner ?r = ''ann''" by code_simp+
  moreover have "\<forall>lv. (repo_path ?r, rp_owner ?r @ ''@'' @ ''evil.com'', lv) \<notin> set (tbl_access demo_db)"
    using \<open>rp_owner ?r = ''ann''\<close> by (simp add: demo_db_def)
  ultimately show ?thesis using access_checks_disagree [of ?r "''evil.com''" demo_db] by simp
qed

theorem create_repo_effect_witness:
  "snd (create_repo ''/d'' 5 False (Some 1) 2 demo_store \<lparr>rp_instance = [], rp_owner = ''ann'', rp_name = ''new''\<rparr> [] 3) =
     CreateError ''5XX: Server Error: Failed to create bare git repo.'' \<and>
   snd (create_repo ''/d'' 6 True (Some 1) 2
     (fst (create_repo ''/d'' 5 False (Some 1) 2 demo_store \<lparr>rp_instance = [], rp_owner = ''ann'', rp_name = ''new''\<rparr> [] 3))
     \<lparr>rp_instance = [], rp_owner = ''ann'', rp_name = ''new''\<rparr> [] 3) = CreateError ''5XX: Failed to create repo directory''"
proof -
  let ?r = "\<lparr>rp_instance = [], rp_owner = ''ann'', rp_name = ''new''\<rparr> :: BasicRepo"
  let ?c = "create_repo ''/d'' 5 False (Some 1) 2 demo_store ?r [] 3"
  have s: "snd ?c = CreateError ''5XX: Server Error: Failed to create bare git repo.''" by code_simp
  have "?c = (fst ?c, CreateError ''5XX: Server Error: Failed to create bare git repo.'')" by (simp add: s [symmetric])
  from create_repo_effect [OF this] show ?thesis using s by simp
qed

subsection \<open>A name is not checked\<close>

lemma path_names_append: "path_names (s @ SLASH # t) = path_names s @ path_names t"
  by (simp add: path_names_def split_on_append)

definition plain_name :: "string \<Rightarrow> bool" where
  "plain_name n \<longleftrightarrow> n \<notin> {[], ''.'', ''..''} \<and> SLASH \<notin> set n"

lemma path_names_plain: "SLASH \<notin> set n \<Longrightarrow> n \<noteq> [] \<Longrightarrow> path_names n = [n]"
  by (simp add: path_names_def split_on_absent)

lemma normal_elements_plain:
  "list_all plain_name es \<Longrightarrow> normal_elements st (es @ fs) = normal_elements (rev es @ st) fs"
  by (induction es arbitrary: st) (auto simp: plain_name_def)

lemma lexically_normal_names:
  assumes "is_absolute p" "last p \<noteq> SLASH"
  shows "lexically_normal p = normal_elements [[SLASH]] (path_names p)"
proof -
  have "normal_elements [] (path_elements p) = normal_elements [[SLASH]] (path_names p)"
    using assms by (simp add: path_elements_def)
  moreover have "normal_elements [[SLASH]] (path_names p) \<noteq> []"
    using normal_elements_no_dots [of "[[SLASH]]" "path_names p"] by (simp add: no_dots_def)
  ultimately show ?thesis by (simp add: lexically_normal_def Let_def)
qed

lemma repo_dir_elements:
  assumes "is_absolute data_dir" "list_all plain_name (path_names data_dir)" "list_all plain_name ns" "ns \<noteq> []"
    "path_names t = pre @ ns" "normal_elements (rev (path_names data_dir @ [''repos'']) @ [[SLASH]]) (pre @ ns) =
      [[SLASH]] @ path_names data_dir @ [''repos''] @ ns" "t \<noteq> []" "last t \<noteq> SLASH"
  shows "lexically_normal (data_dir @ ''/repos/'' @ t) = [[SLASH]] @ path_names data_dir @ [''repos''] @ ns"
proof -
  have "path_names (data_dir @ SLASH # ''repos'' @ SLASH # t) = path_names data_dir @ [''repos''] @ pre @ ns"
    using assms(5) by (simp only: path_names_append) (simp add: path_names_plain)
  then have "path_names (data_dir @ ''/repos/'' @ t) = (path_names data_dir @ [''repos'']) @ pre @ ns" by simp
  moreover have "is_absolute (data_dir @ ''/repos/'' @ t)" using assms(1) by (cases data_dir) (auto simp: is_absolute_def)
  moreover have p: "list_all plain_name (path_names data_dir @ [''repos''])" using assms(2) by (simp add: plain_name_def)
  moreover have "last (data_dir @ ''/repos/'' @ t) \<noteq> SLASH" using assms(7,8) by simp
  ultimately have "lexically_normal (data_dir @ ''/repos/'' @ t) =
      normal_elements [[SLASH]] ((path_names data_dir @ [''repos'']) @ pre @ ns)"
    using lexically_normal_names by metis
  also have "\<dots> = normal_elements (rev (path_names data_dir @ [''repos'']) @ [[SLASH]]) (pre @ ns)"
    using p by (rule normal_elements_plain)
  finally show ?thesis using assms(6) by simp
qed

lemma plain_name_repo_dir:
  assumes "is_absolute data_dir" "list_all plain_name (path_names data_dir)" "plain_name n" "plain_name x"
  shows "lexically_normal (data_dir @ ''/repos/'' @ n) = [[SLASH]] @ path_names data_dir @ [''repos'', n]"
    and "lexically_normal (data_dir @ ''/repos/'' @ n @ ''/'' @ x) = [[SLASH]] @ path_names data_dir @ [''repos'', n, x]"
proof -
  have n: "n \<noteq> []" "SLASH \<notin> set n" "x \<noteq> []" "SLASH \<notin> set x" using assms(3,4) by (auto simp: plain_name_def)
  then have l: "last n \<noteq> SLASH" "last x \<noteq> SLASH" by (metis last_in_set)+
  have ne: "normal_elements st [n] = rev st @ [n]" "normal_elements st [n, x] = rev st @ [n, x]" for st
    using assms(3,4) by (simp_all add: plain_name_def)
  show "lexically_normal (data_dir @ ''/repos/'' @ n) = [[SLASH]] @ path_names data_dir @ [''repos'', n]"
    using repo_dir_elements [OF assms(1,2), of "[n]" n "[]"] n l assms(3)
    by (simp add: path_names_plain ne del: normal_elements.simps)
  have "path_names (n @ SLASH # x) = [n, x]" using n by (simp add: path_names_append path_names_plain)
  then show "lexically_normal (data_dir @ ''/repos/'' @ n @ ''/'' @ x) = [[SLASH]] @ path_names data_dir @ [''repos'', n, x]"
    using repo_dir_elements [OF assms(1,2), of "[n, x]" "n @ ''/'' @ x" "[]"] n l assms(3,4)
    by (simp add: ne del: normal_elements.simps)
qed

text \<open>
  The name comes from a form and is not checked: \<open>../bob/x\<close> makes a repository of this user in the
  directory of another one, who then cannot create \<open>x\<close>.
\<close>

theorem create_escapes_owner:
  assumes "is_absolute data_dir" "list_all plain_name (path_names data_dir)"
    "plain_name u" "plain_name v" "plain_name x"
    "tbl_repos (gs_db st) (u, ''../'' @ v @ ''/'' @ x) = None" "tbl_repos (gs_db st) (v, x) = None" "x \<noteq> [] \<and> v \<noteq> u"
    "lexically_normal (data_dir @ ''/repos/'' @ u) \<in> set (gs_dirs st)"
    "lexically_normal (data_dir @ ''/repos/'' @ v) \<in> set (gs_dirs st)"
    "lexically_normal (data_dir @ ''/repos/'' @ v @ ''/'' @ x) \<notin> set (gs_dirs st)"
  shows "\<exists>st'. create_repo data_dir now True (Some 1) i st
      \<lparr>rp_instance = [], rp_owner = u, rp_name = ''../'' @ v @ ''/'' @ x\<rparr> descr vis = (st', Created) \<and>
    lexically_normal (data_dir @ ''/repos/'' @ v @ ''/'' @ x) \<in> set (gs_dirs st') \<and>
    create_repo data_dir now True (Some 1) i st' \<lparr>rp_instance = [], rp_owner = v, rp_name = x\<rparr> descr vis =
      (st', CreateError ''5XX: Failed to create repo directory'')"
proof -
  let ?up = "data_dir @ ''/repos/'' @ u @ ''/'' @ ''../'' @ v @ ''/'' @ x"
  let ?vx = "data_dir @ ''/repos/'' @ v @ ''/'' @ x"
  have n: "u \<noteq> []" "SLASH \<notin> set u" "v \<noteq> []" "SLASH \<notin> set v" "x \<noteq> []" "SLASH \<notin> set x"
    using assms(3-5) by (auto simp: plain_name_def)
  have lx: "last x \<noteq> SLASH" using n by (metis last_in_set)
  have pn: "path_names (u @ SLASH # ''..'' @ SLASH # v @ SLASH # x) = [u, ''..'', v, x]"
    using n by (simp only: path_names_append) (simp add: path_names_plain)
  have "u \<noteq> [SLASH]" using n by auto
  then have ne: "normal_elements st [u, ''..'', v, x] = rev st @ [v, x]" for st
    using assms(3-5) by (simp add: plain_name_def)
  have "lexically_normal ?up = [[SLASH]] @ path_names data_dir @ [''repos'', v, x]"
    using repo_dir_elements [OF assms(1,2), of "[v, x]" "u @ SLASH # ''..'' @ SLASH # v @ SLASH # x" "[u, ''..'']"]
      n lx assms(4,5) pn by (simp add: ne del: normal_elements.simps)
  then have same: "lexically_normal ?up = lexically_normal ?vx"
    using plain_name_repo_dir(2) [OF assms(1,2,4,5)] by simp
  have parent: "butlast (lexically_normal ?vx) \<in> set (gs_dirs st)"
    using assms(10) plain_name_repo_dir [OF assms(1,2,4,5)] by (simp add: butlast_append)
  let ?st = "st\<lparr>gs_dirs := lexically_normal ?vx # gs_dirs st\<rparr>"
  have mk: "create_directory st ?up = Some (?st, True)"
    using same parent assms(11) by (simp add: create_directory_def Let_def)
  let ?row = "\<lparr>row_id = i, row_description = descr, row_visibility = vis, row_create_ts = now\<rparr>"
  let ?st' = "?st\<lparr>gs_db := (gs_db st)\<lparr>tbl_repos := (tbl_repos (gs_db st))((u, ''../'' @ v @ ''/'' @ x) \<mapsto> ?row)\<rparr>\<rparr>"
  have c1: "create_repo data_dir now True (Some 1) i st
      \<lparr>rp_instance = [], rp_owner = u, rp_name = ''../'' @ v @ ''/'' @ x\<rparr> descr vis = (?st', Created)"
    using assms(6,9) mk by (simp add: create_repo_def Let_def)
  have "create_directory ?st' ?vx = Some (?st', False)" by (simp add: create_directory_def Let_def)
  then have "create_repo data_dir now True (Some 1) i ?st' \<lparr>rp_instance = [], rp_owner = v, rp_name = x\<rparr> descr vis =
      (?st', CreateError ''5XX: Failed to create repo directory'')"
    using assms(7,8,10) by (simp add: create_repo_def Let_def)
  with c1 show ?thesis by auto
qed

theorem create_escapes_owner_witness:
  "\<exists>st'. create_repo ''/d'' 5 True (Some 1) 2 demo_store
      \<lparr>rp_instance = [], rp_owner = ''ann'', rp_name = ''../bob/x''\<rparr> [] 3 = (st', Created) \<and>
    [''/'', ''d'', ''repos'', ''bob'', ''x''] \<in> set (gs_dirs st')"
proof -
  have "is_absolute ''/d''" "list_all plain_name (path_names ''/d'')" "plain_name ''ann''" "plain_name ''bob''"
    "plain_name ''x''" "tbl_repos (gs_db demo_store) (''ann'', ''../bob/x'') = None"
    "tbl_repos (gs_db demo_store) (''bob'', ''x'') = None"
    "lexically_normal (''/d'' @ ''/repos/'' @ ''ann'') \<in> set (gs_dirs demo_store)"
    "lexically_normal (''/d'' @ ''/repos/'' @ ''bob'') \<in> set (gs_dirs demo_store)"
    "lexically_normal (''/d'' @ ''/repos/'' @ ''bob'' @ ''/'' @ ''x'') \<notin> set (gs_dirs demo_store)"
    by code_simp+
  moreover have "lexically_normal (''/d'' @ ''/repos/'' @ ''bob'' @ ''/'' @ ''x'') = [''/'', ''d'', ''repos'', ''bob'', ''x'']"
    by code_simp
  ultimately show ?thesis
    using create_escapes_owner [of "''/d''" "''ann''" "''bob''" "''x''" demo_store 5 2 "[]" 3] by auto
qed

section \<open>The cache of open repositories\<close>

text \<open>
  \<open>m_cache\<close> holds weak pointers, \<open>m_cache_lru\<close> shared ones, as do the callers (\<open>rc_held\<close>, one entry
  per pointer). The destructor takes the lock of \<open>m_cache\<close> to erase the path. \<open>LockedUp\<close>: a thread
  waits for a lock that it holds.
\<close>

record repo_cache =
  rc_cache :: "string \<rightharpoonup> nat"
  rc_lru :: "nat list"
  rc_held :: "nat list"
  rc_objects :: "nat \<rightharpoonup> LocalRepo"
  rc_next :: nat
  rc_lru_max :: nat

definition new_repo_cache :: "nat \<Rightarrow> repo_cache" where
  "new_repo_cache n = \<lparr>rc_cache = Map.empty, rc_lru = [], rc_held = [], rc_objects = Map.empty, rc_next = 0, rc_lru_max = n\<rparr>"

datatype 'a locking = Done 'a | LockedUp

text \<open>\<open>get_repos_cache_size\<close>: the number in the environment variable, 30 for none or zero.\<close>

definition get_repos_cache_size :: "int option \<Rightarrow> nat" where
  "get_repos_cache_size env =
     (let n = (case env of None \<Rightarrow> 0 | Some i \<Rightarrow> nat (i mod 2 ^ 64)) in if n = 0 then 30 else n)"

definition destroy_repo :: "repo_cache \<Rightarrow> nat \<Rightarrow> repo_cache" where
  "destroy_repo s i =
     (case rc_objects s i of
        None \<Rightarrow> s
      | Some r \<Rightarrow> s\<lparr>rc_objects := (rc_objects s)(i := None), rc_cache := (rc_cache s)(repo_path r := None)\<rparr>)"

text \<open>A caller drops its pointer, holding no lock.\<close>

definition release_repo :: "repo_cache \<Rightarrow> nat \<Rightarrow> repo_cache" where
  "release_repo s i =
     (let s1 = s\<lparr>rc_held := remove1 i (rc_held s)\<rparr>
      in if i \<in> set (rc_held s1) \<or> i \<in> set (rc_lru s1) then s1 else destroy_repo s1 i)"

text \<open>Called with the lock of \<open>m_cache\<close> held: clearing the list may run destructors, which wait for it.\<close>

definition cache_lru_push :: "repo_cache \<Rightarrow> nat \<Rightarrow> repo_cache locking" where
  "cache_lru_push s i =
     (if rc_lru_max s = 0 then Done s
      else if length (rc_lru s) < rc_lru_max s then Done (s\<lparr>rc_lru := rc_lru s @ [i]\<rparr>)
      else if list_ex (\<lambda>j. j \<notin> set (rc_held s)) (rc_lru s) then LockedUp
      else Done (s\<lparr>rc_lru := [i]\<rparr>))"

definition add_repo_object :: "git_db \<Rightarrow> repo_cache \<Rightarrow> BasicRepo \<Rightarrow> repo_cache \<times> nat" where
  "add_repo_object db s r =
     (let i = rc_next s
      in (s\<lparr>rc_objects := (rc_objects s)(i \<mapsto> load_local_repo db r), rc_held := i # rc_held s, rc_next := i + 1\<rparr>, i))"

definition get_repo :: "git_db \<Rightarrow> repo_cache \<Rightarrow> BasicRepo \<Rightarrow> (repo_cache \<times> nat) locking" where
  "get_repo db s r =
     (case (case rc_cache s (repo_path r) of
              Some i \<Rightarrow> if rc_objects s i \<noteq> None then Some i else None
            | None \<Rightarrow> None) of
        Some i \<Rightarrow>
          (case cache_lru_push (s\<lparr>rc_held := i # rc_held s\<rparr>) i of
             Done s1 \<Rightarrow> Done (s1, i)
           | LockedUp \<Rightarrow> LockedUp)
      | None \<Rightarrow>
          (case add_repo_object db s r of (s1, i) \<Rightarrow>
             Done (s1\<lparr>rc_cache := (rc_cache s1)(repo_path r \<mapsto> i)\<rparr>, i)))"

text \<open>\<open>get_repos\<close>: \<open>emplace\<close> keeps an entry of the path that is there; the list is not touched.\<close>

fun get_repos :: "git_db \<Rightarrow> repo_cache \<Rightarrow> BasicRepo list \<Rightarrow> repo_cache \<times> nat list" where
  "get_repos db s [] = (s, [])"
| "get_repos db s (r # rs) =
     (let (s1, i) =
        (case (case rc_cache s (repo_path r) of
                 Some i \<Rightarrow> if rc_objects s i \<noteq> None then Some i else None
               | None \<Rightarrow> None) of
           Some i \<Rightarrow> (s\<lparr>rc_held := i # rc_held s\<rparr>, i)
         | None \<Rightarrow>
             (case add_repo_object db s r of (s1, i) \<Rightarrow>
                (s1\<lparr>rc_cache := map_emplace (rc_cache s1) (repo_path r) i\<rparr>, i)));
        (s2, is) = get_repos db s1 rs
      in (s2, i # is))"

section \<open>One live object per path\<close>

inductive cache_step :: "git_db \<Rightarrow> repo_cache \<Rightarrow> repo_cache \<Rightarrow> bool" for db where
  step_get: "get_repo db s r = Done (s', i) \<Longrightarrow> cache_step db s s'"
| step_get_many: "get_repos db s rs = (s', is) \<Longrightarrow> cache_step db s s'"
| step_release: "i \<in> set (rc_held s) \<Longrightarrow> cache_step db s (release_repo s i)"

definition cache_inv :: "repo_cache \<Rightarrow> bool" where
  "cache_inv s \<longleftrightarrow>
     (\<forall>p i. rc_cache s p = Some i \<longleftrightarrow> (\<exists>r. rc_objects s i = Some r \<and> repo_path r = p)) \<and>
     dom (rc_objects s) = set (rc_held s) \<union> set (rc_lru s) \<and>
     (\<forall>i \<in> dom (rc_objects s). i < rc_next s)"

lemma cache_invD:
  assumes "cache_inv s"
  shows "rc_cache s p = Some i \<longleftrightarrow> (\<exists>r. rc_objects s i = Some r \<and> repo_path r = p)"
    and "dom (rc_objects s) = set (rc_held s) \<union> set (rc_lru s)"
    and "i \<in> dom (rc_objects s) \<Longrightarrow> i < rc_next s"
  using assms by (simp_all add: cache_inv_def)

lemma load_local_repo_path [simp]: "repo_path (load_local_repo db r) = repo_path r"
  by (simp add: load_local_repo_def repo_path_def owner_user_def Let_def split: option.split)

lemma cache_inv_new: "cache_inv (new_repo_cache n)"
  by (simp add: cache_inv_def new_repo_cache_def)

lemma cache_inv_hit: "cache_inv s \<Longrightarrow> rc_cache s p = Some i \<Longrightarrow> \<exists>r. rc_objects s i = Some r \<and> repo_path r = p"
  using cache_invD(1) by blast

lemma cache_inv_hold: "cache_inv s \<Longrightarrow> rc_objects s i \<noteq> None \<Longrightarrow> cache_inv (s\<lparr>rc_held := i # rc_held s\<rparr>)"
  by (auto simp: cache_inv_def)

lemma cache_inv_push:
  assumes inv: "cache_inv s" and i: "i \<in> set (rc_held s)" and push: "cache_lru_push s i = Done s'"
  shows "cache_inv s'"
proof -
  have same: "rc_cache s' = rc_cache s" "rc_objects s' = rc_objects s" "rc_held s' = rc_held s" "rc_next s' = rc_next s"
    using push by (auto simp: cache_lru_push_def split: if_splits)
  have "set (rc_held s) \<union> set (rc_lru s') = set (rc_held s) \<union> set (rc_lru s)"
    using push i by (auto simp: cache_lru_push_def list_ex_iff split: if_splits)
  with inv same show ?thesis by (simp add: cache_inv_def)
qed

lemma cache_inv_add:
  assumes "cache_inv s" "rc_cache s (repo_path r) = None"
  shows "cache_inv (s\<lparr>rc_objects := (rc_objects s)(rc_next s \<mapsto> load_local_repo db r),
    rc_held := rc_next s # rc_held s, rc_next := rc_next s + 1, rc_cache := (rc_cache s)(repo_path r \<mapsto> rc_next s)\<rparr>)"
proof -
  have new: "rc_objects s (rc_next s) = None" using cache_invD(3) [OF assms(1), of "rc_next s"] by blast
  have no: "repo_path q \<noteq> repo_path r" if "rc_objects s i = Some q" for i q
    using assms(2) cache_invD(1) [OF assms(1), of "repo_path r" i] that by auto
  have A: "((rc_cache s)(repo_path r \<mapsto> rc_next s)) p = Some i \<longleftrightarrow>
      (\<exists>q. ((rc_objects s)(rc_next s \<mapsto> load_local_repo db r)) i = Some q \<and> repo_path q = p)" for p i
    using cache_invD(1) [OF assms(1), of p i] new no by (cases "i = rc_next s"; cases "p = repo_path r") auto
  show ?thesis
    using A cache_invD(2) [OF assms(1)] cache_invD(3) [OF assms(1)] by (auto simp: cache_inv_def less_Suc_eq)
qed

lemma cache_inv_get: "cache_inv s \<Longrightarrow> get_repo db s r = Done (s', i) \<Longrightarrow> cache_inv s'"
proof -
  assume inv: "cache_inv s" and g: "get_repo db s r = Done (s', i)"
  show "cache_inv s'"
  proof (cases "rc_cache s (repo_path r)")
    case None
    then show ?thesis
      using g cache_inv_add [OF inv None, of db] by (auto simp: get_repo_def add_repo_object_def Let_def)
  next
    case (Some j)
    then obtain q where "rc_objects s j = Some q" using inv cache_inv_hit by blast
    then have "cache_inv (s\<lparr>rc_held := j # rc_held s\<rparr>)" using inv by (intro cache_inv_hold) auto
    from cache_inv_push [OF this, of j] show ?thesis
      using g Some \<open>rc_objects s j = Some q\<close> by (auto simp: get_repo_def split: locking.splits)
  qed
qed

lemma cache_inv_get_many: "cache_inv s \<Longrightarrow> get_repos db s rs = (s', is) \<Longrightarrow> cache_inv s'"
proof (induction rs arbitrary: s s' "is")
  case (Cons r rs)
  show ?case
  proof (cases "rc_cache s (repo_path r)")
    case None
    then show ?thesis
      using Cons.IH [OF cache_inv_add [OF Cons.prems(1) None, of db]] Cons.prems(2)
      by (auto simp: add_repo_object_def Let_def split: prod.splits)
  next
    case (Some j)
    then obtain q where q: "rc_objects s j = Some q" using Cons.prems(1) cache_inv_hit by blast
    then have "cache_inv (s\<lparr>rc_held := j # rc_held s\<rparr>)" using Cons.prems(1) by (intro cache_inv_hold) auto
    from Cons.IH [OF this] show ?thesis
      using Cons.prems(2) Some q by (auto split: prod.splits)
  qed
qed simp

lemma cache_inv_release: "cache_inv s \<Longrightarrow> i \<in> set (rc_held s) \<Longrightarrow> cache_inv (release_repo s i)"
proof -
  assume inv: "cache_inv s" and i: "i \<in> set (rc_held s)"
  then have "i \<in> dom (rc_objects s)" using cache_invD(2) by blast
  then obtain r where r: "rc_objects s i = Some r" by blast
  have mem: "set (remove1 i (rc_held s)) - {i} = set (rc_held s) - {i}"
    by (auto simp: in_set_remove1 dest: notin_set_remove1)
  show "cache_inv (release_repo s i)"
  proof (cases "i \<in> set (remove1 i (rc_held s)) \<or> i \<in> set (rc_lru s)")
    case True
    then have "set (remove1 i (rc_held s)) \<union> set (rc_lru s) = set (rc_held s) \<union> set (rc_lru s)"
      using mem i by blast
    with True inv show ?thesis by (simp add: cache_inv_def release_repo_def Let_def)
  next
    case False
    then have rel: "release_repo s i = s\<lparr>rc_held := remove1 i (rc_held s), rc_objects := (rc_objects s)(i := None),
        rc_cache := (rc_cache s)(repo_path r := None)\<rparr>"
      using r by (simp add: release_repo_def destroy_repo_def Let_def)
    have A: "((rc_cache s)(repo_path r := None)) p = Some j \<longleftrightarrow>
        (\<exists>q. ((rc_objects s)(i := None)) j = Some q \<and> repo_path q = p)" for p j
      using cache_invD(1) [OF inv, of p j] cache_invD(1) [OF inv, of p i] r
      by (cases "j = i"; cases "p = repo_path r") auto
    have "dom (rc_objects s) - {i} = set (remove1 i (rc_held s)) \<union> set (rc_lru s)"
      using False mem cache_invD(2) [OF inv] by blast
    moreover from this have "\<forall>j \<in> set (remove1 i (rc_held s)) \<union> set (rc_lru s). j < rc_next s"
      using cache_invD(3) [OF inv] by blast
    ultimately show ?thesis using A by (simp add: rel cache_inv_def)
  qed
qed



section \<open>When the cache locks up, and when it caches\<close>

lemma replicate_steps:
  assumes "\<And>k. k < n \<Longrightarrow> step (f k) (f (Suc k))"
  shows "step\<^sup>*\<^sup>* (f 0) (f n)"
  using assms
proof (induction n)
  case (Suc n)
  then have "step\<^sup>*\<^sup>* (f 0) (f n)" by simp
  with Suc.prems [of n] show ?case by (simp add: rtranclp.rtrancl_into_rtrancl)
qed simp

definition busy_cache :: "git_db \<Rightarrow> BasicRepo \<Rightarrow> nat \<Rightarrow> nat \<Rightarrow> nat \<Rightarrow> repo_cache" where
  "busy_cache db r n l h =
     \<lparr>rc_cache = [repo_path r \<mapsto> 0], rc_lru = replicate l 0, rc_held = replicate h 0,
      rc_objects = [0 \<mapsto> load_local_repo db r], rc_next = 1, rc_lru_max = n\<rparr>"

lemma busy_cache_hit:
  "l < n \<Longrightarrow> get_repo db (busy_cache db r n l h) r = Done (busy_cache db r n (Suc l) (Suc h), 0)"
  by (simp add: get_repo_def busy_cache_def cache_lru_push_def replicate_append_same)

lemma busy_cache_release: "l > 0 \<Longrightarrow> release_repo (busy_cache db r n l (Suc h)) 0 = busy_cache db r n l h"
  by (simp add: release_repo_def busy_cache_def Let_def)

lemma cache_reaches_full:
  assumes "0 < n"
  shows "(cache_step db)\<^sup>*\<^sup>* (new_repo_cache n) (busy_cache db r n n 0)"
proof -
  have first: "cache_step db (new_repo_cache n) (busy_cache db r n 0 1)"
    by (rule step_get [of _ _ r _ 0])
      (simp add: get_repo_def new_repo_cache_def add_repo_object_def busy_cache_def Let_def)
  have fill: "(cache_step db)\<^sup>*\<^sup>* (busy_cache db r n 0 1) (busy_cache db r n n (Suc n))"
    using replicate_steps [of n "cache_step db" "\<lambda>k. busy_cache db r n k (Suc k)"] busy_cache_hit step_get
    by (metis One_nat_def)
  have "cache_step db (busy_cache db r n n (Suc n - k)) (busy_cache db r n n (Suc n - Suc k))" if "k < Suc n" for k
  proof -
    have "0 \<in> set (rc_held (busy_cache db r n n (Suc n - k)))" using that by (simp add: busy_cache_def)
    moreover have "release_repo (busy_cache db r n n (Suc n - k)) 0 = busy_cache db r n n (Suc n - Suc k)"
      using busy_cache_release [OF assms, of db r n "n - k"] that by (simp add: Suc_diff_le)
    ultimately show ?thesis by (metis step_release)
  qed
  then have drain: "(cache_step db)\<^sup>*\<^sup>* (busy_cache db r n n (Suc n)) (busy_cache db r n n 0)"
    using replicate_steps [of "Suc n" "cache_step db" "\<lambda>k. busy_cache db r n n (Suc n - k)"] by simp
  show ?thesis using first fill drain by (meson converse_rtranclp_into_rtranclp rtranclp_trans)
qed

text \<open>
  The cache can lock up: once the list is full of repositories that nobody uses any more, the
  second request for another one that is in use clears the list while it holds the lock of
  \<open>m_cache\<close>, and the destructors wait for that lock, for ever.
\<close>

theorem repo_cache_locks_up:
  fixes q r :: BasicRepo
  assumes "0 < n" "repo_path q \<noteq> repo_path r"
  shows "\<exists>s. (cache_step db)\<^sup>*\<^sup>* (new_repo_cache n) s \<and> get_repo db s q = LockedUp"
proof -
  let ?b = "busy_cache db r n n 0"
  let ?s = "?b\<lparr>rc_objects := (rc_objects ?b)(1 \<mapsto> load_local_repo db q), rc_held := [1], rc_next := 2,
    rc_cache := (rc_cache ?b)(repo_path q \<mapsto> 1)\<rparr>"
  have "get_repo db ?b q = Done (?s, 1)"
    using assms(2) by (simp add: get_repo_def add_repo_object_def busy_cache_def Let_def)
  then have "cache_step db ?b ?s" by (rule step_get)
  then have "(cache_step db)\<^sup>*\<^sup>* (new_repo_cache n) ?s"
    using cache_reaches_full [OF assms(1), of db r] by (simp add: rtranclp.rtrancl_into_rtrancl)
  moreover have "get_repo db ?s q = LockedUp"
    using assms(1) by (cases n) (simp_all add: get_repo_def cache_lru_push_def busy_cache_def)
  ultimately show ?thesis by blast
qed

theorem repo_cache_locks_up_witness:
  "\<exists>s. (cache_step demo_db)\<^sup>*\<^sup>* (new_repo_cache 30) s \<and> get_repo demo_db s demo_repo = LockedUp"
  by (rule repo_cache_locks_up [of 30 demo_repo "demo_repo\<lparr>rp_name := ''other''\<rparr>"])
    (simp_all add: demo_repo_def repo_path_def owner_user_def)

text \<open>Requests that are served one after the other never find anything in the cache.\<close>

definition serve_repo :: "git_db \<Rightarrow> repo_cache \<Rightarrow> BasicRepo \<Rightarrow> repo_cache" where
  "serve_repo db s r = (case get_repo db s r of Done (s', i) \<Rightarrow> release_repo s' i | LockedUp \<Rightarrow> s)"

lemma serve_repo_empty:
  "serve_repo db (new_repo_cache n\<lparr>rc_next := k\<rparr>) r = new_repo_cache n\<lparr>rc_next := Suc k\<rparr>"
  by (simp add: serve_repo_def get_repo_def new_repo_cache_def add_repo_object_def release_repo_def destroy_repo_def Let_def)

theorem repo_cache_never_hits:
  "foldl (serve_repo db) (new_repo_cache n) rs = new_repo_cache n\<lparr>rc_next := length rs\<rparr>"
proof -
  have "foldl (serve_repo db) (new_repo_cache n\<lparr>rc_next := k\<rparr>) rs = new_repo_cache n\<lparr>rc_next := k + length rs\<rparr>" for k
    by (induction rs arbitrary: k) (simp_all add: serve_repo_empty)
  from this [of 0] show ?thesis by (simp add: new_repo_cache_def)
qed

end
