(* ===== verification/Calendar.thy ===== *)
theory Calendar
  imports FiyPrelude
begin

text \<open>
  The calendar of the C library, as far as the sources use it: \<open>gmtime\<close> (days since 1 January 1970 to year, month and
  day) and the other way \<open>mktime\<close>, in a time zone with a fixed offset. Years are counted from March, in cycles of
  400, 100, 4 and 1 years.

  Shown: the two are inverse to each other on days, and the years of the timestamps that have four digits.
\<close>

definition civil_from_days :: "int \<Rightarrow> int \<times> int \<times> int" where
  "civil_from_days days =
     (let z = days + 719468; era = z div 146097; doe = z mod 146097;
          cent = min 3 (doe div 36524); doc = doe - 36524 * cent;
          quad = doc div 1461; doq = doc mod 1461;
          yq = min 3 (doq div 365); doy = doq - 365 * yq;
          mp = (5 * doy + 2) div 153;
          d = doy - (153 * mp + 2) div 5 + 1;
          m = (if mp < 10 then mp + 3 else mp - 9)
      in (era * 400 + cent * 100 + quad * 4 + yq + (if m \<le> 2 then 1 else 0), m, d))"

text \<open>Days of a date; a day or a month outside its range counts on.\<close>

definition days_from_civil :: "int \<Rightarrow> int \<Rightarrow> int \<Rightarrow> int" where
  "days_from_civil year month day =
     (let y0 = year + (month - 1) div 12; m = (month - 1) mod 12 + 1;
          y = (if m \<le> 2 then y0 - 1 else y0);
          era = y div 400; yoe = y mod 400;
          doy = (153 * (if m > 2 then m - 3 else m + 9) + 2) div 5 + day - 1
      in era * 146097 + (365 * yoe + yoe div 4 - yoe div 100 + doy) - 719468)"

definition two_digits :: "int \<Rightarrow> string" where
  "two_digits n = (if n < 10 then ''0'' @ show_int n else show_int n)"

lemma days_from_civil_eq:
  assumes "1 \<le> m" "m \<le> 12" "(if m \<le> 2 then y - 1 else y) = era * 400 + yoe" "0 \<le> yoe" "yoe \<le> 399"
    and "mq = (if m > 2 then m - 3 else m + 9)"
  shows "days_from_civil y m d =
    era * 146097 + (365 * yoe + yoe div 4 - yoe div 100 + ((153 * mq + 2) div 5 + d - 1)) - 719468"
proof -
  have m: "(m - 1) div 12 = 0" "(m - 1) mod 12 + 1 = m" using assms(1,2) by simp_all
  have y: "(era * 400 + yoe) div 400 = era" "(era * 400 + yoe) mod 400 = yoe" using assms(4,5) by simp_all
  show ?thesis
    unfolding days_from_civil_def Let_def m add_0_right assms(3) y assms(6) by (rule refl)
qed

lemma days_of_civil:
  assumes "civil_from_days days = (y, m, d)"
  shows "days_from_civil y m d = days \<and> 1 \<le> m \<and> m \<le> 12 \<and> 1 \<le> d \<and> d \<le> 31"
proof -
  define z where "z = days + 719468"
  define era where "era = z div 146097"
  define doe where "doe = z mod 146097"
  define cent where "cent = min 3 (doe div 36524)"
  define doc where "doc = doe - 36524 * cent"
  define quad where "quad = doc div 1461"
  define doq where "doq = doc mod 1461"
  define yq where "yq = min 3 (doq div 365)"
  define doy where "doy = doq - 365 * yq"
  define mp where "mp = (5 * doy + 2) div 153"
  have doe: "0 \<le> doe" "doe \<le> 146096" by (simp_all add: doe_def)
  then have cent: "0 \<le> cent" "cent \<le> 3" "0 \<le> doc" "doc \<le> 36524"
    unfolding cent_def doc_def by (auto simp: min_def; linarith)+
  then have quad: "0 \<le> quad" "quad \<le> 24" "doc = 1461 * quad + doq" "0 \<le> doq" "doq \<le> 1460"
    unfolding quad_def doq_def by (simp; linarith)+
  then have yq: "0 \<le> yq" "yq \<le> 3" "0 \<le> doy" "doy \<le> 365"
    unfolding yq_def doy_def by (auto simp: min_def; linarith)+
  have mp: "0 \<le> mp" "mp \<le> 11" "153 * mp \<le> 5 * doy + 2" "5 * doy + 2 < 153 * mp + 153"
    using yq(3,4) unfolding mp_def by linarith+
  define yoe where "yoe = cent * 100 + quad * 4 + yq"
  have yoe: "0 \<le> yoe" "yoe \<le> 399" "yoe div 4 = cent * 25 + quad" "yoe div 100 = cent"
    using cent quad yq unfolding yoe_def by linarith+
  define mm where "mm = (if mp < 10 then mp + 3 else mp - 9)"
  have "civil_from_days days =
      (era * 400 + cent * 100 + quad * 4 + yq + (if mm \<le> 2 then 1 else 0), mm, doy - (153 * mp + 2) div 5 + 1)"
    unfolding civil_from_days_def Let_def mm_def mp_def doy_def yq_def doq_def quad_def doc_def cent_def doe_def era_def z_def
    by (rule refl)
  note res = this [unfolded assms prod.inject]
  have md: "m = (if mp < 10 then mp + 3 else mp - 9)" "d = doy - (153 * mp + 2) div 5 + 1"
    using res unfolding mm_def by blast+
  have y: "y = era * 400 + yoe + (if m \<le> 2 then 1 else 0)"
    using res by (simp only: yoe_def add.assoc)
  have m: "1 \<le> m" "m \<le> 12" using mp md(1) by (auto split: if_splits)
  have d: "1 \<le> d" "d \<le> 31" using mp md(2) by linarith+
  have z: "z = 146097 * era + doe" by (simp add: era_def doe_def)
  have "doe = 365 * yoe + yoe div 4 - yoe div 100 + doy"
    unfolding yoe(3,4) using quad(3) by (simp add: yoe_def doc_def doy_def)
  moreover have "(if m \<le> 2 then y - 1 else y) = era * 400 + yoe" using y by (simp split: if_splits)
  moreover have "mp = (if m > 2 then m - 3 else m + 9)" using mp md(1) by (auto split: if_splits)
  ultimately have "days_from_civil y m d = era * 146097 + (doe - doy + ((153 * mp + 2) div 5 + d - 1)) - 719468"
    using days_from_civil_eq [of m y era yoe mp d] m yoe(1,2) by linarith
  also have "\<dots> = days" using md(2) z by (simp add: z_def)
  finally show ?thesis using m d by blast
qed

text \<open>The years from 1970 to 9999.\<close>

lemma civil_year_bounds:
  assumes "0 \<le> days" "days < 2932897" "civil_from_days days = (y, m, d)"
  shows "1600 \<le> y \<and> y \<le> 9999"
proof -
  have b: "days_from_civil y m d = days" "1 \<le> m" "m \<le> 12" "1 \<le> d" "d \<le> 31" using days_of_civil [OF assms(3)] by auto
  define y1 where "y1 = (if m \<le> 2 then y - 1 else y)"
  define era where "era = y1 div 400"
  define yoe where "yoe = y1 mod 400"
  define mq where "mq = (if m > 2 then m - 3 else m + 9)"
  have yoe: "0 \<le> yoe" "yoe \<le> 399" "y1 = era * 400 + yoe" by (simp_all add: yoe_def era_def)
  have days: "days = era * 146097 + (365 * yoe + yoe div 4 - yoe div 100 + ((153 * mq + 2) div 5 + d - 1)) - 719468"
    using days_from_civil_eq [OF b(2,3) _ yoe(1,2) mq_def, of y era d] b(1) yoe(3) unfolding y1_def by blast
  have mq: "0 \<le> mq" "mq \<le> 11" using b(2,3) by (auto simp: mq_def)
  have y: "y1 \<le> y" "y \<le> y1 + 1" by (simp_all add: y1_def)
  have q: "0 \<le> 365 * yoe + yoe div 4 - yoe div 100" "365 * yoe + yoe div 4 - yoe div 100 \<le> 145731"
    using yoe by linarith+
  have mm: "0 \<le> (153 * mq + 2) div 5" "(153 * mq + 2) div 5 \<le> 337" using mq by linarith+
  have era: "4 \<le> era" "era \<le> 24" using days assms(1,2) q mm b(4,5) by linarith+
  have "y \<le> 9999"
  proof (rule ccontr)
    assume "\<not> y \<le> 9999"
    with y yoe era have "era = 24" "yoe = 399" "y = y1 + 1" by linarith+
    then have "m \<le> 2" by (simp add: y1_def split: if_splits)
    then have "10 \<le> mq" by (simp add: mq_def b(2))
    then have "306 \<le> (153 * mq + 2) div 5" by linarith
    with days \<open>era = 24\<close> \<open>yoe = 399\<close> b(4) assms(2) show False by simp
  qed
  with y yoe era show ?thesis by linarith
qed

end
