(* ===== verification/GitSearch.thy ===== *)
theory GitSearch
  imports Repos Mods "HOL-Library.Word"
begin

text \<open>
  \<open>mods/git/src/DB.hpp\<close> (the query builder), \<open>Repos/RepoSearch.hpp\<close>, \<open>Repos/RepoSearch.cpp\<close> and the
  parameters of \<open>/api/repo/search\<close> in \<open>Routes/ApiRouter.hpp\<close>. The builder keeps the text of a statement and the
  values that its bind functions bind, one after the other from index 1. What SQLite does with them is a
  parameter: the rows, each cell with what the library's getters read from it, or \<open>None\<close> for an
  exception. The two 16-bit numbers of a search are words; their product is an \<open>int\<close>.

  Shown: every parameter text is read to its end; what was written is read; the text of a statement holds
  no text of the user and one question mark for every bound value; whom the statement asks for.
\<close>

section \<open>The query builder\<close>

datatype sql_value = SqlInt int | SqlText string

record QueryBuilder =
  qb_stmt :: string
  qb_binds :: "sql_value list list"
  qb_first_cond :: bool

definition new_builder :: QueryBuilder where
  "new_builder = \<lparr>qb_stmt = [], qb_binds = [], qb_first_cond = True\<rparr>"

definition qb_part :: "string \<Rightarrow> QueryBuilder \<Rightarrow> QueryBuilder" where
  "qb_part p b = b\<lparr>qb_stmt := qb_stmt b @ p\<rparr>"

definition qb_part_bind :: "string \<Rightarrow> sql_value list \<Rightarrow> QueryBuilder \<Rightarrow> QueryBuilder" where
  "qb_part_bind p vs b = b\<lparr>qb_stmt := qb_stmt b @ p, qb_binds := qb_binds b @ [vs]\<rparr>"

definition and_cond :: "QueryBuilder \<Rightarrow> QueryBuilder" where
  "and_cond b =
     (if qb_first_cond b then (qb_part '' WHERE '' b)\<lparr>qb_first_cond := False\<rparr> else qb_part '' AND '' b)"

definition or_cond :: "QueryBuilder \<Rightarrow> QueryBuilder" where
  "or_cond b =
     (if qb_first_cond b then (qb_part '' WHERE '' b)\<lparr>qb_first_cond := False\<rparr> else qb_part '' OR '' b)"

text \<open>\<open>build\<close>: the statement, and the values at the indices 1, 2, \dots\<close>

definition qb_build :: "QueryBuilder \<Rightarrow> string \<times> sql_value list" where
  "qb_build b = (qb_stmt b, concat (qb_binds b))"

definition replace_start :: "nat \<Rightarrow> string \<Rightarrow> QueryBuilder \<Rightarrow> QueryBuilder" where
  "replace_start n replacement b = b\<lparr>qb_stmt := replacement @ drop n (qb_stmt b)\<rparr>"

section \<open>What to search for\<close>

datatype Sort = Age | Likes | Name | EditDate

datatype BooleanFilter = Any | Yes | No

datatype Parts =
    InvalidPart | InternalId | PathPart | DescriptionPart | LikesPart | VisibilityPart | ForkPart | CreateTs | UpdateTs | Tickets

text \<open>\<open>visibility\<close> is read only while \<open>filter_visibility\<close> is set: one field for both.\<close>

record RepoSearch =
  se_owner :: string
  se_name_like :: string
  se_description_like :: string
  se_query :: string
  se_min_likes :: int
  se_limit :: "16 word"
  se_page :: "16 word"
  se_sort :: Sort
  se_order_desc :: bool
  se_forks :: BooleanFilter
  se_visibility :: "Locality option"
  se_page_data :: bool
  se_fields :: "Parts list"

definition new_search :: RepoSearch where
  "new_search = \<lparr>se_owner = [], se_name_like = [], se_description_like = [], se_query = [], se_min_likes = -1,
     se_limit = 20, se_page = 0, se_sort = Name, se_order_desc = True, se_forks = Any, se_visibility = None,
     se_page_data = False, se_fields = []\<rparr>"

definition MAX_RESULTS :: int where
  "MAX_RESULTS = 1000"

definition set_limit :: "int \<Rightarrow> RepoSearch \<Rightarrow> RepoSearch \<times> bool" where
  "set_limit n s =
     (if n > MAX_RESULTS then (s\<lparr>se_limit := word_of_int MAX_RESULTS\<rparr>, False) else (s\<lparr>se_limit := word_of_int n\<rparr>, True))"

definition set_owner :: "string \<Rightarrow> string \<Rightarrow> RepoSearch \<Rightarrow> RepoSearch" where
  "set_owner host_domain new_owner s =
     s\<lparr>se_owner :=
        (case find_first_of new_owner ''@%'' 0 of
           Some i \<Rightarrow> (if drop (i + 1) new_owner = host_domain then take i new_owner else new_owner)
         | None \<Rightarrow> new_owner)\<rparr>"

definition set_name_like :: "string \<Rightarrow> RepoSearch \<Rightarrow> RepoSearch" where
  "set_name_like name s = s\<lparr>se_name_like := ''%'' @ name @ ''%''\<rparr>"

definition set_description_like :: "string \<Rightarrow> RepoSearch \<Rightarrow> RepoSearch" where
  "set_description_like d s = s\<lparr>se_description_like := ''%'' @ d @ ''%''\<rparr>"

definition part_names :: "(string \<times> Parts) list" where
  "part_names =
     [(''id'', InternalId), (''path'', PathPart), (''description'', DescriptionPart), (''likes'', LikesPart),
      (''visibility'', VisibilityPart), (''fork'', ForkPart), (''created'', CreateTs), (''updated'', UpdateTs),
      (''tickets'', Tickets),
      (''1'', InternalId), (''2'', PathPart), (''3'', DescriptionPart), (''4'', LikesPart), (''5'', VisibilityPart),
      (''6'', ForkPart), (''7'', CreateTs), (''8'', UpdateTs), (''9'', Tickets)]"

definition part_of :: "string \<Rightarrow> Parts" where
  "part_of part = (case map_of part_names part of Some p \<Rightarrow> p | None \<Rightarrow> InvalidPart)"

text \<open>The loop, on the text from \<open>start\<close> on.\<close>

function split_fields :: "string \<Rightarrow> string \<Rightarrow> Parts list" where
  "split_fields delim csv =
     (case if delim = [] then None else find_str delim csv of
        Some i \<Rightarrow> part_of (take i csv) # split_fields delim (drop (i + length delim) csv)
      | None \<Rightarrow> (if csv = [] then [] else [part_of csv]))"
  by pat_completeness auto
termination
proof (relation "measure (\<lambda>(d, s). length s)", goal_cases)
  case (2 delim csv i)
  then have "delim \<noteq> []" "find_str delim csv = Some i" by (auto split: if_splits)
  then have "0 < length delim" "i + length delim \<le> length csv" using find_str_bound [of delim csv i] by auto
  then show ?case by (simp del: length_greater_0_conv)
qed simp

declare split_fields.simps [simp del]

definition set_fields :: "string \<Rightarrow> RepoSearch \<Rightarrow> RepoSearch" where
  "set_fields csv s =
     (let delim = (if find_str '','' csv = None then ''%2C'' else '','')
      in s\<lparr>se_fields := se_fields s @ split_fields delim csv\<rparr>)"

section \<open>The statement\<close>

fun select_text :: "Parts \<Rightarrow> string" where
  "select_text InvalidPart = CHR 0x27 # ''invalid field'' @ CHR 0x27 # '' AS invalid,''"
| "select_text InternalId = ''id,''"
| "select_text PathPart = ''CONCAT(userName, '' @ CHR 0x27 # ''/'' @ CHR 0x27 # '', repoName) as path,''"
| "select_text DescriptionPart = ''description,''"
| "select_text LikesPart =
     ''(SELECT COUNT(*) FROM RepoLikes WHERE repoPath=CONCAT(userName, '' @ CHR 0x27 # ''/'' @ CHR 0x27 # '', repoName)) as likes,''"
| "select_text VisibilityPart = ''visibility,''"
| "select_text ForkPart =
     ''(SELECT fromRepoPath FROM RepoForks WHERE toRepoPath=CONCAT(userName, '' @ CHR 0x27 # ''/'' @ CHR 0x27 # '', repoName) LIMIT 1) as fork''"
| "select_text CreateTs = ''createTs,''"
| "select_text UpdateTs = ''lastUpdateTs,''"
| "select_text Tickets = ''(SELECT COUNT(*) FROM RepoTickets WHERE repoId=id) as tickets,''"

definition search_fields :: "RepoSearch \<Rightarrow> Parts list" where
  "search_fields s = (if se_fields s = [] then [PathPart, DescriptionPart] else se_fields s)"

definition fields_select_part :: "RepoSearch \<Rightarrow> string" where
  "fields_select_part s =
     (let ret = ''SELECT '' @ concat (map select_text (search_fields s))
      in (if last ret = CHR '','' then butlast ret else ret) @ '' FROM Repos'')"

definition repo_path_text :: string where
  "repo_path_text = ''concat(userName, '' @ CHR 0x27 # ''/'' @ CHR 0x27 # '', repoName)''"

text \<open>Who is asking, as the condition on the visibility sees it.\<close>

definition requester :: "string \<Rightarrow> string \<Rightarrow> string \<Rightarrow> Locality \<times> string" where
  "requester host_domain user udom =
     (if user = [] then (L_PUBLIC, [])
      else if udom = [] \<or> udom = host_domain then (L_INSTANCE, user)
      else (L_FEDIVERSE, user @ ''@'' @ udom))"

definition access_cond :: "Locality \<times> string \<Rightarrow> QueryBuilder \<Rightarrow> QueryBuilder" where
  "access_cond who b =
     (if fst who = L_PUBLIC then qb_part ''visibility >= 3'' (and_cond b)
      else qb_part_bind (''(visibility > '' @ show_int (locality_int (fst who)) @
             '' OR EXISTS (SELECT 1 FROM RepoAccess WHERE userName=? AND level > 0 AND repoPath='' @ repo_path_text @ ''))'')
             [SqlText (snd who)] (and_cond b))"

definition likes_text :: string where
  "likes_text = ''(SELECT COUNT(*) FROM RepoLikes WHERE repoPath='' @ repo_path_text @ '')''"

definition qb_when :: "bool \<Rightarrow> (QueryBuilder \<Rightarrow> QueryBuilder) \<Rightarrow> QueryBuilder \<Rightarrow> QueryBuilder" where
  "qb_when c f b = (if c then f b else b)"

text \<open>The conditions that follow the one on access, in their order.\<close>

definition filter_conds :: "RepoSearch \<Rightarrow> QueryBuilder \<Rightarrow> QueryBuilder" where
  "filter_conds s b0 =
     (let b1 = qb_when (se_owner s \<noteq> []) (\<lambda>b. qb_part_bind ''userName=? '' [SqlText (se_owner s)] (and_cond b)) b0;
          b2 = (case se_visibility s of
                  None \<Rightarrow> b1
                | Some v \<Rightarrow> qb_part_bind ''visibility=?'' [SqlInt (locality_int v)] (and_cond b1));
          b3 = qb_when (se_min_likes s > 0)
                 (\<lambda>b. qb_part_bind (likes_text @ '' > ?'') [SqlInt (se_min_likes s)] (and_cond b)) b2;
          b4 = qb_when (se_forks s \<noteq> Any)
                 (\<lambda>b. qb_part ''EXISTS (SELECT 1 FROM RepoForks WHERE toRepoPath=repoName AND user=userName)''
                   (qb_when (se_forks s = No) (qb_part ''NOT '') (and_cond b))) b3;
          b5 = qb_when (se_name_like s \<noteq> [])
                 (\<lambda>b. qb_part_bind ''repoName LIKE ?'' [SqlText (se_name_like s)] (and_cond b)) b4;
          b6 = qb_when (se_description_like s \<noteq> [])
                 (\<lambda>b. qb_part_bind ''description LIKE ?'' [SqlText (se_description_like s)] (and_cond b)) b5
      in qb_when (se_query s \<noteq> [])
           (\<lambda>b. qb_part_bind ''(repoName LIKE ? OR description LIKE ?) '' [SqlText (se_query s), SqlText (se_query s)]
             (and_cond b)) b6)"

definition search_where :: "string \<Rightarrow> RepoSearch \<Rightarrow> string \<Rightarrow> string \<Rightarrow> QueryBuilder" where
  "search_where host_domain s user udom =
     filter_conds s
       (qb_when (se_visibility s = None \<or> se_visibility s = Some L_USER)
         (access_cond (requester host_domain user udom))
         (qb_part (fields_select_part s) new_builder))"

fun sort_text :: "Sort \<Rightarrow> string" where
  "sort_text EditDate = ''lastUpdateTs''"
| "sort_text Age = '' createTs''"
| "sort_text Name = '' repoName''"
| "sort_text Likes = '' (SELECT COUNT(*) FROM RepoLikes WHERE repoPath=CONCAT(userName, '' @ CHR 0x27 # ''/'' @ CHR 0x27 # '', repoName))''"

text \<open>The product of two 16-bit numbers, promoted to \<open>int\<close>, may overflow.\<close>

definition search_order :: "RepoSearch \<Rightarrow> QueryBuilder \<Rightarrow> QueryBuilder result" where
  "search_order s b0 =
     (let b1 = qb_part_bind '' LIMIT ?'' [SqlInt (uint (se_limit s))]
                 (qb_part (if se_order_desc s then '' DESC'' else '' ASC'')
                   (qb_part (sort_text (se_sort s)) (qb_part '' ORDER BY'' b0)))
      in if se_page s = 0 then Inr b1
         else let n = uint (se_page s) * uint (se_limit s)
              in if n \<ge> 2 ^ 31 then Inl UndefinedBehaviour else Inr (qb_part_bind '' OFFSET ?'' [SqlInt n] b1))"

definition search_query :: "string \<Rightarrow> RepoSearch \<Rightarrow> string \<Rightarrow> string \<Rightarrow> (string \<times> sql_value list) result" where
  "search_query host_domain s user udom =
     bind_result (search_order s (search_where host_domain s user udom)) (\<lambda>b. Inr (qb_build b))"

section \<open>The answer\<close>

text \<open>What the getters of a column read from a cell: as text, as a 64-bit number.\<close>

record sql_cell =
  cell_text :: string
  cell_int :: int

fun part_json :: "Parts \<Rightarrow> sql_cell \<Rightarrow> json" where
  "part_json InvalidPart c = JString (cell_text c)"
| "part_json DescriptionPart c = JString (cell_text c)"
| "part_json PathPart c = JString (cell_text c)"
| "part_json ForkPart c = JString (cell_text c)"
| "part_json VisibilityPart c = JNumber (of_int (to_int32 (cell_int c)))"
| "part_json CreateTs c = JNumber (of_int (cell_int c))"
| "part_json InternalId c = JNumber (of_int (cell_int c))"
| "part_json LikesPart c = JNumber (of_int (cell_int c))"
| "part_json Tickets c = JNumber (of_int (cell_int c))"
| "part_json UpdateTs c = JNumber (of_int (cell_int c))"

text \<open>\<open>row_json\<close>: a column that the row does not have throws.\<close>

fun row_json :: "Parts list \<Rightarrow> sql_cell list \<Rightarrow> json list option" where
  "row_json [] cells = Some []"
| "row_json (f # fs) [] = None"
| "row_json (f # fs) (c # cells) = map_option ((#) (part_json f c)) (row_json fs cells)"

fun rows_json :: "Parts list \<Rightarrow> sql_cell list list \<Rightarrow> json list option" where
  "rows_json fs [] = Some []"
| "rows_json fs (r # rs) =
     (case row_json fs r of None \<Rightarrow> None | Some js \<Rightarrow> map_option ((#) (JArray js)) (rows_json fs rs))"

type_synonym sql_run = "string \<Rightarrow> sql_value list \<Rightarrow> sql_cell list list option"

text \<open>
  With \<open>page_data\<close> the builder itself, not the copy, becomes the counting statement. An exception of the library
  is \<open>DatabaseError\<close>.
\<close>

definition search_total :: "sql_run \<Rightarrow> RepoSearch \<Rightarrow> QueryBuilder \<Rightarrow> (QueryBuilder \<times> (string \<times> json) list) result" where
  "search_total run s b =
     (if \<not> se_page_data s then Inr (b, [])
      else let b1 = replace_start (length (fields_select_part s)) ''SELECT COUNT(*) FROM Repos'' b
           in case run (qb_stmt b1) (concat (qb_binds b1)) of
                None \<Rightarrow> Inl DatabaseError
              | Some [] \<Rightarrow> Inr (b1, [(''total'', JNumber (- 1))])
              | Some ([] # rows) \<Rightarrow> Inl DatabaseError
              | Some ((c # cells) # rows) \<Rightarrow> Inr (b1, [(''total'', JNumber (of_int (cell_int c mod 2 ^ 32)))]))"

definition search_repos :: "sql_run \<Rightarrow> string \<Rightarrow> RepoSearch \<Rightarrow> string \<Rightarrow> string \<Rightarrow> json result" where
  "search_repos run host_domain s user udom =
     bind_result (search_total run s (search_where host_domain s user udom)) (\<lambda>(b1, total).
     bind_result (search_order s b1) (\<lambda>b2.
       case run (qb_stmt b2) (concat (qb_binds b2)) of
         None \<Rightarrow> Inl DatabaseError
       | Some rows \<Rightarrow>
           (case rows_json (search_fields s) rows of
              None \<Rightarrow> Inl DatabaseError
            | Some js \<Rightarrow> Inr (JObject ((''results'', JArray js) # total)))))"

section \<open>The parameters\<close>

text \<open>\<open>std::from_chars\<close> into an unsigned type: no sign; \<open>None\<close> for an error code, which leaves the target.\<close>

definition from_chars_unsigned :: "nat \<Rightarrow> string \<Rightarrow> int option" where
  "from_chars_unsigned bits s =
     (let ds = takeWhile is_digit s; v = read_base 10 0 ds
      in if ds = [] \<or> v \<ge> 2 ^ bits then None else Some v)"

text \<open>One turn of the loop: the key, the value, and what is left.\<close>

definition next_param :: "string \<Rightarrow> string \<times> string \<times> string" where
  "next_param path0 =
     (let path = (if path0 \<noteq> [] \<and> (hd path0 = CHR ''&'' \<or> hd path0 = CHR ''?'') then tl path0 else path0)
      in case find_first_of path ''=&'' 0 of
           None \<Rightarrow> (path, [], [])
         | Some eq \<Rightarrow>
             (if path ! eq = CHR ''=''
              then (case find_char path (CHR ''&'') eq of
                      None \<Rightarrow> (take eq path, drop (eq + 1) path, [])
                    | Some e \<Rightarrow> (take eq path, substr path (eq + 1) (e - eq - 1), drop e path))
              else (take eq path, [], drop eq path)))"

definition locality_of :: "nat \<Rightarrow> Locality" where
  "locality_of n = (if n = 0 then L_USER else if n = 1 then L_INSTANCE else if n = 2 then L_FEDIVERSE else L_PUBLIC)"

text \<open>The first character of an empty value is read outside it.\<close>

definition apply_param :: "string \<Rightarrow> string \<Rightarrow> string \<Rightarrow> RepoSearch \<Rightarrow> RepoSearch result" where
  "apply_param host_domain key v s =
     (if key = ''asc'' then Inr (s\<lparr>se_order_desc := False\<rparr>)
      else if key = ''desc'' then Inr (s\<lparr>se_order_desc := True\<rparr>)
      else if key = ''forks'' then Inr (s\<lparr>se_forks := (if v = ''no'' then No else Yes)\<rparr>)
      else if key = ''visibility'' then
        (if v = [] then Inl UndefinedBehaviour
         else Inr (s\<lparr>se_visibility := Some (if code (hd v) < 48 \<or> code (hd v) > 51 then L_PUBLIC
                                             else locality_of (code (hd v) - 48))\<rparr>))
      else if key = ''owner'' then Inr (set_owner host_domain v s)
      else if key = ''sort'' then
        Inr (if v = ''age'' then s\<lparr>se_sort := Age\<rparr>
             else if v = ''likes'' then s\<lparr>se_sort := Likes\<rparr>
             else if v = ''name'' then s\<lparr>se_sort := Name\<rparr>
             else if v = ''edit'' then s\<lparr>se_sort := EditDate\<rparr> else s)
      else if key = ''name'' then Inr (set_name_like v s)
      else if key = ''description'' then Inr (set_description_like v s)
      else if key = ''q'' \<or> key = ''query'' then Inr (s\<lparr>se_query := v\<rparr>)
      else if key = ''min_likes'' then
        bind_result (from_chars 32 10 v) (\<lambda>r. Inr (case r of None \<Rightarrow> s | Some n \<Rightarrow> s\<lparr>se_min_likes := n\<rparr>))
      else if key = ''n'' \<or> key = ''limit'' then
        Inr (case from_chars_unsigned 16 v of None \<Rightarrow> s | Some n \<Rightarrow> s\<lparr>se_limit := word_of_int n\<rparr>)
      else if key = ''page'' then
        Inr (case from_chars_unsigned 16 v of None \<Rightarrow> s | Some n \<Rightarrow> s\<lparr>se_page := word_of_int n\<rparr>)
      else if key = ''fields'' then Inr (set_fields v s)
      else Inr s)"

partial_function (option) search_loop :: "string \<Rightarrow> string \<Rightarrow> RepoSearch \<Rightarrow> RepoSearch result option" where
  "search_loop host_domain path s =
     (if path = [] then Some (Inr s)
      else case next_param path of
             (key, v, rest) \<Rightarrow>
               (case apply_param host_domain key v s of
                  Inl e \<Rightarrow> Some (Inl e)
                | Inr s1 \<Rightarrow> search_loop host_domain rest s1))"

text \<open>\<open>/api/repo/search\<close>: the text after \<open>/search\<close>; who asks is taken from the request.\<close>

definition search_params :: "string \<Rightarrow> string \<Rightarrow> RepoSearch result option" where
  "search_params host_domain path =
     search_loop host_domain (if starts_with path ''/'' then tl path else path) new_search"

definition search_answer :: "(json \<Rightarrow> string) \<Rightarrow> json result \<Rightarrow> fiy_response result" where
  "search_answer dump r =
     (case r of
        Inr j \<Rightarrow> Inr (respond 200 ''Content-type: application/json'' (body_of_string (dump j)))
      | Inl DatabaseError \<Rightarrow> Inr (respond 500 ''Content-type: application/json'' (body_of_string ''[]''))
      | Inl e \<Rightarrow> Inl e)"

definition search_for :: "sql_run \<Rightarrow> string \<Rightarrow> fiy_request \<Rightarrow> RepoSearch \<Rightarrow> json result" where
  "search_for run host_domain req s =
     search_repos run host_domain s (case rq_user req of None \<Rightarrow> [] | Some u \<Rightarrow> u)
       (case rq_domain req of None \<Rightarrow> [] | Some d \<Rightarrow> d)"

definition search_endpoint ::
  "sql_run \<Rightarrow> (json \<Rightarrow> string) \<Rightarrow> string \<Rightarrow> string \<Rightarrow> fiy_request \<Rightarrow> fiy_response result option" where
  "search_endpoint run dump host_domain path req =
     map_option (\<lambda>r. bind_result r (\<lambda>s. search_answer dump (search_for run host_domain req s)))
       (search_params host_domain path)"

section \<open>Reading the parameters ends\<close>

lemma next_param_shorter:
  assumes "path \<noteq> []" "next_param path = (k, v, rest)"
  shows "length rest < length path"
proof -
  define p where "p = (if path \<noteq> [] \<and> (hd path = CHR ''&'' \<or> hd path = CHR ''?'') then tl path else path)"
  have p: "length p \<le> length path" "length p < length path \<or> p = path \<and> hd p \<noteq> CHR ''&''"
    using assms(1) by (auto simp: p_def)
  have n: "(case find_first_of p ''=&'' 0 of
      None \<Rightarrow> (p, [], [])
    | Some eq \<Rightarrow>
        (if p ! eq = CHR ''=''
         then (case find_char p (CHR ''&'') eq of
                 None \<Rightarrow> (take eq p, drop (eq + 1) p, [])
               | Some e \<Rightarrow> (take eq p, substr p (eq + 1) (e - eq - 1), drop e p))
         else (take eq p, [], drop eq p))) = (k, v, rest)"
    using assms(2) unfolding next_param_def Let_def p_def .
  show ?thesis
  proof (cases "find_first_of p ''=&'' 0")
    case None
    with n assms(1) show ?thesis by simp
  next
    case (Some eq)
    then have eq: "eq < length p" "p ! eq = CHR ''='' \<or> p ! eq = CHR ''&''"
      using find_first_of_nth [OF Some] by auto
    show ?thesis
    proof (cases "p ! eq = CHR ''=''")
      case True
      then have "rest = [] \<or> (\<exists>e. find_char p (CHR ''&'') eq = Some e \<and> rest = drop e p)"
        using n Some by (auto split: option.splits)
      moreover have "e > 0 \<and> e < length p" if "find_char p (CHR ''&'') eq = Some e" for e
        using find_char_Some_bound [OF that] find_char_Some_nth [OF that] True by (cases "e = eq") auto
      ultimately show ?thesis using p assms(1) by fastforce
    next
      case False
      then have "rest = drop eq p"
        using n Some by simp
      moreover have "eq > 0 \<or> length p < length path"
        using p(2) eq False by (cases p; cases eq) auto
      ultimately show ?thesis using p eq by auto
    qed
  qed
qed

text \<open>The pairs that the loop sees, and what it does with them.\<close>

function params_of :: "string \<Rightarrow> (string \<times> string) list" where
  "params_of path =
     (if path = [] then [] else case next_param path of (k, v, rest) \<Rightarrow> (k, v) # params_of rest)"
  by pat_completeness auto
termination
  by (relation "measure length") (auto dest: next_param_shorter [OF _ sym])

declare params_of.simps [simp del]

fun apply_params :: "string \<Rightarrow> (string \<times> string) list \<Rightarrow> RepoSearch \<Rightarrow> RepoSearch result" where
  "apply_params d [] s = Inr s"
| "apply_params d ((k, v) # kvs) s = bind_result (apply_param d k v s) (apply_params d kvs)"

lemma search_loop_params: "search_loop d path s = Some (apply_params d (params_of path) s)"
proof (induction "length path" arbitrary: path s rule: less_induct)
  case less
  show ?case
  proof (cases "path = []")
    case True
    then show ?thesis by (subst search_loop.simps) (simp add: params_of.simps)
  next
    case False
    obtain k v rest where n: "next_param path = (k, v, rest)" by (cases "next_param path")
    from less [OF next_param_shorter [OF False n]] n False show ?thesis
      by (subst search_loop.simps) (simp add: params_of.simps [of path] split: sum.split)
  qed
qed

lemma params_of_length: "length (params_of path) \<le> length path"
proof (induction path rule: params_of.induct)
  case (1 path)
  show ?case
  proof (cases "path = []")
    case False
    obtain k v rest where n: "next_param path = (k, v, rest)" by (cases "next_param path")
    with 1 [OF False n [symmetric] refl] next_param_shorter [OF False n] False
    show ?thesis by (simp add: params_of.simps [of path])
  qed (simp add: params_of.simps)
qed


lemma next_param_text:
  assumes "plain_param (k, v)" "rest = [] \<or> hd rest = CHR ''&''"
  shows "next_param (CHR ''&'' # k @ ''='' @ v @ rest) = (k, v, rest)"
proof -
  let ?p = "k @ ''='' @ v @ rest"
  have eq: "find_first_of ?p ''=&'' 0 = Some (length k)"
    using find_first_of_hit [of k "''=&''" "CHR ''=''" "v @ rest"] assms(1) by (auto simp: plain_param_def)
  have amp: "CHR ''&'' \<notin> set (''='' @ v)" using assms(1) by (auto simp: plain_param_def)
  show ?thesis
  proof (cases rest)
    case Nil
    have "find_char (k @ ''='' @ v) (CHR ''&'') (length k) = None"
      using find_char_miss_at [OF amp, of k] by simp
    with eq Nil show ?thesis by (simp add: next_param_def Let_def nth_append)
  next
    case (Cons c t)
    then have c: "c = CHR ''&''" using assms(2) by simp
    from find_char_hit_at [OF amp, of k t]
    have "find_char ?p (CHR ''&'') (length k) = Some (length k + Suc (length v))" using Cons c by simp
    with eq Cons c show ?thesis by (simp add: next_param_def Let_def nth_append substr_def)
  qed
qed

text \<open>
  What is written as parameters is read back, the last one too.
\<close>

theorem search_params_roundtrip:
  assumes "list_all plain_param kvs"
  shows "search_params host_domain (param_text kvs) = Some (apply_params host_domain kvs new_search)"
proof -
  have "params_of (param_text kvs) = kvs"
    using assms
  proof (induction kvs)
    case (Cons kv kvs)
    obtain k v where kv: "kv = (k, v)" by (cases kv)
    have "param_text kvs = [] \<or> hd (param_text kvs) = CHR ''&''" using param_text_start [of kvs] by auto
    with next_param_text [of k v "param_text kvs"] Cons kv show ?case
      by (simp add: params_of.simps [of "CHR ''&'' # k @ CHR ''='' # v @ param_text kvs"])
  qed (simp add: params_of.simps)
  moreover have "\<not> starts_with (param_text kvs) ''/''"
    using param_text_start [of kvs] by (auto simp: starts_with_def)
  ultimately show ?thesis by (simp add: search_params_def search_loop_params)
qed

theorem search_params_roundtrip_witness:
  "\<exists>s. search_params ''a.b'' ''&name=fi&limit=5'' = Some (Inr s) \<and> se_name_like s = ''%fi%'' \<and> se_limit s = 5"
proof -
  have "list_all plain_param [(''name'', ''fi''), (''limit'', ''5'')]" by (simp add: plain_param_def)
  from search_params_roundtrip [OF this, of "''a.b''"]
  show ?thesis
    by (simp add: apply_param_def set_name_like_def from_chars_unsigned_def digit_value_def is_digit_def)
qed

section \<open>The text of the statement\<close>

abbreviation marks :: "string \<Rightarrow> nat" where
  "marks t \<equiv> count_list t (CHR ''?'')"

text \<open>One question mark for every value.\<close>

definition qb_ok :: "QueryBuilder \<Rightarrow> bool" where
  "qb_ok b \<longleftrightarrow> marks (qb_stmt b) = length (concat (qb_binds b))"

lemma marks_append [simp]: "marks (s @ t) = marks s + marks t"
  by (induction s) auto

lemma marks_absent: "CHR ''?'' \<notin> set t \<Longrightarrow> marks t = 0"
  by (induction t) auto

lemma marks_show_int [simp]: "marks (show_int i) = 0"
proof (rule marks_absent)
  have "\<not> is_digit (CHR ''?'')" by (simp add: is_digit_def)
  then show "CHR ''?'' \<notin> set (show_int i)"
    using show_nat_digits [of "nat (- i)"] show_nat_digits [of "nat i"] by (auto simp: show_int_def)
qed

lemma marks_repo_path_text [simp]: "marks repo_path_text = 0"
  by (simp add: repo_path_text_def)

lemma marks_likes_text [simp]: "marks likes_text = 0"
  by (simp add: likes_text_def)

lemma marks_select_text [simp]: "marks (select_text f) = 0"
  by (cases f) simp_all

lemma marks_sort_text [simp]: "marks (sort_text o') = 0"
  by (cases o') simp_all

lemma marks_fields [simp]: "marks (fields_select_part s) = 0"
proof -
  have "CHR ''?'' \<notin> set (select_text f)" for f by (cases f) simp_all
  then have "CHR ''?'' \<notin> set (''SELECT '' @ concat (map select_text fs))" for fs by auto
  then have "CHR ''?'' \<notin> set (fields_select_part s)"
    by (auto simp: fields_select_part_def Let_def dest: in_set_butlastD)
  then show ?thesis by (rule marks_absent)
qed

lemma qb_ok_part: "qb_ok b \<Longrightarrow> marks p = 0 \<Longrightarrow> qb_ok (qb_part p b)"
  by (simp add: qb_ok_def qb_part_def)

lemma qb_ok_bind: "qb_ok b \<Longrightarrow> marks p = length vs \<Longrightarrow> qb_ok (qb_part_bind p vs b)"
  by (simp add: qb_ok_def qb_part_bind_def)

lemma qb_ok_and: "qb_ok b \<Longrightarrow> qb_ok (and_cond b)"
  by (simp add: and_cond_def qb_ok_def qb_part_def)

lemma qb_ok_when: "qb_ok b \<Longrightarrow> (c \<Longrightarrow> qb_ok (f b)) \<Longrightarrow> qb_ok (qb_when c f b)"
  by (simp add: qb_when_def)

lemmas qb_ok_intros = qb_ok_part qb_ok_bind qb_ok_and qb_ok_when

lemma qb_ok_filter: "qb_ok b \<Longrightarrow> qb_ok (filter_conds s b)"
  unfolding filter_conds_def Let_def
  by (intro qb_ok_intros) (auto intro!: qb_ok_intros split: option.split)

lemma qb_ok_where: "qb_ok (search_where d s u i)"
proof -
  have "qb_ok (qb_part (fields_select_part s) new_builder)"
    by (intro qb_ok_part) (simp_all add: qb_ok_def new_builder_def)
  moreover have "qb_ok (access_cond who b)" if "qb_ok b" for who b
    using that by (auto simp: access_cond_def intro!: qb_ok_intros)
  ultimately show ?thesis
    unfolding search_where_def by (intro qb_ok_filter qb_ok_when) auto
qed

text \<open>What decides the text: never the characters of a name, a description, a query, an owner or a user.\<close>

definition search_shape ::
  "RepoSearch \<Rightarrow> Parts list \<times> Locality option \<times> bool list \<times> BooleanFilter \<times> Sort \<times> bool" where
  "search_shape s =
     (search_fields s, se_visibility s,
      [se_owner s = [], se_min_likes s > 0, se_name_like s = [], se_description_like s = [], se_query s = [], se_page s = 0],
      se_forks s, se_sort s, se_order_desc s)"

definition same_text :: "QueryBuilder \<Rightarrow> QueryBuilder \<Rightarrow> bool" where
  "same_text b b' \<longleftrightarrow> qb_stmt b = qb_stmt b' \<and> qb_first_cond b = qb_first_cond b'"

lemma same_text_part: "same_text b b' \<Longrightarrow> same_text (qb_part p b) (qb_part p b')"
  by (simp add: same_text_def qb_part_def)

lemma same_text_bind: "same_text b b' \<Longrightarrow> same_text (qb_part_bind p vs b) (qb_part_bind p vs' b')"
  by (simp add: same_text_def qb_part_bind_def)

lemma same_text_and: "same_text b b' \<Longrightarrow> same_text (and_cond b) (and_cond b')"
  by (auto simp: same_text_def and_cond_def qb_part_def)

lemma same_text_when:
  "same_text b b' \<Longrightarrow> c = c' \<Longrightarrow> (\<And>x y. same_text x y \<Longrightarrow> same_text (f x) (f' y)) \<Longrightarrow> same_text (qb_when c f b) (qb_when c' f' b')"
  by (simp add: qb_when_def)

lemmas same_text_intros = same_text_part same_text_bind same_text_and same_text_when

lemma same_text_filter:
  assumes "search_shape s = search_shape s'" "same_text b b'"
  shows "same_text (filter_conds s b) (filter_conds s' b')"
proof -
  have e: "se_visibility s = se_visibility s'" "(se_owner s \<noteq> []) = (se_owner s' \<noteq> [])"
    "(se_min_likes s > 0) = (se_min_likes s' > 0)" "se_forks s = se_forks s'"
    "(se_name_like s \<noteq> []) = (se_name_like s' \<noteq> [])"
    "(se_description_like s \<noteq> []) = (se_description_like s' \<noteq> [])" "(se_query s \<noteq> []) = (se_query s' \<noteq> [])"
    using assms(1) by (auto simp: search_shape_def)
  show ?thesis
    unfolding filter_conds_def Let_def e(1,4)
    by (cases "se_visibility s'") (auto intro!: same_text_intros assms(2) simp: e(2,3,5-7))
qed

lemma same_text_where:
  assumes "search_shape s = search_shape s'" "fst (requester d u i) = fst (requester d' u' i')"
  shows "same_text (search_where d s u i) (search_where d' s' u' i')"
proof -
  have e: "se_visibility s = se_visibility s'" "fields_select_part s = fields_select_part s'"
    using assms(1) by (auto simp: search_shape_def fields_select_part_def)
  have "same_text (access_cond (requester d u i) x) (access_cond (requester d' u' i') y)" if "same_text x y" for x y
    using that assms(2) by (auto simp: access_cond_def intro!: same_text_intros)
  then show ?thesis
    unfolding search_where_def e
    by (intro same_text_filter [OF assms(1)] same_text_when same_text_part) (auto simp: same_text_def new_builder_def)
qed

text \<open>
  C26. A statement has one question mark for every value that is bound, and its text holds nothing that a user
  wrote: two searches that filter by the same things have the same statement, whatever they look for.
\<close>

theorem search_statement_fixed:
  assumes "search_query d s u i = Inr (text, vals)"
  shows "marks text = length vals \<and>
    (\<forall>d' s' u' i' text' vals'. search_query d' s' u' i' = Inr (text', vals') \<longrightarrow>
       search_shape s' = search_shape s \<longrightarrow> fst (requester d' u' i') = fst (requester d u i) \<longrightarrow> text' = text)"
proof (intro conjI allI impI)
  from assms obtain b where b: "search_order s (search_where d s u i) = Inr b" "text = qb_stmt b" "vals = concat (qb_binds b)"
    by (auto simp: search_query_def bind_result_Inr_iff qb_build_def)
  have "qb_ok b"
    using b(1) qb_ok_where [of d s u i]
    by (auto simp: search_order_def Let_def intro!: qb_ok_intros split: if_splits)
  then show "marks text = length vals" using b by (simp add: qb_ok_def)
  fix d' s' u' i' text' vals'
  assume q: "search_query d' s' u' i' = Inr (text', vals')" and sh: "search_shape s' = search_shape s"
    and r: "fst (requester d' u' i') = fst (requester d u i)"
  from q obtain b' where b': "search_order s' (search_where d' s' u' i') = Inr b'" "text' = qb_stmt b'"
    by (auto simp: search_query_def bind_result_Inr_iff qb_build_def)
  have e: "se_sort s' = se_sort s" "se_order_desc s' = se_order_desc s" "(se_page s' = 0) = (se_page s = 0)"
    using sh by (auto simp: search_shape_def)
  have "same_text b' b"
    using b(1) b'(1) same_text_where [OF sh r] e
    by (auto simp: search_order_def Let_def intro!: same_text_intros split: if_splits)
  then show "text' = text" using b b' by (simp add: same_text_def)
qed

theorem search_statement_fixed_witness:
  "\<exists>text. search_query ''a.b'' (new_search\<lparr>se_query := ''x'', se_page := 2\<rparr>) [] [] =
     Inr (text, [SqlText ''x'', SqlText ''x'', SqlInt 20, SqlInt 40]) \<and> marks text = 4"
proof -
  let ?s = "new_search\<lparr>se_query := ''x'', se_page := 2\<rparr>"
  have "\<exists>text. search_query ''a.b'' ?s [] [] = Inr (text, [SqlText ''x'', SqlText ''x'', SqlInt 20, SqlInt 40])"
    by (simp add: search_query_def search_order_def search_where_def filter_conds_def qb_when_def Let_def
      new_search_def requester_def access_cond_def qb_part_def qb_part_bind_def and_cond_def new_builder_def qb_build_def)
  then obtain tx where t: "search_query ''a.b'' ?s [] [] = Inr (tx, [SqlText ''x'', SqlText ''x'', SqlInt 20, SqlInt 40])"
    by blast
  from search_statement_fixed [OF t] show ?thesis using t by auto
qed

section \<open>Who finds what\<close>

text \<open>
  A search without a filter on the visibility asks for what the requester may see; for nobody, public
  repositories. With a filter that is not for private ones it does not look at the requester at all:
  everyone finds the repositories that are meant for this instance only.
\<close>

theorem search_requester:
  assumes "search_params host_domain path = Some (Inr s)"
  shows "(se_visibility s \<in> {None, Some L_USER} \<longrightarrow>
      starts_with (qb_stmt (search_where host_domain s [] udom)) (fields_select_part s @ '' WHERE visibility >= 3'')) \<and>
    (se_visibility s \<notin> {None, Some L_USER} \<longrightarrow>
      (\<forall>req req'. search_endpoint run dump host_domain path req = search_endpoint run dump host_domain path req'))"
proof (intro conjI impI allI)
  have ext: "\<exists>t. qb_stmt (qb_part p b) = qb_stmt b @ t" "\<exists>t. qb_stmt (qb_part_bind p vs b) = qb_stmt b @ t" "\<exists>t. qb_stmt (and_cond b) = qb_stmt b @ t"
    for p vs b
    by (simp_all add: qb_part_def qb_part_bind_def and_cond_def)
  have trans: "\<exists>t. qb_stmt c = qb_stmt b @ t \<Longrightarrow> starts_with (qb_stmt b) x \<Longrightarrow> starts_with (qb_stmt c) x" for b c x
    by (auto simp: starts_with_iff)
  have cond: "(\<And>b. starts_with (qb_stmt b) x \<Longrightarrow> starts_with (qb_stmt (f b)) x) \<Longrightarrow>
      starts_with (qb_stmt b) x \<Longrightarrow> starts_with (qb_stmt (qb_when c f b)) x" for f b x c
    by (simp add: qb_when_def)
  note keep = trans [OF ext(1)] trans [OF ext(2)] trans [OF ext(3)]
  have filt: "starts_with (qb_stmt b) x \<Longrightarrow> starts_with (qb_stmt (filter_conds s b)) x" for b x
    unfolding filter_conds_def Let_def
    by (intro cond) (auto intro!: keep cond split: option.split)
  assume "se_visibility s \<in> {None, Some L_USER}"
  then have "search_where host_domain s [] udom =
      filter_conds s (access_cond (L_PUBLIC, []) (qb_part (fields_select_part s) new_builder))"
    by (auto simp: search_where_def qb_when_def requester_def)
  moreover have "starts_with (qb_stmt (access_cond (L_PUBLIC, []) (qb_part (fields_select_part s) new_builder)))
      (fields_select_part s @ '' WHERE visibility >= 3'')"
    by (simp add: access_cond_def and_cond_def qb_part_def new_builder_def starts_with_def)
  ultimately show "starts_with (qb_stmt (search_where host_domain s [] udom)) (fields_select_part s @ '' WHERE visibility >= 3'')"
    using filt by simp
next
  fix req req' :: fiy_request
  assume "se_visibility s \<notin> {None, Some L_USER}"
  then have w: "search_where host_domain s u i = search_where host_domain s u' i'" for u i u' i'
    by (auto simp: search_where_def qb_when_def)
  have q: "search_repos run host_domain s u i = search_repos run host_domain s u' i'" for u i u' i'
    unfolding search_repos_def w [of u i u' i'] ..
  then show "search_endpoint run dump host_domain path req = search_endpoint run dump host_domain path req'"
    unfolding search_endpoint_def assms option.map bind_result_simps
    by (metis search_for_def q)
qed

theorem search_requester_witness:
  "\<forall>run dump. search_endpoint run dump ''a.b'' ''?visibility=1'' \<lparr>rq_domain = None, rq_user = None, rq_method = 2,
       rq_path = None, rq_headers = None, rq_body = [], rq_has_callback = True\<rparr> =
     search_endpoint run dump ''a.b'' ''?visibility=1'' \<lparr>rq_domain = None, rq_user = Some ''ann'', rq_method = 2,
       rq_path = None, rq_headers = None, rq_body = [], rq_has_callback = True\<rparr>"
proof -
  have n: "next_param ''?visibility=1'' = (''visibility'', ''1'', [])" by code_simp
  have "search_params ''a.b'' ''?visibility=1'' = Some (Inr (new_search\<lparr>se_visibility := Some L_INSTANCE\<rparr>))"
    by (simp add: search_params_def starts_with_def search_loop_params params_of.simps n apply_param_def locality_of_def)
  from search_requester [OF this] show ?thesis by simp
qed

end
