(* ===== verification/GitContent.thy ===== *)
theory GitContent
  imports Repos Mods Templates HttpClients Calendar
begin

text \<open>
  What the git mod reads from a repository and shows: \<open>mods/git/src/Repos/GitUser\<close>, \<open>GitRepo\<close>,
  the counts of \<open>LocalRepo.cpp\<close>, the transfer objects of \<open>DTO/DTORepo\<close>, and the pages of \<open>Routes/Pages\<close> and
  \<open>Routes/RepoPageData\<close>. A repository as libgit2 shows it is a record: branches, tags, commits, the order
  of a revision walk, the number of changed files between two commits under a path, and the mailmap. Locks
  and logging are left out; the texts of the page files are a parameter.

  Shown: the information on a repository survives its JSON form, a tree does not; the user in a commit's
  note is read with its key; which commit is named for a file; how far away a time is said to be.
\<close>

section \<open>Users of commits\<close>

record GitUser =
  gu_fiy_user :: string
  gu_name :: string
  gu_email :: string

definition no_user :: GitUser where
  "no_user = \<lparr>gu_fiy_user = [], gu_name = [], gu_email = []\<rparr>"

definition canonical_user :: "string \<Rightarrow> GitUser \<Rightarrow> string" where
  "canonical_user host_domain u =
     (if find_char (gu_fiy_user u) (CHR ''@'') 1 = None then gu_fiy_user u @ ''@'' @ host_domain else gu_fiy_user u)"

definition set_user :: "string \<Rightarrow> string \<Rightarrow> GitUser \<Rightarrow> GitUser" where
  "set_user host_domain canonical u =
     u\<lparr>gu_fiy_user :=
        (case find_char canonical (CHR ''@'') 0 of
           Some i \<Rightarrow> (if drop (i + 1) canonical = host_domain then take i canonical else canonical)
         | None \<Rightarrow> canonical)\<rparr>"

definition localize_user :: "string \<Rightarrow> GitUser \<Rightarrow> GitUser" where
  "localize_user host_domain u = set_user host_domain (gu_fiy_user u) u"

definition has_user :: "GitUser \<Rightarrow> bool" where
  "has_user u \<longleftrightarrow> gu_fiy_user u \<noteq> []"

text \<open>The JSON form: the user is written when there is none.\<close>

definition git_user_json :: "string \<Rightarrow> GitUser \<Rightarrow> json" where
  "git_user_json host_domain u =
     JObject ((if gu_email u \<noteq> [] then [(''email'', JString (gu_email u))] else []) @
       (if gu_name u \<noteq> [] then [(''name'', JString (gu_name u))] else []) @
       (if \<not> has_user u then [(''user'', JString (canonical_user host_domain u))] else []))"

text \<open>A value that is not a string throws; what is not an object changes nothing.\<close>

definition json_text :: "json \<Rightarrow> string result" where
  "json_text j = (case j of JString s \<Rightarrow> Inr s | _ \<Rightarrow> Inl JsonError)"

definition with_text :: "json \<Rightarrow> string \<Rightarrow> (string \<Rightarrow> 'a \<Rightarrow> 'a) \<Rightarrow> 'a \<Rightarrow> 'a result" where
  "with_text j key f x =
     (case jget j key of None \<Rightarrow> Inr x | Some v \<Rightarrow> bind_result (json_text v) (\<lambda>s. Inr (f s x)))"

definition git_user_from_json :: "string \<Rightarrow> json \<Rightarrow> GitUser \<Rightarrow> GitUser result" where
  "git_user_from_json host_domain j u =
     bind_result (with_text j ''name'' (\<lambda>s u. u\<lparr>gu_name := s\<rparr>) u) (\<lambda>u1.
     bind_result (with_text j ''email'' (\<lambda>s u. u\<lparr>gu_email := s\<rparr>) u1) (\<lambda>u2.
       with_text j ''user'' (set_user host_domain) u2))"

definition DQ :: char where
  "DQ = CHR 0x22"

definition attr :: "string \<Rightarrow> string \<Rightarrow> string" where
  "attr name_text v = '' '' @ name_text @ ''='' @ DQ # v @ [DQ]"

definition profile_link :: "string \<Rightarrow> GitUser \<Rightarrow> string" where
  "profile_link burl u =
     (if has_user u
      then ''<a'' @ attr ''href'' (burl @ ''/'' @ gu_fiy_user u) @ ''>'' @ gu_fiy_user u @ ''</a>''
      else ''<span'' @
        attr ''title''
          (if gu_name u = [] then (if gu_email u = [] then ''unknown'' else gu_email u)
           else gu_name u @ (if gu_email u \<noteq> [] then '' <'' @ gu_email u @ ''>'' else [])) @ ''>'' @
        (if gu_name u = [] then (if gu_email u = [] then ''<unknown>'' else gu_email u) else gu_name u) @ ''</span>'')"

section \<open>The repository as libgit2 shows it\<close>

type_synonym oid = string

record git_sig =
  sig_name :: "string option"
  sig_email :: "string option"

datatype object_type = ObjTree | ObjCommit | ObjTag | ObjBlob

record git_commit =
  gc_message :: string
  gc_time :: int
  gc_author :: "git_sig option"
  gc_committer :: "git_sig option"
  gc_parents :: "oid list"
  gc_tree :: "(string \<times> object_type) list option"
  gc_note :: "string option"

record git_repository =
  gr_head :: "string option"
  gr_branches :: "(string \<times> oid option) list option"
  gr_tags :: "string list option"
  gr_commits :: "oid \<rightharpoonup> git_commit"
  gr_walk :: "oid \<Rightarrow> oid list"
  gr_deltas :: "oid \<Rightarrow> oid \<Rightarrow> string \<Rightarrow> nat"
  gr_mailmap :: "(git_sig \<Rightarrow> git_sig option) option"

section \<open>Commits\<close>

record Commit =
  cm_id :: string
  cm_message :: string
  cm_ts :: int
  cm_author :: GitUser
  cm_committer :: GitUser

definition no_commit :: Commit where
  "no_commit = \<lparr>cm_id = [], cm_message = [], cm_ts = 0, cm_author = no_user, cm_committer = no_user\<rparr>"

definition OID_HEXSZ :: nat where
  "OID_HEXSZ = 40"

text \<open>\<open>strncpy\<close> writes no terminator: what was behind the new text stays.\<close>

definition set_id_str :: "string \<Rightarrow> Commit \<Rightarrow> Commit \<times> bool" where
  "set_id_str s c = (if length s \<ge> OID_HEXSZ then (c, False) else (c\<lparr>cm_id := s @ drop (length s) (cm_id c)\<rparr>, True))"

text \<open>The name and the address of a signature, through the mailmap when that has an answer.\<close>

definition sig_user :: "(git_sig \<Rightarrow> git_sig option) option \<Rightarrow> git_sig option \<Rightarrow> GitUser" where
  "sig_user mailmap s =
     (case s of
        None \<Rightarrow> no_user
      | Some sg \<Rightarrow>
          (let sg' = (case mailmap of None \<Rightarrow> sg | Some f \<Rightarrow> (case f sg of Some m \<Rightarrow> m | None \<Rightarrow> sg))
           in no_user\<lparr>gu_name := (case sig_name sg' of None \<Rightarrow> [] | Some n \<Rightarrow> n),
                      gu_email := (case sig_email sg' of None \<Rightarrow> [] | Some e \<Rightarrow> e)\<rparr>))"

text \<open>The text from the key on, to the end of its line.\<close>

definition note_user :: "string \<Rightarrow> string \<Rightarrow> string \<Rightarrow> GitUser \<Rightarrow> GitUser" where
  "note_user host_domain key notes u =
     (case find_str key notes of
        None \<Rightarrow> u
      | Some start \<Rightarrow>
          (case find_char notes NL (start + length key) of
             Some e \<Rightarrow> set_user host_domain (substr notes start (e - start)) u
           | None \<Rightarrow> set_user host_domain (drop start notes) u))"

definition read_notes :: "string \<Rightarrow> string \<Rightarrow> string option \<Rightarrow> GitUser \<Rightarrow> GitUser" where
  "read_notes host_domain key note u = (case note of None \<Rightarrow> u | Some n \<Rightarrow> note_user host_domain key n u)"

definition default_user :: "string \<Rightarrow> GitUser \<Rightarrow> GitUser" where
  "default_user host_domain u = (if has_user u then u else set_user host_domain (gu_email u) u)"

definition make_commit ::
  "string \<Rightarrow> (git_sig \<Rightarrow> git_sig option) option \<Rightarrow> oid \<Rightarrow> git_commit \<Rightarrow> Commit" where
  "make_commit host_domain mailmap i c =
     \<lparr>cm_id = i, cm_message = gc_message c, cm_ts = gc_time c,
      cm_author = default_user host_domain
        (read_notes host_domain ''FIY-author: '' (gc_note c) (sig_user mailmap (gc_author c))),
      cm_committer = default_user host_domain
        (read_notes host_domain ''FIY-committer: '' (gc_note c) (sig_user mailmap (gc_committer c)))\<rparr>"

section \<open>Reading the repository\<close>

datatype EntryType = INVALID_ENTRY | COMMIT_ENTRY | DIRECTORY_ENTRY | FILE_ENTRY

record Entry =
  en_type :: EntryType
  en_path :: string
  en_last_commit :: Commit

text \<open>\<open>open\<close> and \<open>create\<close>; what \<open>git_repository_init_ext\<close> does with its options is a parameter, with the last error.\<close>

definition git_open :: "(string \<Rightarrow> git_repository option) \<Rightarrow> string \<Rightarrow> 'a BasicRepo_scheme \<Rightarrow> git_repository option \<times> bool" where
  "git_open lib dir r = (let g = lib (repo_fs_path dir r) in (g, g \<noteq> None))"

record init_options =
  io_path :: string
  io_bare :: bool
  io_origin_url :: "string option"
  io_description :: "string option"

definition git_init_options :: "string \<Rightarrow> 'a BasicRepo_scheme \<Rightarrow> string option \<Rightarrow> init_options" where
  "git_init_options dir r description =
     \<lparr>io_path = repo_fs_path dir r, io_bare = True,
      io_origin_url = (if repo_is_local r then None
                       else Some (''https://'' @ rp_instance r @ ''/'' @ rp_owner r @ ''/'' @ rp_name r)),
      io_description = description\<rparr>"

definition git_create ::
  "(init_options \<Rightarrow> int \<times> string option) \<Rightarrow> string \<Rightarrow> 'a BasicRepo_scheme \<Rightarrow> string option \<Rightarrow> int result" where
  "git_create init dir r description =
     (case init (git_init_options dir r description) of
        (error, message) \<Rightarrow> if error < 0 \<and> message = None then Inl UndefinedBehaviour else Inr error)"

definition default_branch :: "git_repository \<Rightarrow> string" where
  "default_branch g = (case gr_head g of None \<Rightarrow> [] | Some b \<Rightarrow> b)"

definition branches_count :: "git_repository \<Rightarrow> int" where
  "branches_count g = (case gr_branches g of None \<Rightarrow> -1 | Some bs \<Rightarrow> int (length bs))"

definition git_branches :: "git_repository \<Rightarrow> string list" where
  "git_branches g = (case gr_branches g of None \<Rightarrow> [] | Some bs \<Rightarrow> map fst bs)"

definition tags_count :: "git_repository \<Rightarrow> int" where
  "tags_count g = (case gr_tags g of None \<Rightarrow> -1 | Some ts \<Rightarrow> int (length ts))"

definition git_tags :: "git_repository \<Rightarrow> string list" where
  "git_tags g = (case gr_tags g of None \<Rightarrow> [] | Some ts \<Rightarrow> ts)"

definition branch_tip :: "git_repository \<Rightarrow> string \<Rightarrow> oid option" where
  "branch_tip g b =
     (case gr_branches g of None \<Rightarrow> None | Some bs \<Rightarrow> (case map_of bs b of None \<Rightarrow> None | Some t \<Rightarrow> t))"

definition commits_count :: "git_repository \<Rightarrow> oid \<Rightarrow> int" where
  "commits_count g i = int (length (gr_walk g i))"

definition last_commit :: "string \<Rightarrow> git_repository \<Rightarrow> oid \<Rightarrow> Commit" where
  "last_commit host_domain g i =
     (case gr_commits g i of None \<Rightarrow> no_commit | Some c \<Rightarrow> make_commit host_domain (gr_mailmap g) i c)"

definition last_commit_branch :: "string \<Rightarrow> git_repository \<Rightarrow> string \<Rightarrow> Commit" where
  "last_commit_branch host_domain g b =
     (case branch_tip g b of None \<Rightarrow> no_commit | Some i \<Rightarrow> last_commit host_domain g i)"

text \<open>The walk to the last commit that touches a path: a commit without parents ends it.\<close>

fun last_commit_walk :: "string \<Rightarrow> git_repository \<Rightarrow> string \<Rightarrow> oid list \<Rightarrow> Commit" where
  "last_commit_walk host_domain g path [] = no_commit"
| "last_commit_walk host_domain g path (i # is) =
     (case gr_commits g i of
        None \<Rightarrow> last_commit_walk host_domain g path is
      | Some c \<Rightarrow>
          (case gc_parents c of
             [] \<Rightarrow> make_commit host_domain (gr_mailmap g) i c
           | p # ps \<Rightarrow>
               (if gr_deltas g p i path > 0 then make_commit host_domain (gr_mailmap g) i c
                else last_commit_walk host_domain g path is)))"

definition last_commit_path :: "string \<Rightarrow> git_repository \<Rightarrow> oid \<Rightarrow> string \<Rightarrow> Commit" where
  "last_commit_path host_domain g start path = last_commit_walk host_domain g path (gr_walk g start)"

fun entry_type :: "object_type \<Rightarrow> EntryType" where
  "entry_type ObjTree = DIRECTORY_ENTRY"
| "entry_type ObjCommit = COMMIT_ENTRY"
| "entry_type ObjTag = COMMIT_ENTRY"
| "entry_type ObjBlob = FILE_ENTRY"

text \<open>\<open>entries\<close>: the root directory whatever the path; \<open>None\<close> for an error.\<close>

definition tree_entries :: "string \<Rightarrow> git_repository \<Rightarrow> oid \<Rightarrow> string \<Rightarrow> Entry list option" where
  "tree_entries host_domain g target path =
     (case gr_commits g target of
        None \<Rightarrow> None
      | Some c \<Rightarrow>
          map_option (map (\<lambda>(n, t).
              \<lparr>en_type = entry_type t, en_path = n, en_last_commit = last_commit_path host_domain g target n\<rparr>))
            (gc_tree c))"

definition branch_entries :: "string \<Rightarrow> git_repository \<Rightarrow> string \<Rightarrow> string \<Rightarrow> Entry list option" where
  "branch_entries host_domain g b path =
     (case branch_tip g b of None \<Rightarrow> None | Some i \<Rightarrow> tree_entries host_domain g i path)"

section \<open>The counts in the database\<close>

definition forks_count :: "string \<Rightarrow> git_db \<Rightarrow> 'a BasicRepo_scheme \<Rightarrow> int" where
  "forks_count host_domain db r =
     int (length (filter (\<lambda>(from_p, to_p). from_p =
       rp_owner r @ ''@'' @ (if rp_instance r = [] then host_domain else rp_instance r) @ ''/'' @ rp_name r) (tbl_forks db)))"

definition likes_count :: "git_db \<Rightarrow> 'a BasicRepo_scheme \<Rightarrow> int" where
  "likes_count db r = int (length (filter (\<lambda>(u, p). p = repo_path r) (tbl_likes db)))"

definition tickets_count :: "git_db \<Rightarrow> LocalRepo \<Rightarrow> int" where
  "tickets_count db r = int (length (filter (\<lambda>i. i = lr_id r) (tbl_tickets db)))"

section \<open>Transfer objects\<close>

record DTORepoInfo =
  ri_instance :: string
  ri_owner :: string
  ri_name :: string
  ri_description :: string
  ri_fork_of :: string
  ri_create_ts :: int
  ri_visibility :: int
  ri_default_branch :: string
  ri_branches_count :: int
  ri_likes_count :: int
  ri_tickets_count :: int
  ri_forks_count :: int
  ri_tags_count :: int

definition new_info :: DTORepoInfo where
  "new_info = \<lparr>ri_instance = [], ri_owner = [], ri_name = [], ri_description = [], ri_fork_of = [], ri_create_ts = 0,
     ri_visibility = 0, ri_default_branch = [], ri_branches_count = -1, ri_likes_count = -1, ri_tickets_count = -1,
     ri_forks_count = -1, ri_tags_count = -1\<rparr>"

text \<open>\<open>get_info_dto\<close>: the time of creation is not copied.\<close>

definition get_info_dto :: "string \<Rightarrow> git_db \<Rightarrow> git_repository \<Rightarrow> LocalRepo \<Rightarrow> DTORepoInfo \<Rightarrow> DTORepoInfo" where
  "get_info_dto host_domain db g r dto =
     dto\<lparr>ri_visibility := lr_visibility r, ri_description := lr_description r, ri_fork_of := lr_fork_of r,
        ri_owner := rp_owner r, ri_name := rp_name r,
        ri_instance := (if rp_instance r = [] then host_domain else rp_instance r),
        ri_likes_count := likes_count db r, ri_forks_count := forks_count host_domain db r,
        ri_tickets_count := tickets_count db r,
        ri_default_branch := default_branch g, ri_branches_count := branches_count g, ri_tags_count := tags_count g\<rparr>"

definition jint :: "int \<Rightarrow> json" where
  "jint i = JNumber (of_int i)"

text \<open>The members in the order of the keys, as the library writes them.\<close>

definition info_to_json :: "DTORepoInfo \<Rightarrow> json" where
  "info_to_json d = JObject
     [(''branches_count'', jint (ri_branches_count d)), (''class'', JString ''repo.info''),
      (''create_ts'', jint (ri_create_ts d)), (''default_branch'', JString (ri_default_branch d)),
      (''description'', JString (ri_description d)), (''fork_of'', JString (ri_fork_of d)),
      (''forks_count'', jint (ri_forks_count d)), (''instance'', JString (ri_instance d)),
      (''likes_count'', jint (ri_likes_count d)), (''name'', JString (ri_name d)), (''owner'', JString (ri_owner d)),
      (''tags_count'', jint (ri_tags_count d)), (''tickets_count'', jint (ri_tickets_count d)),
      (''visibility'', jint (ri_visibility d))]"

text \<open>\<open>value(key, default)\<close>: a member of another type throws; a fraction is cut off; a truth value is a number.\<close>

definition value_text :: "json \<Rightarrow> string \<Rightarrow> string \<Rightarrow> string option" where
  "value_text j key dflt = (case jget j key of None \<Rightarrow> Some dflt | Some (JString s) \<Rightarrow> Some s | Some _ \<Rightarrow> None)"

definition rat_truncate :: "rat \<Rightarrow> int" where
  "rat_truncate q = (if q < 0 then \<lceil>q\<rceil> else \<lfloor>q\<rfloor>)"

definition value_int :: "json \<Rightarrow> string \<Rightarrow> int \<Rightarrow> int option" where
  "value_int j key dflt =
     (case jget j key of
        None \<Rightarrow> Some dflt
      | Some (JNumber q) \<Rightarrow> Some (rat_truncate q)
      | Some (JBool b) \<Rightarrow> Some (if b then 1 else 0)
      | Some _ \<Rightarrow> None)"

definition is_object :: "json \<Rightarrow> bool" where
  "is_object j = (case j of JObject kvs \<Rightarrow> True | _ \<Rightarrow> False)"

text \<open>
  The generated reader: the members in the order of the macro, each stored before the next is read; null gives the
  defaults, any other value that is not an object throws. An exception is \<open>False\<close>.
\<close>

fun read_members :: "(DTORepoInfo \<Rightarrow> DTORepoInfo option) list \<Rightarrow> DTORepoInfo \<Rightarrow> DTORepoInfo \<times> bool" where
  "read_members [] d = (d, True)"
| "read_members (f # fs) d = (case f d of None \<Rightarrow> (d, False) | Some d' \<Rightarrow> read_members fs d')"

definition info_from_json :: "json \<Rightarrow> DTORepoInfo \<Rightarrow> DTORepoInfo \<times> bool" where
  "info_from_json j d =
     (if j = JNull then (new_info, True)
      else if \<not> is_object j then (d, False)
      else read_members
        [\<lambda>d. map_option (\<lambda>i. d\<lparr>ri_tags_count := i\<rparr>) (value_int j ''tags_count'' (-1)),
         \<lambda>d. map_option (\<lambda>i. d\<lparr>ri_branches_count := i\<rparr>) (value_int j ''branches_count'' (-1)),
         \<lambda>d. map_option (\<lambda>i. d\<lparr>ri_likes_count := i\<rparr>) (value_int j ''likes_count'' (-1)),
         \<lambda>d. map_option (\<lambda>i. d\<lparr>ri_tickets_count := i\<rparr>) (value_int j ''tickets_count'' (-1)),
         \<lambda>d. map_option (\<lambda>i. d\<lparr>ri_forks_count := i\<rparr>) (value_int j ''forks_count'' (-1)),
         \<lambda>d. map_option (\<lambda>s. d\<lparr>ri_instance := s\<rparr>) (value_text j ''instance'' []),
         \<lambda>d. map_option (\<lambda>s. d\<lparr>ri_owner := s\<rparr>) (value_text j ''owner'' []),
         \<lambda>d. map_option (\<lambda>s. d\<lparr>ri_name := s\<rparr>) (value_text j ''name'' []),
         \<lambda>d. map_option (\<lambda>s. d\<lparr>ri_description := s\<rparr>) (value_text j ''description'' []),
         \<lambda>d. map_option (\<lambda>s. d\<lparr>ri_fork_of := s\<rparr>) (value_text j ''fork_of'' []),
         \<lambda>d. map_option (\<lambda>i. d\<lparr>ri_create_ts := i\<rparr>) (value_int j ''create_ts'' 0),
         \<lambda>d. map_option (\<lambda>i. d\<lparr>ri_visibility := i\<rparr>) (value_int j ''visibility'' 0),
         \<lambda>d. map_option (\<lambda>s. d\<lparr>ri_default_branch := s\<rparr>) (value_text j ''default_branch'' [])] d)"

record DTORepoTree =
  rt_last_commit :: Commit
  rt_active_branch :: string
  rt_path :: string
  rt_entries :: "Entry list"
  rt_commits_count :: int

fun entry_type_int :: "EntryType \<Rightarrow> int" where
  "entry_type_int INVALID_ENTRY = 0"
| "entry_type_int COMMIT_ENTRY = 1"
| "entry_type_int DIRECTORY_ENTRY = 2"
| "entry_type_int FILE_ENTRY = 3"

definition entry_json :: "Entry \<Rightarrow> json" where
  "entry_json e = JObject
     [(''commit'', JObject [(''id'', JString (cm_id (en_last_commit e))), (''message'', JString (cm_message (en_last_commit e))),
                           (''ts'', jint (cm_ts (en_last_commit e)))]),
      (''path'', JString (en_path e)), (''type'', jint (entry_type_int (en_type e)))]"

definition commit_user_json :: "string \<Rightarrow> GitUser \<Rightarrow> json" where
  "commit_user_json host_domain u = JObject
     [(''email'', JString (gu_email u)), (''name'', JString (gu_name u)), (''user'', JString (canonical_user host_domain u))]"

definition commit_json :: "string \<Rightarrow> Commit \<Rightarrow> json" where
  "commit_json host_domain c = JObject
     [(''author'', commit_user_json host_domain (cm_author c)), (''committer'', commit_user_json host_domain (cm_committer c)),
      (''id'', JString (cm_id c)), (''message'', JString (cm_message c)), (''ts'', jint (cm_ts c))]"

definition tree_to_json :: "string \<Rightarrow> DTORepoTree \<Rightarrow> json" where
  "tree_to_json host_domain t = JObject
     [(''branch'', JString (rt_active_branch t)), (''class'', JString ''repo.tree''),
      (''commit'', commit_json host_domain (rt_last_commit t)), (''entries'', JArray (map entry_json (rt_entries t))),
      (''path'', JString (rt_path t))]"

text \<open>
  \<open>commit_from_json\<close>: a time that is there ends it with false; without one it reads what the end iterator
  points at.
\<close>

definition commit_from_json :: "json \<Rightarrow> Commit \<Rightarrow> (Commit \<times> bool) result" where
  "commit_from_json j c =
     (if \<not> is_object j then Inr (c, False)
      else case jget j ''id'' of
             Some (JString i) \<Rightarrow>
               (case set_id_str i c of
                  (c1, False) \<Rightarrow> Inr (c1, False)
                | (c1, True) \<Rightarrow>
                    (let c2 = (case jget j ''message'' of Some (JString m) \<Rightarrow> c1\<lparr>cm_message := m\<rparr> | _ \<Rightarrow> c1)
                     in if jget j ''ts'' = None then Inl UndefinedBehaviour else Inr (c2, False)))
           | _ \<Rightarrow> Inr (c, False))"

text \<open>A JSON number counts as an integer when it is whole.\<close>

definition json_integer :: "json \<Rightarrow> int option" where
  "json_integer j = (case j of JNumber q \<Rightarrow> (if of_int \<lfloor>q\<rfloor> = q then Some \<lfloor>q\<rfloor> else None) | _ \<Rightarrow> None)"

definition entry_type_from_json :: "json \<Rightarrow> EntryType option" where
  "entry_type_from_json j =
     (case json_integer j of
        Some n \<Rightarrow>
          (if n = 3 then Some FILE_ENTRY else if n = 2 then Some DIRECTORY_ENTRY else if n = 1 then Some COMMIT_ENTRY else None)
      | None \<Rightarrow>
          (case j of
             JString s \<Rightarrow>
               (if s = ''BLOB'' \<or> s = ''FILE'' then Some FILE_ENTRY
                else if s = ''DIR'' \<or> s = ''DIRECTORY'' then Some DIRECTORY_ENTRY
                else if s = ''COMMIT'' then Some COMMIT_ENTRY else None)
           | _ \<Rightarrow> None))"

definition new_entry :: Entry where
  "new_entry = \<lparr>en_type = INVALID_ENTRY, en_path = [], en_last_commit = no_commit\<rparr>"

definition entry_from_json :: "json \<Rightarrow> Entry option result" where
  "entry_from_json j =
     (if \<not> is_object j then Inr None
      else bind_result (case jget j ''commit'' of None \<Rightarrow> Inr (no_commit, True) | Some cj \<Rightarrow> commit_from_json cj no_commit)
        (\<lambda>(c, ok). if \<not> ok then Inr None
          else case jget j ''path'' of
                 Some (JString p) \<Rightarrow>
                   Inr (case jget j ''type'' of
                          None \<Rightarrow> None
                        | Some tj \<Rightarrow>
                            map_option (\<lambda>t. \<lparr>en_type = t, en_path = p, en_last_commit = c\<rparr>) (entry_type_from_json tj))
               | _ \<Rightarrow> Inr None))"

fun entries_from_json :: "json list \<Rightarrow> DTORepoTree \<Rightarrow> (DTORepoTree \<times> bool) result" where
  "entries_from_json [] t = Inr (t, True)"
| "entries_from_json (j # js) t =
     bind_result (entry_from_json j) (\<lambda>r.
       case r of None \<Rightarrow> Inr (t, False) | Some e \<Rightarrow> entries_from_json js (t\<lparr>rt_entries := rt_entries t @ [e]\<rparr>))"

text \<open>The last commit: only its time and its id are read.\<close>

definition tree_commit_from_json :: "json \<Rightarrow> DTORepoTree \<Rightarrow> DTORepoTree \<times> bool" where
  "tree_commit_from_json lc t =
     (case jget lc ''ts'' of
        None \<Rightarrow> (t, False)
      | Some ts \<Rightarrow>
          (case json_integer ts of
             None \<Rightarrow> (t, False)
           | Some n \<Rightarrow>
               (let t1 = t\<lparr>rt_last_commit := (rt_last_commit t)\<lparr>cm_ts := n\<rparr>\<rparr>
                in case jget lc ''id'' of
                     Some (JString i) \<Rightarrow>
                       (case set_id_str i (rt_last_commit t1) of (c, ok) \<Rightarrow> (t1\<lparr>rt_last_commit := c\<rparr>, ok))
                   | _ \<Rightarrow> (t1, False))))"

definition tree_from_json :: "json \<Rightarrow> DTORepoTree \<Rightarrow> (DTORepoTree \<times> bool) result" where
  "tree_from_json j t0 =
     bind_result (case jget j ''entries'' of Some (JArray js) \<Rightarrow> entries_from_json js t0 | _ \<Rightarrow> Inr (t0, True)) (\<lambda>(t1, ok1).
       if \<not> ok1 then Inr (t1, False)
       else let (t2, ok2) =
              (case jget j ''commit'' of Some (JObject lc) \<Rightarrow> tree_commit_from_json (JObject lc) t1 | _ \<Rightarrow> (t1, True))
            in if \<not> ok2 then Inr (t2, False)
               else case jget j ''branch'' of
                      Some (JString b) \<Rightarrow>
                        (case jget j ''path'' of
                           Some (JString p) \<Rightarrow> Inr (t2\<lparr>rt_active_branch := b, rt_path := p\<rparr>, True)
                         | _ \<Rightarrow> Inr (t2\<lparr>rt_active_branch := b\<rparr>, False))
                    | _ \<Rightarrow> Inr (t2, False))"

section \<open>Pages\<close>

text \<open>A distance in time. Months have 30 days and years 52 weeks.\<close>

definition time_diff_str :: "int \<Rightarrow> int \<Rightarrow> string" where
  "time_diff_str now then_ts =
     (let secs = \<bar>then_ts - now\<bar>;
          dist = (if now > then_ts then '' ago'' else '' from now'');
          minute = 60; hour = 3600; day = 86400; week = 604800; month = 2592000; year = 31449600
      in if secs div year > 1 then show_int (secs div year) @ '' years'' @ dist
         else if secs div year = 1 then (if now > then_ts then ''last year'' else ''next year'')
         else if secs div month > 1 then show_int (secs div month) @ '' months'' @ dist
         else if secs div week > 1 then show_int (secs div week) @ '' weeks'' @ dist
         else if secs div day > 1 then show_int (secs div day) @ '' days'' @ dist
         else if secs div hour > 1 then show_int (secs div hour) @ '' hours'' @ dist
         else if secs div minute > 1 then show_int (secs div minute) @ '' minutes'' @ dist
         else ''just now'')"

text \<open>\<open>gmtime_r\<close> fails when the year does not fit into an \<open>int\<close>.\<close>

definition time_str :: "int \<Rightarrow> string" where
  "time_str ts =
     (let (y, m, d) = civil_from_days (ts div 86400); s = ts mod 86400
      in if y - 1900 < - (2 ^ 31) \<or> y - 1900 \<ge> 2 ^ 31 then show_int ts
         else show_int y @ ''-'' @ two_digits m @ ''-'' @ two_digits d @ ''T'' @ two_digits (s div 3600) @ '':'' @
              two_digits (s div 60 mod 60) @ '':'' @ two_digits (s mod 60) @ ''Z'')"

record RepoPageData = BasicRepo +
  pd_files :: "Entry list"
  pd_last_commit :: Commit
  pd_active_branch :: string
  pd_default_branch :: string
  pd_project_path :: string
  pd_visibility :: int
  pd_commits_count :: int
  pd_tags_count :: int
  pd_branches_count :: int
  pd_likes_count :: int
  pd_tickets_count :: int
  pd_forks_count :: int
  pd_description :: string
  pd_fork_of :: string
  pd_create_ts :: int

definition new_page_data :: RepoPageData where
  "new_page_data = \<lparr>rp_instance = [], rp_owner = [], rp_name = [], pd_files = [], pd_last_commit = no_commit,
     pd_active_branch = [], pd_default_branch = [], pd_project_path = [], pd_visibility = 3, pd_commits_count = -1, pd_tags_count = -1,
     pd_branches_count = -1, pd_likes_count = -1, pd_tickets_count = -1, pd_forks_count = -1, pd_description = [],
     pd_fork_of = [], pd_create_ts = -1\<rparr>"

text \<open>\<open>GitRepo::get_repo_page_data\<close>: without the branch the commits and the files stay as they were.\<close>

definition git_page_data :: "string \<Rightarrow> git_repository \<Rightarrow> string \<Rightarrow> RepoPageData \<Rightarrow> RepoPageData \<times> bool" where
  "git_page_data host_domain g branch data0 =
     (let data1 = data0\<lparr>pd_active_branch := branch, pd_default_branch := default_branch g,
                        pd_branches_count := branches_count g, pd_tags_count := tags_count g\<rparr>
      in case branch_tip g branch of
           None \<Rightarrow> (data1, False)
         | Some target \<Rightarrow>
             (let data2 = data1\<lparr>pd_commits_count := commits_count g target, pd_last_commit := last_commit host_domain g target\<rparr>
              in case tree_entries host_domain g target [] of
                   None \<Rightarrow> (data2, False)
                 | Some es \<Rightarrow> (data2\<lparr>pd_files := pd_files data2 @ es\<rparr>, True)))"

definition get_repo_page_data ::
  "string \<Rightarrow> git_db \<Rightarrow> git_repository \<Rightarrow> LocalRepo \<Rightarrow> string \<Rightarrow> RepoPageData \<Rightarrow> RepoPageData" where
  "get_repo_page_data host_domain db g r branch data0 =
     (fst (git_page_data host_domain g branch data0))
       \<lparr>pd_visibility := lr_visibility r, pd_description := lr_description r, pd_fork_of := lr_fork_of r,
        rp_owner := rp_owner r, rp_name := rp_name r, rp_instance := rp_instance r,
        pd_likes_count := likes_count db r, pd_forks_count := forks_count host_domain db r,
        pd_tickets_count := tickets_count db r\<rparr>"

text \<open>The trees of a branch, and of a commit given by (the beginning of) its number.\<close>

definition read_tree :: "string \<Rightarrow> git_repository \<Rightarrow> oid \<Rightarrow> DTORepoTree \<Rightarrow> DTORepoTree \<times> bool" where
  "read_tree host_domain g target dto =
     (let dto1 = dto\<lparr>rt_commits_count := commits_count g target, rt_last_commit := last_commit host_domain g target\<rparr>
      in case tree_entries host_domain g target [] of
           None \<Rightarrow> (dto1, False)
         | Some es \<Rightarrow> (dto1\<lparr>rt_entries := rt_entries dto1 @ es\<rparr>, True))"

definition get_tree_dto_branch ::
  "string \<Rightarrow> git_repository \<Rightarrow> string \<Rightarrow> string \<Rightarrow> DTORepoTree \<Rightarrow> DTORepoTree \<times> bool" where
  "get_tree_dto_branch host_domain g branch path dto =
     (let dto1 = dto\<lparr>rt_active_branch := branch, rt_path := path\<rparr>
      in case branch_tip g branch of None \<Rightarrow> (dto1, False) | Some target \<Rightarrow> read_tree host_domain g target dto1)"

definition get_tree_dto_commit ::
  "string \<Rightarrow> git_repository \<Rightarrow> (string \<Rightarrow> oid option) \<Rightarrow> string \<Rightarrow> string \<Rightarrow> DTORepoTree \<Rightarrow> DTORepoTree \<times> bool" where
  "get_tree_dto_commit host_domain g oid_from commit path dto =
     (let dto1 = dto\<lparr>rt_path := path\<rparr>
      in case oid_from commit of
           None \<Rightarrow> (dto1, False)
         | Some target \<Rightarrow>
             (case read_tree host_domain g target dto1 of
                (dto2, ok) \<Rightarrow> (if ok then (dto2\<lparr>rt_active_branch := commit\<rparr>, True) else (dto2, False))))"

definition page_data_json :: "string \<Rightarrow> RepoPageData \<Rightarrow> json" where
  "page_data_json host_domain d = JObject
     ([(''branch'', JString (pd_active_branch d)), (''branches_count'', jint (pd_branches_count d)),
       (''commits_count'', jint (pd_commits_count d)), (''create_ts'', jint (pd_create_ts d)),
       (''default_branch'', JString (pd_default_branch d)), (''description'', JString (pd_description d)),
       (''entries'', JArray (map entry_json (pd_files d)))] @
      (if pd_fork_of d \<noteq> [] then [(''fork_of'', JString (pd_fork_of d))] else []) @
      [(''forks_count'', jint (pd_forks_count d)), (''last_commit'', commit_json host_domain (pd_last_commit d)),
       (''likes_count'', jint (pd_likes_count d)), (''path'', JString (pd_project_path d)),
       (''tags_count'', jint (pd_tags_count d)), (''tickets_count'', jint (pd_tickets_count d)),
       (''visibility'', jint (pd_visibility d))])"

fun entry_icon :: "EntryType \<Rightarrow> string" where
  "entry_icon DIRECTORY_ENTRY = [CHR 0xF0, CHR 0x9F, CHR 0x93, CHR 0x81]"
| "entry_icon COMMIT_ENTRY = [CHR 0xF0, CHR 0x9F, CHR 0x93, CHR 0x8D]"
| "entry_icon FILE_ENTRY = [CHR 0xF0, CHR 0x9F, CHR 0x93, CHR 0x84]"
| "entry_icon INVALID_ENTRY = ''?''"

definition first_line :: "string \<Rightarrow> string" where
  "first_line m = takeWhile (\<lambda>c. c \<noteq> NL) m"

definition entry_html :: "int \<Rightarrow> string \<Rightarrow> Entry \<Rightarrow> string" where
  "entry_html now repo_nm e =
     (let c = en_last_commit e
      in ''<tr><td'' @ attr ''class'' ''file-name'' @ ''><span'' @ attr ''class'' ''file-icon'' @ ''>'' @ entry_icon (en_type e) @
         ''</span> '' @ en_path e @ ''</td><td'' @ attr ''class'' ''file-commit-msg'' @ ''><a'' @
         attr ''href'' (repo_nm @ ''/commit/'' @ cm_id c) @ ''>'' @ first_line (cm_message c) @ ''</a></td><td'' @
         attr ''class'' ''file-time'' @ attr ''title'' (time_str (cm_ts c)) @ ''>'' @ time_diff_str now (cm_ts c) @
         ''</td></tr>'' @ [NL])"

definition entries_html :: "int \<Rightarrow> RepoPageData \<Rightarrow> string" where
  "entries_html now d = concat (map (entry_html now (rp_name d)) (pd_files d))"

record git_host =
  gh_domain :: string
  gh_base_uri :: string
  gh_data_dir :: string
  gh_now :: int
  gh_files :: "string \<Rightarrow> string"

definition host_base_uri :: "git_host \<Rightarrow> string result" where
  "host_base_uri h = host_uri (gh_base_uri h) (gh_domain h)"

text \<open>The text of a page file, with the data of the host filled in.\<close>

definition static_path :: "git_host \<Rightarrow> string \<Rightarrow> string" where
  "static_path h subpath = gh_data_dir h @ ''/static'' @ subpath"

definition file_contents :: "git_host \<Rightarrow> string \<Rightarrow> string" where
  "file_contents h path =
     min_ssr_mustache_variable (gh_files h (static_path h path)) [(''fiy_domain'', gh_domain h), (''fiy_baseuri'', gh_base_uri h)] None"

fun org_options :: "string list \<Rightarrow> string" where
  "org_options [] = []"
| "org_options (org # orgs) = ''<option'' @ attr ''value'' org @ ''>'' @ org @ ''</option>'' @ org_options orgs"

definition repo_create_page :: "git_host \<Rightarrow> string \<Rightarrow> string list \<Rightarrow> string" where
  "repo_create_page h user orgs =
     min_ssr_mustache (file_contents h ''/repo_create.html'')
       [(''fiy_user'', user),
        (''orgs_option_list'',
          (if orgs = [] then [] else ''<optgroup'' @ attr ''label'' ''Organizations'' @ ''>'' @ org_options orgs @ ''</optgroup>''))]
       None"

definition user_page :: "git_host \<Rightarrow> string \<Rightarrow> string option \<Rightarrow> string" where
  "user_page h user request_user =
     min_ssr_mustache (file_contents h ''/user.html'')
       [(''fiy_user'', user), (''request_user'', case request_user of None \<Rightarrow> [] | Some u \<Rightarrow> u),
        (''fiy_display_name'', user), (''fiy_user_bio'', [])] None"

definition visibility_strs :: "string list" where
  "visibility_strs = [''Private'', ''Instance private'', ''Federated'', ''Public'']"

text \<open>\<open>visibility_strs\<close> is read at the visibility, which must be one of the four.\<close>

definition repo_page :: "git_host \<Rightarrow> RepoPageData \<Rightarrow> string option \<Rightarrow> string result" where
  "repo_page h d request_user =
     bind_result (host_base_uri h) (\<lambda>host_uri.
       if pd_visibility d < 0 \<or> pd_visibility d > 3 then Inl UndefinedBehaviour
       else let c = pd_last_commit d; pfp = (\<lambda>u. host_uri @ ''/mods/contacts/pfp/'' @ u)
            in Inr (min_ssr_mustache (file_contents h ''/repo.html'')
                 [(''repo_owner_pfp'', pfp (owner_user d)), (''last_commit_author_pfp'', pfp (gu_fiy_user (cm_author c))),
                  (''last_commit_author'', profile_link (gh_base_uri h) (cm_author c)),
                  (''last_commit_time'', time_str (cm_ts c)), (''last_commit_time_diff'', time_diff_str (gh_now h) (cm_ts c)),
                  (''last_commit_id'', cm_id c), (''last_commit_msg'', first_line (cm_message c)),
                  (''mod_baseurl'', gh_base_uri h), (''repo_branch'', pd_active_branch d),
                  (''repo_branches_count'', show_int (pd_branches_count d)),
                  (''repo_commits_count'', show_int (pd_commits_count d)), (''repo_description'', pd_description d),
                  (''repo_forks_count'', show_int (- 1)), (''repo_likes_count'', show_int (pd_likes_count d)),
                  (''repo_name'', rp_name d), (''repo_owner'', owner_user d),
                  (''repo_tags_count'', show_int (pd_commits_count d)),
                  (''repo_tickets_count'', show_int (pd_tickets_count d)),
                  (''repo_visibility'', visibility_strs ! nat (pd_visibility d)),
                  (''repo_clone_url'', gh_base_uri h @ ''/'' @ repo_path d), (''repo_entries_html'', entries_html (gh_now h) d),
                  (''request_user'', case request_user of None \<Rightarrow> [] | Some u \<Rightarrow> u), (''fiy_domain'', gh_domain h)] None))"

definition landing_page :: "git_host \<Rightarrow> string \<Rightarrow> string" where
  "landing_page h profile_url = min_ssr_mustache (file_contents h ''/landing.html'') [(''profile_url'', profile_url)] None"

definition error_page :: "git_host \<Rightarrow> string \<Rightarrow> string \<Rightarrow> (string \<times> string) list \<Rightarrow> string" where
  "error_page h title description links =
     min_ssr_mustache (file_contents h ''/error.html'')
       [(''error_title'', title), (''error_description'', description),
        (''links'', concat (map (\<lambda>(url, label). ''| <a'' @ attr ''href'' url @ ''>'' @ label @ ''</a> '') links))] None"

section \<open>Properties\<close>

lemma rat_truncate_of_int [simp]: "rat_truncate (of_int i) = i"
  by (simp add: rat_truncate_def)

lemma json_integer_jint [simp]: "json_integer (jint i) = Some i"
  by (simp add: json_integer_def jint_def)


text \<open>
  No tree with an entry is read back from its JSON form, and none with a whole commit name: the reader refuses
  a commit that has a time, and a name as long as the ones libgit2 gives.
\<close>

theorem tree_json_refused:
  assumes "rt_entries t \<noteq> [] \<or> length (cm_id (rt_last_commit t)) = OID_HEXSZ"
  shows "\<exists>t'. tree_from_json (tree_to_json host_domain t) t0 = Inr (t', False)"
proof -
  have j: "jget (tree_to_json host_domain t) ''entries'' = Some (JArray (map entry_json (rt_entries t)))"
    "jget (tree_to_json host_domain t) ''commit'' = Some (commit_json host_domain (rt_last_commit t))"
    by (simp_all add: tree_to_json_def jget_def)
  show ?thesis
  proof (cases "rt_entries t")
    case Nil
    then have "length (cm_id (rt_last_commit t)) = OID_HEXSZ" using assms by simp
    moreover from this have "jget (commit_json host_domain (rt_last_commit t)) ''ts'' = Some (jint (cm_ts (rt_last_commit t)))"
      "jget (commit_json host_domain (rt_last_commit t)) ''id'' = Some (JString (cm_id (rt_last_commit t)))"
      by (simp_all add: commit_json_def jget_def)
    ultimately have "\<exists>t1. tree_commit_from_json (commit_json host_domain (rt_last_commit t)) t0 = (t1, False)"
      by (simp add: tree_commit_from_json_def set_id_str_def Let_def)
    then show ?thesis by (auto simp: tree_from_json_def j Nil commit_json_def)
  next
    case (Cons e es)
    have "entry_from_json (entry_json e) = Inr None"
      by (simp add: entry_from_json_def entry_json_def is_object_def jget_def commit_from_json_def set_id_str_def Let_def)
    then show ?thesis by (simp add: tree_from_json_def j Cons)
  qed
qed

theorem tree_json_refused_witness:
  "\<exists>t'. tree_from_json (tree_to_json ''a.b''
     \<lparr>rt_last_commit = no_commit, rt_active_branch = ''main'', rt_path = [],
      rt_entries = [\<lparr>en_type = FILE_ENTRY, en_path = ''a.txt'', en_last_commit = no_commit\<rparr>], rt_commits_count = 1\<rparr>)
     \<lparr>rt_last_commit = no_commit, rt_active_branch = [], rt_path = [], rt_entries = [], rt_commits_count = -1\<rparr> = Inr (t', False)"
  by (rule tree_json_refused) simp

lemma set_user_prefix:
  assumes "starts_with c p" "CHR ''@'' \<notin> set p"
  shows "starts_with (gu_fiy_user (set_user host_domain c u)) p"
proof -
  from assms obtain t where t: "c = p @ t" by (auto simp: starts_with_iff)
  have "starts_with (take i c) p" if "find_char c (CHR ''@'') 0 = Some i" for i
  proof -
    have "c ! i = CHR ''@''" using find_char_Some_nth [OF that] .
    then have "length p \<le> i" using assms(2) t by (metis leI nth_append nth_mem)
    then show ?thesis by (auto simp: t starts_with_iff)
  qed
  then show ?thesis using assms(1) by (auto simp: set_user_def split: option.split)
qed

lemma note_user_prefix:
  assumes "find_str key notes = Some k" "drop k notes = key @ t" "CHR ''@'' \<notin> set key"
  shows "starts_with (gu_fiy_user (note_user host_domain key notes u)) key"
proof (cases "find_char notes NL (k + length key)")
  case None
  then show ?thesis using assms by (auto simp: note_user_def intro!: set_user_prefix)
next
  case (Some e)
  then have "k + length key \<le> e" using find_char_Some_bound by blast
  then have "starts_with (substr notes k (e - k)) key" using assms(2) by (simp add: substr_def starts_with_def)
  then show ?thesis using Some assms by (auto simp: note_user_def intro!: set_user_prefix)
qed

lemma find_str_hit: "find_str pat s = Some k \<Longrightarrow> \<exists>t. drop k s = pat @ t"
proof (induction s arbitrary: k)
  case (Cons x xs)
  then show ?case by (cases "starts_with (x # xs) pat") (auto simp: starts_with_iff)
qed (auto split: if_splits)

text \<open>
  A commit whose note names its author shows, as the author's user, the line of the note with the key in
  front: a text that is no user.
\<close>

theorem note_keeps_key:
  assumes "gc_note c = Some notes" "find_str ''FIY-author: '' notes = Some k"
  shows "\<exists>rest. gu_fiy_user (cm_author (make_commit host_domain mailmap i c)) = ''FIY-author: '' @ rest"
proof -
  obtain t where "drop k notes = ''FIY-author: '' @ t" using find_str_hit [OF assms(2)] by blast
  from note_user_prefix [OF assms(2) this, of host_domain "sig_user mailmap (gc_author c)"]
  have "starts_with (gu_fiy_user (note_user host_domain ''FIY-author: '' notes (sig_user mailmap (gc_author c)))) ''FIY-author: ''"
    by simp
  then show ?thesis
    by (auto simp: make_commit_def read_notes_def assms(1) default_user_def has_user_def starts_with_iff)
qed

theorem note_keeps_key_witness:
  "\<exists>rest. gu_fiy_user (cm_author (make_commit ''a.b'' None ''c0ffee''
     \<lparr>gc_message = ''m'', gc_time = 5, gc_author = None, gc_committer = None, gc_parents = [], gc_tree = None,
      gc_note = Some ''FIY-author: ann@a.b''\<rparr>)) = ''FIY-author: '' @ rest"
  by (rule note_keeps_key [of _ "''FIY-author: ann@a.b''" 0]) (simp, simp add: starts_with_def)

text \<open>
  Reading a user from the JSON form never gives a user name: it is written only when there is none.
\<close>

theorem git_user_json_loses_user:
  "\<exists>u'. git_user_from_json host_domain (git_user_json host_domain u) no_user = Inr u' \<and> gu_fiy_user u' = [] \<and>
     gu_name u' = gu_name u \<and> gu_email u' = gu_email u"
proof -
  have at: "find_char (CHR ''@'' # host_domain) (CHR ''@'') 0 = Some 0" by (simp add: find_char_def)
  have none: "find_char [] (CHR ''@'') 1 = None" by simp
  show ?thesis
    by (cases "gu_name u = []"; cases "gu_email u = []"; cases "gu_fiy_user u = []")
      (simp_all add: git_user_from_json_def git_user_json_def with_text_def jget_def json_text_def no_user_def has_user_def
        set_user_def canonical_user_def at none)
qed

definition touches :: "git_repository \<Rightarrow> string \<Rightarrow> oid \<Rightarrow> bool" where
  "touches g path i \<longleftrightarrow>
     (case gr_commits g i of
        None \<Rightarrow> False
      | Some c \<Rightarrow> (case gc_parents c of [] \<Rightarrow> True | p # ps \<Rightarrow> gr_deltas g p i path > 0))"

text \<open>
  The commit named for a path is the first of the walk that has no parents or differs from its first parent
  under that path.
\<close>

theorem last_commit_path_first:
  "last_commit_path host_domain g start path =
     (case find (touches g path) (gr_walk g start) of None \<Rightarrow> no_commit | Some i \<Rightarrow> last_commit host_domain g i)"
proof -
  have "last_commit_walk host_domain g path is =
      (case find (touches g path) is of None \<Rightarrow> no_commit | Some i \<Rightarrow> last_commit host_domain g i)" for "is"
  proof (induction "is")
    case (Cons i "is")
    show ?case
    proof (cases "gr_commits g i")
      case None
      then show ?thesis using Cons by (simp add: touches_def)
    next
      case (Some c)
      then show ?thesis using Cons by (cases "gc_parents c") (simp_all add: touches_def last_commit_def)
    qed
  qed simp
  then show ?thesis by (simp add: last_commit_path_def)
qed

definition time_units :: "(string \<times> int) list" where
  "time_units = [('' years'', 31449600), ('' months'', 2592000), ('' weeks'', 604800), ('' days'', 86400),
     ('' hours'', 3600), ('' minutes'', 60)]"

lemma whole_units:
  fixes n u secs :: int
  assumes "u > 0" "n = secs div u"
  shows "n * u \<le> secs \<and> secs < (n + 1) * u"
proof -
  obtain r where r: "u * n + r = secs" "0 \<le> r" "r < u"
    using mult_div_mod_eq [of u secs] pos_mod_sign [OF assms(1), of secs] pos_mod_bound [OF assms(1), of secs]
    unfolding assms(2) by blast
  then show ?thesis unfolding r(1) [symmetric] by (simp add: algebra_simps)
qed

text \<open>
  A distance is never said to be one of a unit, and the number that is said is the whole units that passed.
\<close>

theorem time_diff_bounds:
  "(\<exists>n u nm. (nm, u) \<in> set time_units \<and> n \<ge> 2 \<and> n * u \<le> \<bar>t - now\<bar> \<and> \<bar>t - now\<bar> < (n + 1) * u \<and>
      time_diff_str now t = show_int n @ nm @ (if t < now then '' ago'' else '' from now'')) \<or>
   time_diff_str now t = (if t < now then ''last year'' else ''next year'') \<and> 31449600 \<le> \<bar>t - now\<bar> \<and> \<bar>t - now\<bar> < 2 * 31449600 \<or>
   time_diff_str now t = ''just now'' \<and> \<bar>t - now\<bar> < 120"
proof -
  define secs where "secs = \<bar>t - now\<bar>"
  define dist where "dist = (if t < now then '' ago'' else '' from now'')"
  have unit: ?thesis if "(nm, u) \<in> set time_units" "u > 0" "n = secs div u" "n > 1"
    "time_diff_str now t = show_int n @ nm @ dist" for nm u n
  proof (intro disjI1 exI conjI)
    show "(nm, u) \<in> set time_units" by fact
    show "time_diff_str now t = show_int n @ nm @ (if t < now then '' ago'' else '' from now'')"
      using that(5) by (simp only: dist_def)
    show "2 \<le> n" using that(4) by simp
    show "n * u \<le> \<bar>t - now\<bar>" "\<bar>t - now\<bar> < (n + 1) * u"
      using whole_units [OF that(2,3)] by (simp_all only: secs_def)
  qed
  define y m w d h mi where q: "y = secs div 31449600" "m = secs div 2592000" "w = secs div 604800" "d = secs div 86400"
    "h = secs div 3600" "mi = secs div 60"
  have str: "time_diff_str now t =
      (if y > 1 then show_int y @ '' years'' @ dist
       else if y = 1 then (if t < now then ''last year'' else ''next year'')
       else if m > 1 then show_int m @ '' months'' @ dist
       else if w > 1 then show_int w @ '' weeks'' @ dist
       else if d > 1 then show_int d @ '' days'' @ dist
       else if h > 1 then show_int h @ '' hours'' @ dist
       else if mi > 1 then show_int mi @ '' minutes'' @ dist
       else ''just now'')"
    unfolding time_diff_str_def Let_def secs_def [symmetric] q [symmetric] dist_def [symmetric] ..
  have in_units: "('' years'', 31449600) \<in> set time_units" "('' months'', 2592000) \<in> set time_units"
    "('' weeks'', 604800) \<in> set time_units" "('' days'', 86400) \<in> set time_units"
    "('' hours'', 3600) \<in> set time_units" "('' minutes'', 60) \<in> set time_units"
    by (simp_all add: time_units_def)
  note u = unit [OF in_units(1) _ q(1)] unit [OF in_units(2) _ q(2)] unit [OF in_units(3) _ q(3)]
    unit [OF in_units(4) _ q(4)] unit [OF in_units(5) _ q(5)] unit [OF in_units(6) _ q(6)]
  consider "y > 1" | "\<not> y > 1" "y = 1" | "\<not> y > 1" "y \<noteq> 1" "m > 1" | "\<not> y > 1" "y \<noteq> 1" "\<not> m > 1" "w > 1"
    | "\<not> y > 1" "y \<noteq> 1" "\<not> m > 1" "\<not> w > 1" "d > 1"
    | "\<not> y > 1" "y \<noteq> 1" "\<not> m > 1" "\<not> w > 1" "\<not> d > 1" "h > 1"
    | "\<not> y > 1" "y \<noteq> 1" "\<not> m > 1" "\<not> w > 1" "\<not> d > 1" "\<not> h > 1" "mi > 1"
    | "\<not> y > 1" "y \<noteq> 1" "\<not> m > 1" "\<not> w > 1" "\<not> d > 1" "\<not> h > 1" "\<not> mi > 1"
    by blast
  then show ?thesis
  proof cases
    case 1
    then have "time_diff_str now t = show_int y @ '' years'' @ dist"
      by (simp only: str if_True if_False)
    with 1 show ?thesis by (intro u(1)) simp_all
  next
    case 3
    then have "time_diff_str now t = show_int m @ '' months'' @ dist"
      by (simp only: str if_True if_False)
    with 3 show ?thesis by (intro u(2)) simp_all
  next
    case 4
    then have "time_diff_str now t = show_int w @ '' weeks'' @ dist"
      by (simp only: str if_True if_False)
    with 4 show ?thesis by (intro u(3)) simp_all
  next
    case 5
    then have "time_diff_str now t = show_int d @ '' days'' @ dist"
      by (simp only: str if_True if_False)
    with 5 show ?thesis by (intro u(4)) simp_all
  next
    case 6
    then have "time_diff_str now t = show_int h @ '' hours'' @ dist"
      by (simp only: str if_True if_False)
    with 6 show ?thesis by (intro u(5)) simp_all
  next
    case 7
    then have "time_diff_str now t = show_int mi @ '' minutes'' @ dist"
      by (simp only: str if_True if_False)
    with 7 show ?thesis by (intro u(6)) simp_all
  next
    case 2
    have "1 * 31449600 \<le> secs \<and> secs < (1 + 1) * 31449600"
      using whole_units [of 31449600 1 secs] 2(2) q(1) by simp
    with 2 show ?thesis by (simp add: str secs_def)
  next
    case 8
    have "secs < (mi + 1) * 60" using whole_units [OF _ q(6)] by simp
    also have "(mi + 1) * 60 \<le> 2 * 60" using 8(7) by (intro mult_right_mono) auto
    finally have "secs < 120" by simp
    with 8 show ?thesis by (simp add: str secs_def)
  qed
qed

end
