(* ===== verification/GitRoutes.thy ===== *)
theory GitRoutes
  imports GitSearch GitContent
begin

text \<open>
  The routes of the git mod: \<open>mods/git/src/Routes/Router.cpp\<close>, \<open>AssetRouter.hpp\<close>, \<open>UserRouter.hpp\<close>,
  \<open>ApiRouter.hpp\<close>, \<open>RepoRouter.hpp\<close>, \<open>TicketRouter.hpp\<close>, and the wrapper of \<open>git http-backend\<close> in
  \<open>Repos/git_http_backend.hpp\<close> with the environment of \<open>util/CGI.hpp\<close>. A handler returns what it does, in
  order: answers, requests to a peer, runs of the CGI program; \<open>NotMine\<close> leaves the request to the next
  router. A view that is empty ends before the terminator of its string, and that is what \<open>[0]\<close> reads.
  The outcome of libraries and programs (libgit2, SQLite, the CGI program, the order in which a map of headers is
  walked) is a record of parameters.

  Shown: how often a request is answered; who sees a repository, and where nobody is asked; what a client's
  headers can set in the environment of the CGI program.
\<close>

section \<open>The CGI program\<close>

definition git_cgi_repo_path :: "git_host \<Rightarrow> string \<Rightarrow> string" where
  "git_cgi_repo_path h path =
     gh_data_dir h @ ''/repos'' @ (case find_str ''.git'' path of None \<Rightarrow> path | Some i \<Rightarrow> take (i + 4) path)"

record CGI =
  cgi_content_length :: string
  cgi_content_type :: string
  cgi_path_info :: string
  cgi_path_translated :: string
  cgi_query_string :: string
  cgi_remote_addr :: string
  cgi_remote_host :: string
  cgi_remote_user :: string
  cgi_request_method :: string
  cgi_script_name :: string
  cgi_server_name :: string
  cgi_server_port :: string
  cgi_server_protocol :: string
  cgi_env :: "string list"
  cgi_args :: "string list"
  cgi_body :: string

definition new_cgi :: "string list \<Rightarrow> CGI" where
  "new_cgi argv = \<lparr>cgi_content_length = [], cgi_content_type = [], cgi_path_info = [], cgi_path_translated = [],
     cgi_query_string = [], cgi_remote_addr = [], cgi_remote_host = [], cgi_remote_user = [], cgi_request_method = [],
     cgi_script_name = hd argv, cgi_server_name = [], cgi_server_port = [], cgi_server_protocol = ''HTTP/1.1'',
     cgi_env = [], cgi_args = argv, cgi_body = []\<rparr>"

definition set_env :: "string \<Rightarrow> string \<Rightarrow> CGI \<Rightarrow> CGI" where
  "set_env v x c = c\<lparr>cgi_env := cgi_env c @ [v @ ''='' @ x]\<rparr>"

definition env_var :: "string \<Rightarrow> string \<Rightarrow> string list" where
  "env_var v x = (if x = [] then [] else [v @ ''='' @ x])"

text \<open>Fields that nothing sets are always empty and left out.\<close>

definition get_env :: "CGI \<Rightarrow> string list" where
  "get_env c = cgi_env c @ [''GATEWAY_INTERFACE=CGI/1.1''] @
     env_var ''CONTENT_LENGTH'' (cgi_content_length c) @ env_var ''CONTENT_TYPE'' (cgi_content_type c) @
     env_var ''PATH_INFO'' (cgi_path_info c) @ env_var ''PATH_TRANSLATED'' (cgi_path_translated c) @
     env_var ''QUERY_STRING'' (cgi_query_string c) @ env_var ''REMOTE_ADDR'' (cgi_remote_addr c) @
     env_var ''REMOTE_HOST'' (cgi_remote_host c) @ env_var ''REMOTE_USER'' (cgi_remote_user c) @
     env_var ''REQUEST_METHOD'' (cgi_request_method c) @ env_var ''SCRIPT_NAME'' (cgi_script_name c) @
     env_var ''SERVER_NAME'' (cgi_server_name c) @ env_var ''SERVER_PORT'' (cgi_server_port c) @
     env_var ''SERVER_PROTOCOL'' (cgi_server_protocol c)"

text \<open>The name of the server is overwritten at the end with the domain as it is, port and all.\<close>

definition get_uri_components :: "git_host \<Rightarrow> string \<Rightarrow> CGI \<Rightarrow> CGI result" where
  "get_uri_components h path c =
     (if length (gh_base_uri h) < 8 then Inl UndefinedBehaviour
      else let https = (gh_base_uri h ! 4 = CHR ''s'');
               port_sep = find_char (gh_domain h) (CHR '':'') 0;
               c1 = c\<lparr>cgi_server_protocol := (if https then ''https'' else ''http''),
                      cgi_server_port := (case port_sep of Some i \<Rightarrow> drop (i + 1) (gh_domain h)
                                            | None \<Rightarrow> if https then ''443'' else ''80'')\<rparr>;
               qs = find_char path (CHR ''?'') 0;
               c2 = (case qs of Some i \<Rightarrow> c1\<lparr>cgi_query_string := drop (i + 1) path\<rparr> | None \<Rightarrow> c1);
               rest = drop (if https then 8 else 7) (gh_base_uri h)
           in case find_char rest SLASH 0 of
                None \<Rightarrow> Inl UndefinedBehaviour
              | Some i \<Rightarrow>
                  (let subpath = drop i rest
                   in Inr (c2\<lparr>cgi_path_info := (if subpath = ''/'' then substr_to path 0 qs else subpath @ path),
                              cgi_server_name := gh_domain h\<rparr>)))"

text \<open>\<open>std::toupper\<close> in the C locale.\<close>

definition to_upper :: "char \<Rightarrow> char" where
  "to_upper c = (if is_lower c then char_of (code c - 32) else c)"

definition header_var :: "string \<Rightarrow> string" where
  "header_var hd_name = ''HTTP_'' @ map (\<lambda>c. if c = CHR ''-'' then CHR ''_'' else to_upper c) hd_name"

fun header_envs :: "(string \<times> string) list \<Rightarrow> CGI \<Rightarrow> CGI" where
  "header_envs [] c = c"
| "header_envs ((n, v) # hs) c =
     header_envs hs (if n = ''content-type'' then c\<lparr>cgi_content_type := v\<rparr> else set_env (header_var n) v c)"

text \<open>
  The output of the program: header lines up to an empty one, then the body. \<open>cgi_headers\<close> works on the text from
  the position on; it returns the response and the text after the headers, \<open>None\<close> when a line has no end.
\<close>

definition CRLF :: string where
  "CRLF = [CR, NL]"

definition cgi_header_line :: "string \<Rightarrow> Response \<Rightarrow> Response" where
  "cgi_header_line line ret =
     (let i = find_char line (CHR '':'') 0;
          header = map to_lower (substr_to line 0 i);
          v = (case i of Some k \<Rightarrow> drop (k + 1) line | None \<Rightarrow> line)
      in if header = ''status''
         then (case strtol10 v of
                 (n, parsed) \<Rightarrow> ret\<lparr>r_status := (if to_int32 n = 0 \<and> \<not> parsed then 500 else to_int32 n)\<rparr>)
         else add_header_line ret line)"

function cgi_headers :: "string \<Rightarrow> Response \<Rightarrow> Response \<times> string option" where
  "cgi_headers s ret =
     (case find_str CRLF s of
        None \<Rightarrow> (if s = [] then (ret, None) else (cgi_header_line s ret, None))
      | Some e \<Rightarrow>
          (if e = 0 then (ret, Some (drop 2 s))
           else let ret1 = cgi_header_line (take e s) ret; rest = drop (e + 2) s
                in if rest = [] \<or> hd rest = NL then (ret1, Some rest) else cgi_headers rest ret1))"
  by pat_completeness auto
termination
  by (relation "measure (\<lambda>(s, r). length s)") (auto dest: find_str_bound)

declare cgi_headers.simps [simp del]

definition parse_cgi_output :: "string \<Rightarrow> Response" where
  "parse_cgi_output s =
     (case cgi_headers s default_response of
        (ret, None) \<Rightarrow> ret
      | (ret, Some body) \<Rightarrow> ret\<lparr>r_body := BodyBuffer (Some body)\<rparr>)"

section \<open>What a handler does\<close>

record git_lib =
  gl_run_cgi :: "string list \<Rightarrow> string list \<Rightarrow> string \<Rightarrow> int \<times> string"
  gl_walk_headers :: "(string \<rightharpoonup> string) \<Rightarrow> (string \<times> string) list"
  gl_run_sql :: sql_run
  gl_dump :: "json \<Rightarrow> string"
  gl_repository :: "string \<Rightarrow> git_repository"
  gl_init_ok :: bool
  gl_inserted :: "int option"
  gl_new_id :: int
  gl_method :: "nat \<Rightarrow> string"

record git_world =
  gw_store :: git_store
  gw_cache :: repo_cache

datatype git_action =
    Answer fiy_response
  | AskPeer fiy_request
  | RunCgi "string list"

datatype git_result =
    NotMine git_world
  | Took git_world "git_action list"
  | Raised cxx_error
  | Stuck

definition head_char :: "string \<Rightarrow> char" where
  "head_char s = (if s = [] then CHR 0x00 else hd s)"

definition answer_text :: "int \<Rightarrow> string \<Rightarrow> string \<Rightarrow> git_action" where
  "answer_text nr headers body = Answer (respond nr headers (body_of_string body))"

definition answer :: "git_world \<Rightarrow> int \<Rightarrow> string \<Rightarrow> string \<Rightarrow> git_result" where
  "answer w nr headers body = Took w [answer_text nr headers body]"

definition cgi_request :: "git_host \<Rightarrow> git_lib \<Rightarrow> string \<Rightarrow> fiy_request \<Rightarrow> CGI result" where
  "cgi_request h lib path req =
     bind_result (get_uri_components h path
       (set_env ''GIT_HTTP_MAX_REQUEST_BUFFER'' ''1000M'' (set_env ''GIT_HTTP_EXPORT_ALL'' ''1''
         ((new_cgi [''git'', ''http-backend''])
            \<lparr>cgi_request_method := gl_method lib (rq_method req), cgi_content_length := show_nat (length (rq_body req)),
             cgi_body := rq_body req\<rparr>)))) (\<lambda>c.
     bind_result (headers_map req) (\<lambda>hs.
       Inr (header_envs (gl_walk_headers lib hs)
         (c\<lparr>cgi_path_translated := gh_data_dir h @ ''/repos'' @ substr_to path 0 (find_char path (CHR ''?'') 0),
           cgi_remote_addr := (case rq_domain req of Some d \<Rightarrow> d | None \<Rightarrow> gh_domain h),
           cgi_remote_host := ''NULL'', cgi_remote_user := user_str req []\<rparr>))))"

definition cgi_reply :: "int \<times> string \<Rightarrow> fiy_response" where
  "cgi_reply res =
     (if fst res \<noteq> 0 then respond 500 ''Git CGI failed'' BodyNone
      else let r = parse_cgi_output (snd res)
           in \<lparr>rs_status = r_status r, rs_headers = r_headers r, rs_body = r_body r\<rparr>)"

definition git_repo_cgi :: "git_host \<Rightarrow> git_lib \<Rightarrow> string \<Rightarrow> fiy_request \<Rightarrow> git_action list result" where
  "git_repo_cgi h lib path req =
     bind_result (cgi_request h lib path req) (\<lambda>c.
       Inr [RunCgi (get_env c), Answer (cgi_reply (gl_run_cgi lib (cgi_args c) (get_env c) (cgi_body c)))])"

section \<open>Assets and user pages\<close>

text \<open>\<open>mm_file_body\<close>: a file that cannot be mapped, missing or empty, throws.\<close>

definition mm_answer :: "git_host \<Rightarrow> git_world \<Rightarrow> string \<Rightarrow> string \<Rightarrow> git_result" where
  "mm_answer h w headers subpath =
     (case gh_files h (static_path h subpath) of [] \<Rightarrow> Raised RuntimeError | c # cs \<Rightarrow> answer w 200 headers (c # cs))"

definition cached_headers :: "string \<Rightarrow> string" where
  "cached_headers t = t @ [NL] @ ''Cache-Control: max-age=604800''"

definition static_asset_router :: "git_host \<Rightarrow> git_world \<Rightarrow> string \<Rightarrow> fiy_request \<Rightarrow> git_result" where
  "static_asset_router h w path req =
     (if path = ''/'' \<or> starts_with path ''/?'' then
        answer w 200 (cached_headers ''Content-Type: text/html; charset=utf-8'')
          (landing_page h (case rq_user req of None \<Rightarrow> ''//'' @ gh_domain h @ ''/portal'' | Some u \<Rightarrow> gh_base_uri h @ ''/'' @ u))
      else if path = ''/main.css'' then mm_answer h w (cached_headers ''Content-Type: text/css'') ''/main.css''
      else if path = ''/logo.svg'' then mm_answer h w (cached_headers ''Content-type: image/svg+xml'') ''/logo.svg''
      else if path = ''/favicon.ico'' then mm_answer h w (cached_headers ''Content-type: image/x-icon'') ''/favicon.ico''
      else if path = ''/fa/fa.css'' then mm_answer h w (cached_headers ''Content-Type: text/css'') ''font-awesome.css''
      else if starts_with path ''/fonts/fontawesome-webfont.'' then
        (let ext = drop 27 path
         in if starts_with ext ''eot''
            then mm_answer h w (cached_headers ''Content-Type: application/vnd.ms-fontobject'') ''fontawesome-webfont.eot''
            else if starts_with ext ''woff2'' then mm_answer h w (cached_headers ''Content-Type: font/woff2'') ''fontawesome-webfont.woff2''
            else if starts_with ext ''woff'' then mm_answer h w (cached_headers ''Content-Type: font/woff'') ''fontawesome-webfont.woff''
            else if starts_with ext ''ttf'' then mm_answer h w (cached_headers ''Content-Type: font/ttf'') ''fontawesome-webfont.ttf''
            else if starts_with ext ''svg'' then mm_answer h w ''Cache-Control: max-age=604800'' ''fontawesome-webfont.svg''
            else NotMine w)
      else NotMine w)"

text \<open>The one component of the path; \<open>None\<close> when there are more.\<close>

definition user_of_path :: "string \<Rightarrow> string option" where
  "user_of_path path =
     (let start = (if head_char path = SLASH then 1 else 0)
      in case find_first_of path ''/?#'' start of
           None \<Rightarrow> Some (drop start path)
         | Some e \<Rightarrow>
             (if path ! e = SLASH
              then (if e = length path - 1 \<or> path ! (e + 1) = CHR ''?'' \<or> path ! (e + 1) = CHR ''#''
                    then Some (substr path start (e - start)) else None)
              else Some (substr path start (e - start))))"

definition user_router :: "git_host \<Rightarrow> git_world \<Rightarrow> string \<Rightarrow> fiy_request \<Rightarrow> git_result" where
  "user_router h w path req =
     (case user_of_path path of
        None \<Rightarrow> NotMine w
      | Some user \<Rightarrow>
          answer w 200 (''Content-Type: text/html; charset=UTF-8'' @ [NL] @ ''Cache-control: max-age=300'')
            (user_page h user (if request_is_local req then rq_user req else None)))"

section \<open>The API\<close>

text \<open>\<open>send_to_peer\<close> prepares a request; the call that would send it is commented out.\<close>

definition send_to_peer :: "git_world \<Rightarrow> fiy_request \<Rightarrow> string \<Rightarrow> git_result" where
  "send_to_peer w req peer_domain = Took w []"

definition ticket_api :: "git_world \<Rightarrow> string \<Rightarrow> fiy_request \<Rightarrow> git_result" where
  "ticket_api w path req = NotMine w"

text \<open>
  A handler that works on an open repository: the pointer is dropped when it returns.
\<close>

definition with_repo ::
  "git_world \<Rightarrow> BasicRepo \<Rightarrow> (git_world \<Rightarrow> LocalRepo \<Rightarrow> git_result) \<Rightarrow> git_result" where
  "with_repo w r f =
     (case get_repo (gs_db (gw_store w)) (gw_cache w) r of
        LockedUp \<Rightarrow> Stuck
      | Done (c, i) \<Rightarrow>
          (let w1 = w\<lparr>gw_cache := release_repo c i\<rparr>
           in case rc_objects c i of
                None \<Rightarrow> NotMine w1
              | Some repo \<Rightarrow> (if valid_repo repo then f w1 repo else NotMine w1)))"

definition info_answer :: "git_host \<Rightarrow> git_lib \<Rightarrow> git_world \<Rightarrow> LocalRepo \<Rightarrow> git_result" where
  "info_answer h lib w repo =
     answer w 200 ''Content-Type: application/json''
       (gl_dump lib (info_to_json (get_info_dto (gh_domain h) (gs_db (gw_store w))
          (gl_repository lib (repo_fs_path (gh_data_dir h) repo)) repo new_info)))"

definition repo_endpoint ::
  "git_host \<Rightarrow> git_world \<Rightarrow> string \<Rightarrow> fiy_request \<Rightarrow> (git_world \<Rightarrow> LocalRepo \<Rightarrow> git_result) \<Rightarrow> git_result" where
  "repo_endpoint h w path req f =
     (case from_path (gh_domain h) empty_repo path of
        Inl e \<Rightarrow> Raised e
      | Inr (r, parsed) \<Rightarrow> (if \<not> repo_is_local r then send_to_peer w req (rp_instance r) else with_repo w r f))"

definition repo_api :: "git_host \<Rightarrow> git_lib \<Rightarrow> git_world \<Rightarrow> string \<Rightarrow> fiy_request \<Rightarrow> git_result" where
  "repo_api h lib w path req =
     (if starts_with path ''/info'' then repo_endpoint h w (drop 5 path) req (info_answer h lib)
      else if starts_with path ''/tree''
      then repo_endpoint h w (drop 5 path) req (\<lambda>w repo. answer w 500 ''Content-type: text/plain'' ''not implemented'')
      else if starts_with path ''/search'' then
        (case search_endpoint (gl_run_sql lib) (gl_dump lib) (gh_domain h) (drop 7 path) req of
           None \<Rightarrow> Stuck
         | Some (Inl e) \<Rightarrow> Raised e
         | Some (Inr res) \<Rightarrow> Took w [Answer res])
      else NotMine w)"

text \<open>The rows whose user is the value that was bound; nothing equals a parameter that was not.\<close>

definition user_likes :: "git_db \<Rightarrow> string option \<Rightarrow> string list" where
  "user_likes db bound = map snd (filter (\<lambda>(u, p). bound = Some u) (tbl_likes db))"

definition likes_json :: "string list \<Rightarrow> string" where
  "likes_json rs =
     (case rs of [] \<Rightarrow> ''[]''
      | r # rest \<Rightarrow> ''['' @ DQ # r @ concat (map (\<lambda>x. DQ # '','' @ DQ # x) rest) @ DQ # '']'')"

definition MAX_LIMIT :: int where
  "MAX_LIMIT = 10000"

text \<open>\<open>/likes\<close>: the page is checked and not used.\<close>

definition likes_answer :: "git_world \<Rightarrow> string \<Rightarrow> (string \<rightharpoonup> string) \<Rightarrow> git_result" where
  "likes_answer w user params =
     (let limit_param = (case params ''limit'' of Some v \<Rightarrow> Some v | None \<Rightarrow> params ''n'');
          limit = (case limit_param of
                     None \<Rightarrow> Some 200
                   | Some v \<Rightarrow>
                       (case from_chars 32 10 v of
                          Inr (Some n) \<Rightarrow> (if n < 0 \<or> n > MAX_LIMIT then None else Some (nat n))
                        | _ \<Rightarrow> None));
          page_ok = (case params ''page'' of
                       None \<Rightarrow> True
                     | Some v \<Rightarrow> (case from_chars 32 10 v of Inr (Some n) \<Rightarrow> n \<ge> 0 | _ \<Rightarrow> False))
      in case limit of
           None \<Rightarrow> answer w 400 ''Content-Type: text/plain'' ''Invalid limit parameter''
         | Some l \<Rightarrow>
             (if \<not> page_ok then answer w 400 ''Content-Type: text/plain'' ''Invalid page parameter''
              else answer w 200 ''Content-type: application/json''
                     (likes_json (take l (user_likes (gs_db (gw_store w)) (Some user))))))"

definition user_api :: "git_host \<Rightarrow> git_world \<Rightarrow> string \<Rightarrow> fiy_request \<Rightarrow> git_result" where
  "user_api h w path req =
     (case find_first_of path ''/?#'' 0 of
        None \<Rightarrow> answer w 404 ''Content-type: text/plain'' ''/api/user/:user endpoint expected user string''
      | Some user_end \<Rightarrow>
          (let u0 = take user_end path;
               u1 = (if u0 \<noteq> [] \<and> hd u0 = CHR ''@'' then tl u0 else u0);
               dom_sep = find_char u1 (CHR ''@'') 0;
               udom = (case dom_sep of None \<Rightarrow> [] | Some i \<Rightarrow> drop (i + 1) u1);
               user = (case dom_sep of None \<Rightarrow> u1 | Some i \<Rightarrow> take i u1);
               rest = drop user_end path
           in if udom \<noteq> [] \<and> udom \<noteq> gh_domain h then send_to_peer w req udom
              else if starts_with rest ''/likes_count'' then
                answer w 200 ''Content-type: application/json'' (show_nat (length (user_likes (gs_db (gw_store w)) None)))
              else if starts_with rest ''/likes'' then
                (case rq_path req of
                   None \<Rightarrow> Raised UndefinedBehaviour
                 | Some full \<Rightarrow>
                     (case query_params full of Inl e \<Rightarrow> Raised e | Inr params \<Rightarrow> likes_answer w user params))
              else NotMine w))"

text \<open>The next router when the first one leaves the request.\<close>

definition or_else :: "git_result \<Rightarrow> (git_world \<Rightarrow> git_result) \<Rightarrow> git_result" where
  "or_else r f = (case r of NotMine w \<Rightarrow> f w | Took w acts \<Rightarrow> Took w acts | Raised e \<Rightarrow> Raised e | Stuck \<Rightarrow> Stuck)"

definition not_found :: "git_world \<Rightarrow> git_result" where
  "not_found w = answer w 404 [] ''Not Found''"

definition api_router :: "git_host \<Rightarrow> git_lib \<Rightarrow> git_world \<Rightarrow> string \<Rightarrow> fiy_request \<Rightarrow> git_result" where
  "api_router h lib w path0 req =
     (if \<not> starts_with path0 ''/api'' then NotMine w
      else let path1 = drop 4 path0; path = (if starts_with path1 ''/v1'' then drop 3 path1 else path1)
           in if path = [] then answer w 400 ''Not Found'' []
              else if starts_with path ''/repo'' then or_else (repo_api h lib w (drop 5 path) req) not_found
              else if starts_with path ''/user/'' then or_else (user_api h w (drop 6 path) req) not_found
              else if starts_with path ''/ticket/'' then or_else (ticket_api w (drop 8 path) req) not_found
              else not_found w)"

section \<open>Repositories\<close>

definition git_unauthenticated :: "git_host \<Rightarrow> git_world \<Rightarrow> fiy_request \<Rightarrow> git_result" where
  "git_unauthenticated h w req =
     (if rq_user req = None
      then (case host_base_uri h of
              Inl e \<Rightarrow> Raised e
            | Inr b \<Rightarrow> Took w [Answer \<lparr>rs_status = 303, rs_headers = Some (''Location: '' @ b @ ''/portal/login''), rs_body = BodyNone\<rparr>])
      else answer w 401 [] [])"

definition repo_create_get :: "git_host \<Rightarrow> git_world \<Rightarrow> fiy_request \<Rightarrow> git_result" where
  "repo_create_get h w req =
     (case rq_user req of
        None \<Rightarrow> git_unauthenticated h w req
      | Some u \<Rightarrow>
          (if rq_domain req \<noteq> None then answer w 401 [] []
           else answer w 200 ''Content-Type: text/html; charset=utf-8'' (repo_create_page h u [])))"

record create_form =
  cf_repo :: BasicRepo
  cf_description :: string
  cf_visibility :: int

definition rfind_char :: "string \<Rightarrow> char \<Rightarrow> nat option" where
  "rfind_char s c = map_option (\<lambda>i. length s - 1 - i) (find_char (rev s) c 0)"

definition form_owner :: "string \<Rightarrow> string \<Rightarrow> BasicRepo \<Rightarrow> BasicRepo" where
  "form_owner host_domain v0 r =
     (let v = dropWhile (\<lambda>c. c = CHR ''@'') v0
      in case rfind_char v (CHR ''@'') of
           None \<Rightarrow> r\<lparr>rp_owner := v\<rparr>
         | Some i \<Rightarrow>
             r\<lparr>rp_owner := take i v, rp_instance := (if drop (i + 1) v = host_domain then [] else drop (i + 1) v)\<rparr>)"

definition form_field_step :: "string \<Rightarrow> create_form \<Rightarrow> string \<times> string \<Rightarrow> create_form" where
  "form_field_step host_domain f kv =
     (if fst kv = ''repo-owner'' then f\<lparr>cf_repo := form_owner host_domain (snd kv) (cf_repo f)\<rparr>
      else if fst kv = ''repo-name'' then f\<lparr>cf_repo := (cf_repo f)\<lparr>rp_name := snd kv\<rparr>\<rparr>
      else if fst kv = ''repo-description'' then f\<lparr>cf_description := snd kv\<rparr>
      else if fst kv = ''repo-visibility'' then f\<lparr>cf_visibility := atoi (snd kv)\<rparr>
      else f)"

definition read_create_form :: "string \<Rightarrow> (string \<times> string) list \<Rightarrow> create_form" where
  "read_create_form host_domain form =
     foldl (form_field_step host_domain) \<lparr>cf_repo = empty_repo, cf_description = [], cf_visibility = locality_int L_INSTANCE\<rparr> form"

definition refresh_page :: "git_host \<Rightarrow> BasicRepo \<Rightarrow> string" where
  "refresh_page h r =
     ''<meta'' @ attr ''http-equiv'' ''refresh'' @ attr ''content'' (''0; url='' @ gh_base_uri h @ ''/'' @ repo_path r) @ '' />''"

definition error_links :: "git_host \<Rightarrow> fiy_request \<Rightarrow> (string \<times> string) list" where
  "error_links h req = [(gh_base_uri h @ user_str req [], ''Profile''), (gh_base_uri h @ ''/repo/new'', ''Create Repo'')]"

text \<open>What is done with the peer's answer, when it comes.\<close>

definition create_peer_reply :: "git_host \<Rightarrow> fiy_request \<Rightarrow> BasicRepo \<Rightarrow> fiy_response option \<Rightarrow> git_action" where
  "create_peer_reply h req r res =
     (case res of
        None \<Rightarrow>
          answer_text 500 ''Content-Type: text/html''
            (error_page h ''Peer Request Failed''
              (''Failed to create repo '' @ repo_path r @ '' due to an unknown communication error with peer '' @ rp_instance r @
               ''. You can safely try again. If '' @ rp_instance r @
               '' is not down and has not disabled federation You may want to reach out to your instance'' @ CHR 0x27 #
               ''s administrator or the peer'' @ CHR 0x27 # ''s administrator in order to figure out what'' @ CHR 0x27 # ''s wrong.'')
              (error_links h req))
      | Some rs \<Rightarrow>
          (if rs_status rs = 200 then answer_text 200 ''Content-Type: text/html; charset=utf-8'' (refresh_page h r) else Answer rs))"

definition create_failure :: "git_host \<Rightarrow> fiy_request \<Rightarrow> BasicRepo \<Rightarrow> string \<Rightarrow> git_action" where
  "create_failure h req r err =
     answer_text (if head_char err = CHR ''4'' then 400 else 500) ''Content-type: text/html; charset=utf-8''
       (error_page h (''Failed to Create '' @ repo_path r)
         (''Repo creation failed with the following message: '' @ err @ ''. <br>'' @
          (if head_char err = CHR ''4''
           then ''You may want to try again with different options or make sure you have the necessary permissions.''
           else ''You may want to contact your instance administrator if errors persist.''))
         (error_links h req))"

definition create_locally :: "git_host \<Rightarrow> git_lib \<Rightarrow> git_world \<Rightarrow> fiy_request \<Rightarrow> create_form \<Rightarrow> git_result" where
  "create_locally h lib w req f =
     (if Some (rp_owner (cf_repo f)) \<noteq> rq_user req then answer w 401 [] []
      else case create_repo (gh_data_dir h) (gh_now h) (gl_init_ok lib) (gl_inserted lib) (gl_new_id lib) (gw_store w)
                  (cf_repo f) (cf_description f) (cf_visibility f) of
             (st, Created) \<Rightarrow>
               answer (w\<lparr>gw_store := st\<rparr>) 200 ''Content-Type: text/html; charset=utf-8'' (refresh_page h (cf_repo f))
           | (st, CreateError err) \<Rightarrow> Took (w\<lparr>gw_store := st\<rparr>) [create_failure h req (cf_repo f) err]
           | (st, CreateThrew e) \<Rightarrow> Raised e)"

text \<open>After a request to the peer of another instance the handler goes on.\<close>

definition repo_create_post :: "git_host \<Rightarrow> git_lib \<Rightarrow> git_world \<Rightarrow> fiy_request \<Rightarrow> git_result" where
  "repo_create_post h lib w req =
     (if rq_user req = None then git_unauthenticated h w req
      else if rq_domain req \<noteq> None then answer w 401 [] []
      else case parse_form_url_encoded (rq_body req) of
             None \<Rightarrow> answer w 400 [] ''Invalid Form Body''
           | Some form \<Rightarrow>
               (let f = read_create_form (gh_domain h) form;
                    asked = (if rp_instance (cf_repo f) \<noteq> []
                             then [AskPeer (req\<lparr>rq_domain := Some (rp_instance (cf_repo f))\<rparr>)] else [])
                in case create_locally h lib w req f of
                     Took w1 acts \<Rightarrow> Took w1 (asked @ acts)
                   | r \<Rightarrow> r))"

definition ticket_router :: "git_world \<Rightarrow> string \<Rightarrow> fiy_request \<Rightarrow> BasicRepo \<Rightarrow> git_result" where
  "ticket_router w path req r = NotMine w"

text \<open>What follows owner and name; the path has a slash after the owner.\<close>

definition repo_subpath :: "string \<Rightarrow> string result" where
  "repo_subpath path =
     (let s1 = dropWhile (\<lambda>c. c = SLASH) path
      in case find_char s1 SLASH 0 of
           None \<Rightarrow> Inl UndefinedBehaviour
         | Some i \<Rightarrow>
             (let s2 = drop i s1;
                  e = (case find_char s2 SLASH 1 of Some k \<Rightarrow> Some k | None \<Rightarrow> find_first_of s2 ''?#'' 0);
                  s3 = (case e of Some k \<Rightarrow> drop k s2 | None \<Rightarrow> [])
              in Inr (dropWhile (\<lambda>c. c = SLASH) s3)))"

definition commit_id_ok :: "string \<Rightarrow> bool" where
  "commit_id_ok i \<longleftrightarrow> length i \<le> 100 \<and> list_all (\<lambda>c. (97 \<le> code c \<and> code c \<le> 102) \<or> is_digit c) i"

definition local_repo_page :: "git_host \<Rightarrow> git_lib \<Rightarrow> fiy_request \<Rightarrow> git_world \<Rightarrow> LocalRepo \<Rightarrow> git_result" where
  "local_repo_page h lib req w repo =
     (let g = gl_repository lib (repo_fs_path (gh_data_dir h) repo);
          d = get_repo_page_data (gh_domain h) (gs_db (gw_store w)) g repo (default_branch g) new_page_data
      in case repo_page h d (if rq_domain req = None then rq_user req else None) of
           Inl e \<Rightarrow> Raised e
         | Inr body \<Rightarrow> answer w 200 ''Content-Type: text/html'' body)"

definition local_repo_router ::
  "git_host \<Rightarrow> git_lib \<Rightarrow> string \<Rightarrow> string \<Rightarrow> string \<Rightarrow> fiy_request \<Rightarrow> BasicRepo \<Rightarrow> git_world \<Rightarrow> LocalRepo \<Rightarrow> git_result" where
  "local_repo_router h lib full path subpath req r w repo =
     (let may = (\<lambda>a. can_access_repo (gs_db (gw_store w)) repo a (rq_user req) (rq_domain req))
      in if head_char subpath \<in> {CHR 0x00, CHR ''?'', CHR ''#''} then
           (if \<not> may Read then git_unauthenticated h w req else local_repo_page h lib req w repo)
         else if starts_with subpath ''commit/'' then
           (if commit_id_ok (takeWhile (\<lambda>c. c \<notin> set ''/?#'') (drop 7 subpath)) then NotMine w
            else answer w 400 [] ''Invalid commit id'')
         else if starts_with subpath ''tickets'' then ticket_router w path req r
         else if \<not> may (if find_str ''git-receive-pack'' full = None then Read else Write) then
           (if starts_with (find_header req ''User-Agent'') ''git/''
            then answer w 401 (''WWW-Authenticate: Basic charset='' @ DQ # ''UTF-8'' @ [DQ]) []
            else git_unauthenticated h w req)
         else case git_repo_cgi h lib full req of Inl e \<Rightarrow> Raised e | Inr acts \<Rightarrow> Took w acts)"

definition repo_router :: "git_host \<Rightarrow> git_lib \<Rightarrow> string \<Rightarrow> git_world \<Rightarrow> string \<Rightarrow> fiy_request \<Rightarrow> git_result" where
  "repo_router h lib full w path req =
     (if path = [] then NotMine w
      else if starts_with path ''/repo'' then
        (if locality_int (locality req (gh_domain h)) > locality_int L_INSTANCE then git_unauthenticated h w req
         else if starts_with (drop 5 path) ''/new'' then
           (if rq_method req = verb_get then repo_create_get h w req
            else if rq_method req = verb_post then repo_create_post h lib w req
            else NotMine w)
         else NotMine w)
      else case from_path (gh_domain h) empty_repo path of
             Inl e \<Rightarrow> Raised e
           | Inr (r, False) \<Rightarrow> NotMine w
           | Inr (r, True) \<Rightarrow>
               (case repo_subpath path of
                  Inl e \<Rightarrow> Raised e
                | Inr subpath \<Rightarrow>
                    (if \<not> repo_is_local r then Took w [AskPeer (req\<lparr>rq_domain := Some (rp_instance r)\<rparr>)]
                     else with_repo w r (local_repo_router h lib full path subpath req r))))"

section \<open>The handler\<close>

definition git_handle_request :: "git_host \<Rightarrow> git_lib \<Rightarrow> git_world \<Rightarrow> fiy_request \<Rightarrow> git_result" where
  "git_handle_request h lib w req =
     (case rq_path req of
        None \<Rightarrow> Raised UndefinedBehaviour
      | Some path \<Rightarrow>
          or_else (or_else (or_else (or_else
            (static_asset_router h w path req)
            (\<lambda>w. user_router h w path req))
            (\<lambda>w. api_router h lib w path req))
            (\<lambda>w. repo_router h lib path w path req))
            (\<lambda>w. answer w 404 [] ''Not Found''))"

section \<open>How often a request is answered\<close>

fun is_reply :: "git_action \<Rightarrow> bool" where
  "is_reply (Answer rs) = True"
| "is_reply (AskPeer rq) = True"
| "is_reply (RunCgi env) = False"

definition one_reply :: "git_result \<Rightarrow> bool" where
  "one_reply r = (case r of Took w acts \<Rightarrow> length (filter is_reply acts) = 1 | _ \<Rightarrow> True)"

lemma one_reply_simps [simp]:
  "one_reply (NotMine w)" "one_reply (Raised e)" "one_reply Stuck"
  "one_reply (Took w acts) \<longleftrightarrow> length (filter is_reply acts) = 1"
  by (simp_all add: one_reply_def)

lemma one_reply_answer [simp]: "one_reply (answer w nr hs body)"
  by (simp add: answer_def answer_text_def)

lemma one_reply_not_found [simp]: "one_reply (not_found w)"
  by (simp add: not_found_def)

lemma one_reply_or_else: "one_reply r \<Longrightarrow> (\<And>w. r = NotMine w \<Longrightarrow> one_reply (f w)) \<Longrightarrow> one_reply (or_else r f)"
  by (cases r) (auto simp: or_else_def)

lemma one_reply_mm [simp]: "one_reply (mm_answer h w hs p)"
  by (simp add: mm_answer_def split: list.split)

lemma one_reply_static [simp]: "one_reply (static_asset_router h w path req)"
  by (simp add: static_asset_router_def Let_def)

lemma one_reply_user [simp]: "one_reply (user_router h w path req)"
  by (simp add: user_router_def split: option.split)

lemma one_reply_unauthenticated [simp]: "one_reply (git_unauthenticated h w req)"
  by (auto simp: git_unauthenticated_def split: sum.split)

lemma one_reply_with_repo: "(\<And>w repo. one_reply (f w repo)) \<Longrightarrow> one_reply (with_repo w r f)"
  by (auto simp: with_repo_def Let_def split: locking.split prod.split option.split)

lemma cgi_acts:
  assumes "git_repo_cgi h lib path req = Inr acts"
  shows "\<exists>env rs. acts = [RunCgi env, Answer rs]"
  using assms
  by (auto simp: git_repo_cgi_def bind_result_Inr_iff)

lemma one_reply_local [simp]: "one_reply (local_repo_router h lib full path subpath req r w repo)"
  by (auto simp: local_repo_router_def Let_def local_repo_page_def ticket_router_def dest: cgi_acts split: sum.split)

lemma one_reply_create_locally: "one_reply (create_locally h lib w req f)"
  by (auto simp: create_locally_def create_failure_def answer_text_def split: prod.split create_outcome.split)

text \<open>The API leaves a request without an answer only for what belongs to another instance.\<close>

definition no_reply :: "git_result \<Rightarrow> bool" where
  "no_reply r = (\<exists>w. r = Took w [])"

lemma api_replies: "one_reply (api_router h lib w path req) \<or> no_reply (api_router h lib w path req) \<and> starts_with path ''/api''"
proof -
  have ep: "one_reply (repo_endpoint h w p req f) \<or> no_reply (repo_endpoint h w p req f)"
    if "\<And>w repo. one_reply (f w repo)" for p f
    using one_reply_with_repo [of f w, OF that]
    by (auto simp: repo_endpoint_def send_to_peer_def no_reply_def split: sum.split prod.split)
  have "one_reply (info_answer h lib w repo)" for w repo by (simp add: info_answer_def)
  then have r: "one_reply (repo_api h lib w p req) \<or> no_reply (repo_api h lib w p req)" for p
    using ep by (auto simp: repo_api_def split: option.split sum.split)
  have l: "one_reply (likes_answer w u ps)" for u ps
    by (auto simp: likes_answer_def Let_def split: option.split sum.split)
  have u: "one_reply (user_api h w p req) \<or> no_reply (user_api h w p req)" for p
    using l by (auto simp: user_api_def Let_def send_to_peer_def no_reply_def split: option.split sum.split)
  have oe: "one_reply (or_else x not_found) \<or> no_reply (or_else x not_found)" if "one_reply x \<or> no_reply x" for x
    using that by (cases x) (auto simp: or_else_def no_reply_def)
  show ?thesis
    using oe [OF r] oe [OF u] by (auto simp: api_router_def Let_def ticket_api_def or_else_def)
qed

lemma or_else_keeps: "(\<And>w. r \<noteq> NotMine w) \<Longrightarrow> or_else r f = r"
  by (cases r) (auto simp: or_else_def)


section \<open>The environment of the CGI program\<close>

lemma header_envs_env:
  "cgi_env (header_envs hs c) = cgi_env c @ map (\<lambda>(n, v). header_var n @ ''='' @ v) (filter (\<lambda>(n, v). n \<noteq> ''content-type'') hs)"
  by (induction hs c rule: header_envs.induct) (simp_all add: set_env_def)

lemma header_envs_keeps:
  "cgi_remote_user (header_envs hs c) = cgi_remote_user c" "cgi_path_info (header_envs hs c) = cgi_path_info c"
  "cgi_request_method (header_envs hs c) = cgi_request_method c"
  by (induction hs c rule: header_envs.induct) (simp_all add: set_env_def)

lemma uri_components_keep:
  assumes "get_uri_components h path c = Inr c'"
  shows "cgi_env c' = cgi_env c" "cgi_request_method c' = cgi_request_method c"
  using assms by (auto simp: get_uri_components_def Let_def split: if_splits option.splits)

text \<open>Whose name the program is given.\<close>

lemma cgi_request_facts:
  assumes "cgi_request h lib path req = Inr c"
  shows "cgi_remote_user c = user_str req [] \<and>
    (\<exists>hs. cgi_env c = [''GIT_HTTP_EXPORT_ALL=1'', ''GIT_HTTP_MAX_REQUEST_BUFFER=1000M''] @
       map (\<lambda>(n, v). header_var n @ ''='' @ v) hs)"
proof -
  from assms obtain c0 hs where c0: "get_uri_components h path
      (set_env ''GIT_HTTP_MAX_REQUEST_BUFFER'' ''1000M'' (set_env ''GIT_HTTP_EXPORT_ALL'' ''1''
         ((new_cgi [''git'', ''http-backend''])
            \<lparr>cgi_request_method := gl_method lib (rq_method req), cgi_content_length := show_nat (length (rq_body req)),
             cgi_body := rq_body req\<rparr>))) = Inr c0"
    and c: "c = header_envs (gl_walk_headers lib hs)
         (c0\<lparr>cgi_path_translated := gh_data_dir h @ ''/repos'' @ substr_to path 0 (find_char path (CHR ''?'') 0),
           cgi_remote_addr := (case rq_domain req of Some d \<Rightarrow> d | None \<Rightarrow> gh_domain h),
           cgi_remote_host := ''NULL'', cgi_remote_user := user_str req []\<rparr>)"
    by (auto simp: cgi_request_def bind_result_Inr_iff)
  have "cgi_env c0 = [''GIT_HTTP_EXPORT_ALL=1'', ''GIT_HTTP_MAX_REQUEST_BUFFER=1000M'']"
    using uri_components_keep(1) [OF c0] by (simp add: set_env_def new_cgi_def)
  then show ?thesis by (auto simp: c header_envs_env header_envs_keeps)
qed

text \<open>
  C27. Nothing that a client writes into its headers names the user of the CGI program: the program has a user
  exactly when the server has authenticated one, and it is that one.
\<close>

theorem cgi_user_authentic:
  assumes "git_repo_cgi h lib path req = Inr acts" "RunCgi env \<in> set acts"
    and "e \<in> set env" "starts_with e ''REMOTE_USER''"
  shows "e = ''REMOTE_USER='' @ user_str req [] \<and> rq_user req \<noteq> None"
proof -
  from assms(1,2) obtain c where c: "cgi_request h lib path req = Inr c" "env = get_env c"
    by (auto simp: git_repo_cgi_def bind_result_Inr_iff)
  from cgi_request_facts [OF c(1)] obtain hs where u: "cgi_remote_user c = user_str req []"
    and ce: "cgi_env c = [''GIT_HTTP_EXPORT_ALL=1'', ''GIT_HTTP_MAX_REQUEST_BUFFER=1000M''] @
       map (\<lambda>(n, v). header_var n @ ''='' @ v) hs" by blast
  have "e \<notin> set (cgi_env c)" using assms(4) by (auto simp: ce starts_with_def header_var_def)
  moreover have no: "e \<notin> set (env_var v x)" if "take 11 v \<noteq> take (min 11 (length v)) ''REMOTE_USER''" for v x
  proof
    assume "e \<in> set (env_var v x)"
    then have e: "e = v @ ''='' @ x" by (simp add: env_var_def split: if_splits)
    have "take 11 e = ''REMOTE_USER''" using assms(4) by (simp add: starts_with_def numeral_eq_Suc)
    then have "take (min 11 (length v)) (take 11 e) = take (min 11 (length v)) ''REMOTE_USER''" by simp
    moreover have "take (min 11 (length v)) (take 11 e) = take 11 v" by (simp add: e min_def)
    ultimately show False using that by simp
  qed
  moreover have "e \<noteq> ''GATEWAY_INTERFACE=CGI/1.1''" using assms(4) by (auto simp: starts_with_def)
  ultimately have e: "e \<in> set (env_var ''REMOTE_USER'' (cgi_remote_user c))"
    using assms(3) unfolding c(2) get_env_def set_append Un_iff by (simp add: no)
  then have "user_str req [] \<noteq> []" "e = ''REMOTE_USER='' @ user_str req []"
    by (auto simp: env_var_def u split: if_splits)
  moreover from this(1) have "rq_user req \<noteq> None" by (auto simp: user_str_def split: option.splits)
  ultimately show ?thesis by blast
qed

lemma find_CRLF: "CR \<notin> set l \<Longrightarrow> find_str CRLF (l @ CRLF @ t) = Some (length l)"
proof (induction l)
  case Nil
  then show ?case by (simp add: CRLF_def starts_with_def)
next
  case (Cons a l)
  then have "\<not> starts_with ((a # l) @ CRLF @ t) CRLF" by (auto simp: starts_with_def CRLF_def)
  with Cons show ?case by simp
qed

lemma cgi_headers_lines:
  assumes "list_all (\<lambda>l. l \<noteq> [] \<and> CR \<notin> set l \<and> hd l \<noteq> NL) ls"
  shows "cgi_headers (concat (map (\<lambda>l. l @ CRLF) ls) @ CRLF @ body) ret = (foldl (\<lambda>r l. cgi_header_line l r) ret ls, Some body)"
  using assms
proof (induction ls arbitrary: ret)
  case Nil
  have "find_str CRLF (CRLF @ body) = Some 0" using find_CRLF [of "[]" body] by simp
  then show ?case by (subst cgi_headers.simps) (simp add: CRLF_def)
next
  case (Cons l ls)
  let ?t = "concat (map (\<lambda>l. l @ CRLF) ls) @ CRLF @ body"
  have f: "find_str CRLF (l @ CRLF @ ?t) = Some (length l)" using Cons.prems by (intro find_CRLF) simp
  have d: "drop (length l + 2) (l @ CRLF @ ?t) = ?t" by (simp add: CRLF_def)
  have "CR \<noteq> NL" by (simp add: CR_def NL_def)
  then have t: "?t \<noteq> [] \<and> hd ?t \<noteq> NL"
    using Cons.prems by (cases ls) (auto simp: CRLF_def)
  have "cgi_headers (l @ CRLF @ ?t) ret = cgi_headers ?t (cgi_header_line l ret)"
  proof -
    have "take (length l) (l @ CRLF @ ?t) = l" "length l \<noteq> 0" using Cons.prems by simp_all
    with t show ?thesis
      unfolding cgi_headers.simps [of "l @ CRLF @ ?t"] f option.case d Let_def by (simp only: if_False simp_thms)
  qed
  then show ?case using Cons by (simp del: append_Cons)
qed

text \<open>
  What the program writes, header lines, an empty line and a body, is read as it was written: every line
  becomes the status or a header, and the body is what follows.
\<close>

theorem cgi_output_roundtrip:
  assumes "list_all (\<lambda>l. l \<noteq> [] \<and> CR \<notin> set l \<and> hd l \<noteq> NL) lines"
  shows "parse_cgi_output (concat (map (\<lambda>l. l @ CRLF) lines) @ CRLF @ body) =
    (foldl (\<lambda>r l. cgi_header_line l r) default_response lines)\<lparr>r_body := BodyBuffer (Some body)\<rparr>"
  by (simp add: parse_cgi_output_def cgi_headers_lines [OF assms])

section \<open>Who sees a repository\<close>

definition asked_level :: "string \<Rightarrow> Access" where
  "asked_level full = (if find_str ''git-receive-pack'' full = None then Read else Write)"

text \<open>The answers that show nothing: they send the client away.\<close>

fun shows_repo :: "git_action \<Rightarrow> bool" where
  "shows_repo (Answer rs) = (rs_status rs \<notin> {303, 400, 401, 404})"
| "shows_repo (AskPeer rq) = False"
| "shows_repo (RunCgi env) = True"

lemma local_repo_shown:
  assumes "local_repo_router h lib full path subpath req r w repo = Took w' acts" "a \<in> set acts" "shows_repo a"
  shows "can_access_repo (gs_db (gw_store w)) repo (asked_level full) (rq_user req) (rq_domain req) \<or>
    can_access_repo (gs_db (gw_store w)) repo Read (rq_user req) (rq_domain req) \<and> (\<exists>rs. acts = [Answer rs])"
  using assms
  by (auto simp: local_repo_router_def local_repo_page_def git_unauthenticated_def Let_def asked_level_def answer_def answer_text_def
    respond_def ticket_router_def split: if_splits sum.splits)

lemma with_repo_took:
  assumes "with_repo w r f = Took w' acts" "cache_inv (gw_cache w)"
  shows "\<exists>w1 repo. f w1 repo = Took w' acts \<and> gw_store w1 = gw_store w \<and> repo_path repo = repo_path r"
proof -
  from assms(1) obtain c i repo where g: "get_repo (gs_db (gw_store w)) (gw_cache w) r = Done (c, i)"
    and o': "rc_objects c i = Some repo" and f: "f (w\<lparr>gw_cache := release_repo c i\<rparr>) repo = Took w' acts"
    by (auto simp: with_repo_def Let_def split: locking.splits option.splits if_splits)
  have "repo_path repo = repo_path r"
  proof (cases "rc_cache (gw_cache w) (repo_path r)")
    case None
    then show ?thesis using g o' by (auto simp: get_repo_def add_repo_object_def Let_def)
  next
    case (Some j)
    then obtain q where q: "rc_objects (gw_cache w) j = Some q" "repo_path q = repo_path r"
      using assms(2) cache_inv_hit by blast
    moreover have "rc_objects s1 = rc_objects s" if "cache_lru_push s i' = Done s1" for s i' s1
      using that by (auto simp: cache_lru_push_def split: if_splits)
    ultimately show ?thesis using g o' Some by (fastforce simp: get_repo_def split: locking.splits)
  qed
  with f show ?thesis by (intro exI [of _ "w\<lparr>gw_cache := release_repo c i\<rparr>"] exI [of _ repo]) simp
qed


text \<open>
  The API answers what it knows of any local repository, however private, to whoever asks: nobody looks at the
  user of the request.
\<close>

theorem api_info_unchecked:
  assumes "rq_path req = Some (''/api/repo/info/'' @ rest)"
    and "from_path (gh_domain h) empty_repo (''/'' @ rest) = Inr (r, parsed)" "repo_is_local r"
    and "get_repo (gs_db (gw_store w)) (gw_cache w) r = Done (c, i)" "rc_objects c i = Some repo" "valid_repo repo"
  shows "git_handle_request h lib w req = info_answer h lib (w\<lparr>gw_cache := release_repo c i\<rparr>) repo"
proof -
  let ?p = "''/api/repo/info/'' @ rest"
  have "find_first_of ?p ''/?#'' 1 = Some 4" by (simp add: find_first_of_def numeral_eq_Suc)
  then have u: "user_of_path ?p = None" by (simp add: user_of_path_def head_char_def Let_def numeral_eq_Suc)
  have s: "static_asset_router h w ?p req = NotMine w"
    by (simp add: static_asset_router_def starts_with_def Let_def)
  have d: "drop 5 (''/info/'' @ rest) = ''/'' @ rest" "drop 5 (''/repo/info/'' @ rest) = ''/info/'' @ rest"
    "drop 4 ?p = ''/repo/info/'' @ rest" by simp_all
  have e: "repo_endpoint h w (''/'' @ rest) req (info_answer h lib) = info_answer h lib (w\<lparr>gw_cache := release_repo c i\<rparr>) repo"
    using assms by (simp add: repo_endpoint_def with_repo_def Let_def)
  have "api_router h lib w ?p req = or_else (repo_api h lib w (''/info/'' @ rest) req) not_found"
    by (simp add: api_router_def Let_def starts_with_def)
  also have "repo_api h lib w (''/info/'' @ rest) req = info_answer h lib (w\<lparr>gw_cache := release_repo c i\<rparr>) repo"
    using d(1) e by (simp add: repo_api_def starts_with_def)
  finally show ?thesis
    using assms(1) s u by (simp add: git_handle_request_def user_router_def or_else_def info_answer_def answer_def)
qed

text \<open>
  A repository of another instance cannot be made through the form: the peer is asked, but the handler then
  answers with an error of its own, before the peer does.
\<close>

theorem create_remote_refused:
  assumes "rq_user req = Some u" "rq_domain req = None" "parse_form_url_encoded (rq_body req) = Some form"
    and "rp_instance (cf_repo (read_create_form (gh_domain h) form)) = peer" "peer \<noteq> []"
  shows "\<exists>rs. repo_create_post h lib w req = Took w [AskPeer (req\<lparr>rq_domain := Some peer\<rparr>), Answer rs] \<and>
    rs_status rs = (if rp_owner (cf_repo (read_create_form (gh_domain h) form)) = u then 400 else 401)"
  using assms
  by (auto simp: repo_create_post_def create_locally_def create_repo_def create_failure_def answer_text_def answer_def
    respond_def head_char_def Let_def)

text \<open>
  Users whose names begin with \<open>api\<close> have no repositories that can be reached under their name.
\<close>

theorem api_owner_unreachable:
  assumes "rq_path req = Some (''/api'' @ s @ ''/'' @ name)" "s \<noteq> []" "set s \<inter> set ''/?#'' = {}"
    and "name \<noteq> []" "hd name \<notin> set ''?#''"
  shows "git_handle_request h lib w req = answer w 404 [] ''Not Found''"
proof -
  let ?p = "''/api'' @ s @ ''/'' @ name"
  have "takeWhile (\<lambda>x. x \<notin> set ''/?#'') (s @ ''/'' @ name) = s" using assms(3) by (induction s) auto
  then have find_p: "find_first_of ?p ''/?#'' 1 = Some (4 + length s)"
    by (simp add: find_first_of_def Let_def)
  obtain x xs where name: "name = x # xs" using assms(4) by (cases name) auto
  have at1: "?p ! (4 + length s) = SLASH" and at2: "?p ! (4 + length s + 1) = x" and len: "length ?p = 6 + length s + length xs"
    by (simp_all add: name nth_append numeral_eq_Suc)
  have "user_of_path ?p = None"
  proof -
    have "head_char ?p = SLASH" by (simp add: head_char_def)
    then have "user_of_path ?p = (if 4 + length s = length ?p - 1 \<or> x = CHR ''?'' \<or> x = CHR ''#''
        then Some (substr ?p 1 (4 + length s - 1)) else None)"
      by (simp only: user_of_path_def Let_def if_True find_p option.case at1 at2 refl)
    then show ?thesis using assms(5) by (simp only: len) (simp add: name)
  qed
  moreover have "static_asset_router h w ?p req = NotMine w"
    using assms(2) by (simp add: static_asset_router_def starts_with_def Let_def)
  moreover have "\<not> starts_with (s @ t) (CHR ''/'' # q)" for t q
    using assms(2,3) by (cases s) (auto simp: starts_with_def)
  then have "api_router h lib w ?p req = answer w 404 [] ''Not Found''"
    by (simp add: api_router_def Let_def starts_with_def [of "_ # _"] not_found_def assms(2))
  ultimately show ?thesis
    using assms(1) by (simp add: git_handle_request_def user_router_def or_else_def answer_def)
qed

section \<open>Concrete requests\<close>

definition demo_git_host :: git_host where
  "demo_git_host = \<lparr>gh_domain = ''a.b'', gh_base_uri = ''https://a.b/git'', gh_data_dir = ''/d'', gh_now = 5, gh_files = (\<lambda>p. [])\<rparr>"

definition demo_git_repository :: git_repository where
  "demo_git_repository = \<lparr>gr_head = None, gr_branches = None, gr_tags = None, gr_commits = Map.empty, gr_walk = (\<lambda>i. []),
     gr_deltas = (\<lambda>p i path. 0), gr_mailmap = None\<rparr>"

definition demo_git_lib :: git_lib where
  "demo_git_lib = \<lparr>gl_run_cgi = (\<lambda>args env body. (0, ''Status: 403'' @ CRLF @ CRLF)), gl_walk_headers = (\<lambda>m. []),
     gl_run_sql = (\<lambda>q vs. None), gl_dump = (\<lambda>j. ''{}''), gl_repository = (\<lambda>p. demo_git_repository), gl_init_ok = True,
     gl_inserted = Some 1, gl_new_id = 2, gl_method = (\<lambda>m. ''GET'')\<rparr>"

definition demo_git_world :: git_world where
  "demo_git_world = \<lparr>gw_store = demo_store, gw_cache = new_repo_cache 30\<rparr>"

definition demo_git_request :: "string option \<Rightarrow> string \<Rightarrow> string \<Rightarrow> fiy_request" where
  "demo_git_request user path body = \<lparr>rq_domain = None, rq_user = user, rq_method = 2, rq_path = Some path, rq_headers = None,
     rq_body = body, rq_has_callback = True\<rparr>"


theorem api_info_unchecked_witness:
  "\<not> can_access_repo demo_db (load_local_repo demo_db demo_repo) Read None None \<and>
   (\<exists>w. git_handle_request demo_git_host demo_git_lib demo_git_world (demo_git_request None ''/api/repo/info/ann/code'' []) =
     info_answer demo_git_host demo_git_lib w (load_local_repo demo_db demo_repo))"
proof -
  let ?c = "new_repo_cache 30\<lparr>rc_objects := [0 \<mapsto> load_local_repo demo_db demo_repo], rc_held := [0], rc_next := 1,
      rc_cache := [repo_path demo_repo \<mapsto> 0]\<rparr>"
  have p: "from_path ''a.b'' empty_repo ''/ann/code'' = Inr (demo_repo, True)" by code_simp
  have "get_repo demo_db (new_repo_cache 30) demo_repo = Done (?c, 0)"
    by (simp add: get_repo_def new_repo_cache_def add_repo_object_def Let_def)
  moreover have "valid_repo (load_local_repo demo_db demo_repo)" "repo_is_local demo_repo" by code_simp+
  ultimately have "git_handle_request demo_git_host demo_git_lib demo_git_world (demo_git_request None ''/api/repo/info/ann/code'' []) =
     info_answer demo_git_host demo_git_lib (demo_git_world\<lparr>gw_cache := release_repo ?c 0\<rparr>) (load_local_repo demo_db demo_repo)"
    using p by (intro api_info_unchecked [where rest = "''ann/code''" and r = demo_repo and parsed = True])
      (simp_all add: demo_git_request_def demo_git_host_def demo_git_world_def demo_store_def)
  moreover have "\<not> can_access_repo demo_db (load_local_repo demo_db demo_repo) Read None None" by code_simp
  ultimately show ?thesis by blast
qed

theorem cgi_user_authentic_witness:
  "\<exists>env rs. git_repo_cgi demo_git_host demo_git_lib ''/ann/code/info/refs'' (demo_git_request (Some ''ann'') ''/ann/code/info/refs'' []) =
     Inr [RunCgi env, Answer rs] \<and> ''REMOTE_USER=ann'' \<in> set env"
proof -
  let ?req = "demo_git_request (Some ''ann'') ''/ann/code/info/refs'' []"
  have "cgi_request demo_git_host demo_git_lib ''/ann/code/info/refs'' ?req \<noteq> Inl UndefinedBehaviour" by code_simp
  have "\<exists>c. cgi_request demo_git_host demo_git_lib ''/ann/code/info/refs'' ?req = Inr c \<and> ''REMOTE_USER=ann'' \<in> set (get_env c)"
  proof (cases "cgi_request demo_git_host demo_git_lib ''/ann/code/info/refs'' ?req")
    case (Inl e)
    have "\<not> isl (cgi_request demo_git_host demo_git_lib ''/ann/code/info/refs'' ?req)" by code_simp
    with Inl show ?thesis by simp
  next
    case (Inr c)
    with cgi_request_facts [OF Inr] show ?thesis
      by (simp add: get_env_def env_var_def user_str_def demo_git_request_def)
  qed
  then obtain c where c: "cgi_request demo_git_host demo_git_lib ''/ann/code/info/refs'' ?req = Inr c"
    "''REMOTE_USER=ann'' \<in> set (get_env c)" by blast
  obtain rs where g: "git_repo_cgi demo_git_host demo_git_lib ''/ann/code/info/refs'' ?req = Inr [RunCgi (get_env c), Answer rs]"
    by (simp add: git_repo_cgi_def c)
  have "''REMOTE_USER=ann'' = ''REMOTE_USER='' @ user_str ?req [] \<and> rq_user ?req \<noteq> None"
    using c(2) by (intro cgi_user_authentic [OF g]) (simp_all add: starts_with_def)
  with g c show ?thesis by blast
qed


theorem create_remote_refused_witness:
  "\<exists>rs. repo_create_post demo_git_host demo_git_lib demo_git_world
      (demo_git_request (Some ''ann'') ''/repo/new'' ''repo-owner=ann@c.d&repo-name=x'') =
     Took demo_git_world [AskPeer ((demo_git_request (Some ''ann'') ''/repo/new'' ''repo-owner=ann@c.d&repo-name=x'')
       \<lparr>rq_domain := Some ''c.d''\<rparr>), Answer rs] \<and> rs_status rs = 400"
proof -
  let ?req = "demo_git_request (Some ''ann'') ''/repo/new'' ''repo-owner=ann@c.d&repo-name=x''"
  have f: "parse_form_url_encoded ''repo-owner=ann@c.d&repo-name=x'' = Some [(''repo-owner'', ''ann@c.d''), (''repo-name'', ''x'')]"
    by code_simp
  have "cf_repo (read_create_form ''a.b'' [(''repo-owner'', ''ann@c.d''), (''repo-name'', ''x'')]) =
      \<lparr>rp_instance = ''c.d'', rp_owner = ''ann'', rp_name = ''x''\<rparr>" by code_simp
  then show ?thesis
    using create_remote_refused [of ?req "''ann''" "[(''repo-owner'', ''ann@c.d''), (''repo-name'', ''x'')]" demo_git_host "''c.d''"
      demo_git_lib demo_git_world] f
    by (simp add: demo_git_request_def demo_git_host_def)
qed

theorem api_owner_unreachable_witness:
  "git_handle_request demo_git_host demo_git_lib demo_git_world (demo_git_request None ''/apis/x'' []) =
     answer demo_git_world 404 [] ''Not Found''"
  by (rule api_owner_unreachable [where s = "''s''" and name = "''x''"]) (simp_all add: demo_git_request_def)

theorem cgi_output_roundtrip_witness:
  "parse_cgi_output (concat (map (\<lambda>l. l @ CRLF) [''A: b'']) @ CRLF @ ''hi'') =
     (cgi_header_line ''A: b'' default_response)\<lparr>r_body := BodyBuffer (Some ''hi'')\<rparr>"
  using cgi_output_roundtrip [of "[''A: b'']" "''hi''"] by (simp add: CR_def NL_def)

end
