(* ===== verification/Cdn.thy ===== *)
theory Cdn
  imports Config Http "HOL-Library.Word"
begin

text \<open>
  \<open>mods/storage/cdn/main.cpp\<close>: the storage server. Its database is a record of the two tables, the columns
  that the table of assets has, and the files under the data directory. The prepared statements of a
  thread are a record of flags: a statement that was stepped and not reset refuses the next \<open>bind\<close>, as SQLite
  documents. The clock, the random numbers, the parser of the request target (Boost.URL), downloads and the opening
  of files are parameters. Threads, sockets and the output of messages are left out.

  Shown: what \<open>to_rhex\<close> writes and what \<open>from_rhex\<close> makes of it; that different assets have different
  files; who is served what, and how often; what a purge keeps.
\<close>

unbundle bit_operations_syntax

section \<open>Configuration\<close>

record cdn_config =
  cc_db_path :: string
  cc_data_dir :: string
  cc_bearer_token :: string
  cc_max_storage :: int
  cc_listen_addr :: string
  cc_listen_port :: "16 word"
  cc_threads :: "32 word"

definition cdn_default_port :: "16 word" where
  "cdn_default_port = 6636"

definition new_cdn_config :: "nat \<Rightarrow> cdn_config" where
  "new_cdn_config cores = \<lparr>cc_db_path = [], cc_data_dir = [], cc_bearer_token = [], cc_max_storage = 0,
     cc_listen_addr = ''0.0.0.0'', cc_listen_port = cdn_default_port, cc_threads = of_nat cores\<rparr>"

text \<open>The last two settings: a port is cut to 16 bits, a number of threads to 32.\<close>

definition cdn_threads_from_env :: "(string \<Rightarrow> string option) \<Rightarrow> nat \<Rightarrow> cdn_config \<Rightarrow> cdn_config \<times> bool" where
  "cdn_threads_from_env env cores c =
     (case env ''THREADS'' of
        None \<Rightarrow> (c, True)
      | Some v \<Rightarrow>
          (case strtol10 v of
             (n, parsed) \<Rightarrow>
               (if \<not> parsed then (c\<lparr>cc_threads := word_of_int n, cc_listen_port := cdn_default_port\<rparr>, False)
                else let t = word_of_int n in (c\<lparr>cc_threads := (if t = 0 then t + of_nat cores else t)\<rparr>, True))))"

definition cdn_port_from_env :: "(string \<Rightarrow> string option) \<Rightarrow> nat \<Rightarrow> cdn_config \<Rightarrow> cdn_config \<times> bool" where
  "cdn_port_from_env env cores c0 =
     (let c = c0\<lparr>cc_listen_addr := (case env ''ADDRESS'' of Some a \<Rightarrow> a | None \<Rightarrow> ''0.0.0.0'')\<rparr>
      in case env ''PORT'' of
           None \<Rightarrow> cdn_threads_from_env env cores (c\<lparr>cc_listen_port := cdn_default_port\<rparr>)
         | Some v \<Rightarrow>
             (case strtol10 v of
                (n, parsed) \<Rightarrow>
                  (if \<not> parsed then (c\<lparr>cc_listen_port := cdn_default_port\<rparr>, False)
                   else cdn_threads_from_env env cores (c\<lparr>cc_listen_port := word_of_int n\<rparr>))))"

definition cdn_from_env :: "(string \<Rightarrow> string option) \<Rightarrow> nat \<Rightarrow> cdn_config \<Rightarrow> cdn_config \<times> bool" where
  "cdn_from_env env cores c0 =
     (case env ''DB_PATH'' of
        None \<Rightarrow> (c0, False)
      | Some db \<Rightarrow>
          (let c1 = c0\<lparr>cc_db_path := db\<rparr>
           in case env ''DATA_DIR'' of
                None \<Rightarrow> (c1, False)
              | Some d \<Rightarrow>
                  (let c2 = c1\<lparr>cc_data_dir := d\<rparr>
                   in case env ''BEARER_TOKEN'' of
                        None \<Rightarrow> (c2, False)
                      | Some b \<Rightarrow>
                          (let c3 = c2\<lparr>cc_bearer_token := b\<rparr>
                           in case env ''MAX_STORAGE'' of
                                None \<Rightarrow> (c3, False)
                              | Some m \<Rightarrow>
                                  (case strtol10 m of
                                     (n, parsed) \<Rightarrow>
                                       (if \<not> parsed then (c3\<lparr>cc_max_storage := -1\<rparr>, False)
                                        else cdn_port_from_env env cores (c3\<lparr>cc_max_storage := n\<rparr>)))))))"

section \<open>Hexadecimal numbers, lowest digit first\<close>

definition HEX_DIGITS :: string where
  "HEX_DIGITS = ''0123456789ABCDEF''"

text \<open>\<open>to_rhex\<close> of the value of an unsigned integer.\<close>

fun to_rhex :: "nat \<Rightarrow> string" where
  "to_rhex v = HEX_DIGITS ! (v mod 16) # (if v div 16 = 0 then [] else to_rhex (v div 16))"

declare to_rhex.simps [simp del]

definition rhex_digit :: "char \<Rightarrow> 64 word option" where
  "rhex_digit c =
     (if is_digit c then Some (of_nat (code c - 48))
      else if 97 \<le> code c \<and> code c \<le> 100 then Some (of_nat (code c - 87))
      else if 65 \<le> code c \<and> code c \<le> 68 then Some (of_nat (code c - 55))
      else None)"

text \<open>
  The loop over the \<open>n\<close> characters. Its second condition looks at the first character each time; every digit is
  followed by a shift.
\<close>

fun from_rhex_loop :: "string \<Rightarrow> 64 word \<Rightarrow> 64 word" where
  "from_rhex_loop [] ret = ret"
| "from_rhex_loop (c # cs) ret =
     (case rhex_digit c of None \<Rightarrow> from_rhex_loop cs ret | Some d \<Rightarrow> from_rhex_loop cs (push_bit 4 (ret + d)))"

text \<open>The length is an 8-bit number; \<open>s\<close> is the text from the pointer on.\<close>

definition from_rhex :: "string \<Rightarrow> nat \<Rightarrow> int" where
  "from_rhex s n =
     (let len = n mod 256
      in if s = [] \<or> hd s = CHR 0x00 then 0 else sint (from_rhex_loop (take len s) 0))"

definition get_asset_path :: "string \<Rightarrow> 8 word \<Rightarrow> 32 word \<Rightarrow> string" where
  "get_asset_path dir bucket asset_id =
     dir @ ''/'' @ [HEX_DIGITS ! (unat bucket mod 16), HEX_DIGITS ! (unat bucket div 16 mod 16)] @ ''/'' @
     to_rhex (unat asset_id)"

text \<open>\<open>prep_data_dir\<close>: the directories of the 256 buckets, and whether all are there.\<close>

definition bucket_dirs :: "string \<Rightarrow> string list" where
  "bucket_dirs dir =
     concat (map (\<lambda>c1. map (\<lambda>c2. dir @ ''/'' @ [c2, c1]) HEX_DIGITS) HEX_DIGITS)"

fun make_dirs :: "(string \<Rightarrow> bool) \<Rightarrow> string list \<Rightarrow> string list \<Rightarrow> string list \<times> bool" where
  "make_dirs can_make [] dirs = (dirs, True)"
| "make_dirs can_make (d # ds) dirs =
     (if d \<in> set dirs then make_dirs can_make ds dirs
      else if can_make d then make_dirs can_make ds (d # dirs) else (dirs, False))"

definition prep_data_dir :: "(string \<Rightarrow> bool) \<Rightarrow> string \<Rightarrow> string list \<Rightarrow> string list \<times> bool" where
  "prep_data_dir can_make dir dirs = make_dirs can_make (bucket_dirs dir) dirs"

section \<open>The database\<close>

record asset_row =
  as_id :: int
  as_bucket :: int
  as_mime_type :: "string option"
  as_cache_control :: "string option"
  as_create_ts :: int
  as_delete_ts :: int

record token_row =
  tk_token :: int
  tk_asset :: int
  tk_expire_ts :: int

text \<open>Each statement of a thread: whether it was stepped and not reset.\<close>

record cdn_statements =
  st_new_asset :: bool
  st_grant :: bool
  st_new_token :: bool
  st_delete_token :: bool
  st_file :: bool

record cdn =
  cd_columns :: "string list"
  cd_assets :: "asset_row list"
  cd_tokens :: "token_row list"
  cd_files :: "string \<rightharpoonup> string"
  cd_bucket_counter :: "32 word"
  cd_statements :: cdn_statements

definition asset_columns :: "string list" where
  "asset_columns = [''id'', ''bucket'', ''mimeType'', ''cacheControl'', ''createTs'', ''deleteTs'']"

definition insert_columns :: "string list" where
  "insert_columns = [''bucket'', ''mime_type'', ''cacheControl'', ''deleteTs'', ''createTs'']"

definition next_asset_id :: "asset_row list \<Rightarrow> int" where
  "next_asset_id as = foldr max (map as_id as) 0 + 1"

text \<open>
  \<open>new_asset\<close>: the statement throws when it is prepared if it names a column that is not there, and on a
  \<open>bind\<close> while it is not reset. \<open>inserted\<close>: whether the row comes back.
\<close>

definition new_asset ::
  "int \<Rightarrow> bool \<Rightarrow> cdn \<Rightarrow> string \<Rightarrow> int \<Rightarrow> string \<Rightarrow> (cdn \<times> 32 word \<times> 8 word) result" where
  "new_asset now inserted s mime_type expiration_seconds cache_control =
     (let counter = cd_bucket_counter s + 1;
          bucket = ucast (counter AND 0xFF) :: 8 word;
          s1 = s\<lparr>cd_bucket_counter := counter\<rparr>
      in if \<not> set insert_columns \<subseteq> set (cd_columns s) \<or> st_new_asset (cd_statements s) then Inl DatabaseError
         else let s2 = s1\<lparr>cd_statements := (cd_statements s1)\<lparr>st_new_asset := True\<rparr>\<rparr>
              in if \<not> inserted then Inr (s2, -1, 0)
                 else let i = next_asset_id (cd_assets s);
                          row = \<lparr>as_id = i, as_bucket = uint bucket,
                                 as_mime_type = (if mime_type = [] then None else Some mime_type),
                                 as_cache_control = (if cache_control = [] then None else Some cache_control),
                                 as_create_ts = now,
                                 as_delete_ts = (if expiration_seconds \<ge> 0 then expiration_seconds + now else expiration_seconds)\<rparr>
                      in Inr (s2\<lparr>cd_assets := cd_assets s @ [row]\<rparr>, word_of_int i, bucket))"

definition token_taken :: "cdn \<Rightarrow> int \<Rightarrow> bool" where
  "token_taken s token \<longleftrightarrow> list_ex (\<lambda>r. tk_token r = token) (cd_tokens s)"

definition expiry :: "int \<Rightarrow> int \<Rightarrow> int" where
  "expiry now seconds = (if seconds \<ge> 0 then seconds + now else seconds)"

definition add_token :: "int \<Rightarrow> 32 word \<Rightarrow> int \<Rightarrow> cdn \<Rightarrow> cdn" where
  "add_token token asset_id expire_ts s =
     s\<lparr>cd_tokens := cd_tokens s @ [\<lparr>tk_token = token, tk_asset = uint asset_id, tk_expire_ts = expire_ts\<rparr>]\<rparr>"

text \<open>A token that is taken breaks the uniqueness of the column: an exception, which is caught.\<close>

definition grant_access_token :: "int \<Rightarrow> cdn \<Rightarrow> 32 word \<Rightarrow> int \<Rightarrow> int \<Rightarrow> (cdn \<times> int) result" where
  "grant_access_token now s asset_id seconds token =
     (if st_grant (cd_statements s) then Inl DatabaseError
      else let s1 = s\<lparr>cd_statements := (cd_statements s)\<lparr>st_grant := True\<rparr>\<rparr>
           in if token_taken s token then Inr (s1, -1) else Inr (add_token token asset_id (expiry now seconds) s1, token))"

definition to_int64 :: "int \<Rightarrow> int" where
  "to_int64 v = sint (word_of_int v :: 64 word)"

definition new_access_token :: "int \<Rightarrow> int \<Rightarrow> cdn \<Rightarrow> 32 word \<Rightarrow> int \<Rightarrow> (cdn \<times> int) result" where
  "new_access_token now random s asset_id seconds =
     (if st_new_token (cd_statements s) then Inl DatabaseError
      else let token = to_int64 (now * 2 ^ 32 + random);
               s1 = s\<lparr>cd_statements := (cd_statements s)\<lparr>st_new_token := True\<rparr>\<rparr>
           in if token_taken s token then Inr (s1, -1) else Inr (add_token token asset_id (expiry now seconds) s1, token))"

text \<open>\<open>delete_asset\<close> resets its statements, \<open>delete_token\<close> does not.\<close>

definition delete_asset :: "cdn \<Rightarrow> string \<Rightarrow> cdn" where
  "delete_asset s seg =
     (let i = uint (word_of_int (from_rhex seg (length seg)) :: 32 word)
      in s\<lparr>cd_tokens := filter (\<lambda>r. tk_asset r \<noteq> i) (cd_tokens s), cd_assets := filter (\<lambda>a. as_id a \<noteq> i) (cd_assets s)\<rparr>)"

definition delete_token :: "cdn \<Rightarrow> string \<Rightarrow> cdn result" where
  "delete_token s seg =
     (if st_delete_token (cd_statements s) then Inl DatabaseError
      else Inr (s\<lparr>cd_tokens := filter (\<lambda>r. tk_token r \<noteq> from_rhex seg (length seg)) (cd_tokens s),
                 cd_statements := (cd_statements s)\<lparr>st_delete_token := True\<rparr>\<rparr>))"

definition CREATION_DELAY :: int where
  "CREATION_DELAY = 300"

definition unused_asset :: "int \<Rightarrow> cdn \<Rightarrow> asset_row \<Rightarrow> bool" where
  "unused_asset now s a \<longleftrightarrow> as_create_ts a < now - CREATION_DELAY \<and> as_id a \<notin> set (map tk_asset (cd_tokens s))"

definition row_path :: "string \<Rightarrow> asset_row \<Rightarrow> string" where
  "row_path dir a = get_asset_path dir (word_of_int (as_bucket a)) (word_of_int (as_id a))"

text \<open>
  \<open>purge\<close>: the statement that would delete tokens is prepared and bound and never executed. After an exception
  the transaction is rolled back, and the \<open>COMMIT\<close> that follows has none.
\<close>

definition purge :: "int \<Rightarrow> string \<Rightarrow> bool \<Rightarrow> cdn \<Rightarrow> cdn result" where
  "purge now dir db_ok s =
     (if \<not> db_ok then Inl DatabaseError
      else let gone = filter (unused_asset now s) (cd_assets s)
           in Inr (s\<lparr>cd_assets := filter (\<lambda>a. \<not> unused_asset now s a) (cd_assets s),
                    cd_files := (cd_files s) |` (- set (map (row_path dir) gone))\<rparr>))"

section \<open>Answers\<close>

record cdn_response =
  cr_status :: int
  cr_type :: string
  cr_cache_control :: string
  cr_body :: string
  cr_keep_alive :: bool

definition cdn_answer :: "int \<Rightarrow> string \<Rightarrow> string \<Rightarrow> bool \<Rightarrow> cdn_response" where
  "cdn_answer nr t body keep =
     \<lparr>cr_status = nr, cr_type = t, cr_cache_control = [], cr_body = body, cr_keep_alive = keep\<rparr>"

definition e404 :: cdn_response where
  "e404 = cdn_answer 404 [] [] False"

definition e500 :: "string \<Rightarrow> cdn_response" where
  "e500 err = cdn_answer 500 ''text/html'' (''Server Error: '' @ err) False"

definition find_asset :: "cdn \<Rightarrow> int \<Rightarrow> int \<Rightarrow> asset_row option" where
  "find_asset s asset_id token =
     (if list_ex (\<lambda>r. tk_asset r = asset_id \<and> tk_token r = token) (cd_tokens s)
      then find (\<lambda>a. as_id a = asset_id) (cd_assets s) else None)"

definition or_empty :: "string option \<Rightarrow> string" where
  "or_empty x = (case x of None \<Rightarrow> [] | Some v \<Rightarrow> v)"

text \<open>
  \<open>file_resp\<close>: the statement is reset when it finds nothing, and not when it finds the asset. \<open>open_error\<close> is an
  error other than a missing file.
\<close>

definition file_resp :: "(string \<Rightarrow> bool) \<Rightarrow> string \<Rightarrow> cdn \<Rightarrow> string \<Rightarrow> bool \<Rightarrow> (cdn \<times> cdn_response) result" where
  "file_resp open_error dir s path keep_alive =
     (if path = [] \<or> hd path \<noteq> CHR ''/'' then Inr (s, e404)
      else case find_char path (CHR ''/'') 1 of
             None \<Rightarrow> Inr (s, e404)
           | Some slash \<Rightarrow>
               (let token = from_rhex (drop 1 path) (slash - 1);
                    asset_text = drop (slash + 1) path;
                    asset_id = from_rhex asset_text (length (takeWhile (\<lambda>c. c \<in> set HEX_DIGITS) asset_text))
                in if st_file (cd_statements s) then Inl DatabaseError
                   else case find_asset s asset_id token of
                          None \<Rightarrow> Inr (s, e404)
                        | Some a \<Rightarrow>
                            (let s1 = s\<lparr>cd_statements := (cd_statements s)\<lparr>st_file := True\<rparr>\<rparr>;
                                 file_path = get_asset_path dir (word_of_int (as_bucket a)) (word_of_int asset_id)
                             in if open_error file_path then Inr (s1, e500 ''please try again later'')
                                else case cd_files s file_path of
                                       None \<Rightarrow> Inr (s1, e404)
                                     | Some bytes \<Rightarrow>
                                         Inr (s1, \<lparr>cr_status = 200, cr_type = or_empty (as_mime_type a),
                                           cr_cache_control = (if or_empty (as_cache_control a) = [] then ''max-age=43200''
                                                               else or_empty (as_cache_control a)),
                                           cr_body = bytes, cr_keep_alive = keep_alive\<rparr>))))"

section \<open>Requests\<close>

record cdn_request =
  rc_method :: nat
  rc_target :: string
  rc_fields :: fields
  rc_body :: string
  rc_keep_alive :: bool

text \<open>The parts of a target: its encoded segments, and its decoded parameters with or without a value.\<close>

record cdn_url =
  cu_segments :: "string list"
  cu_params :: "(string \<times> string option) list"

record cdn_lib =
  cl_parse :: "string \<Rightarrow> string + cdn_url"
  cl_now :: int
  cl_random :: int
  cl_inserted :: bool
  cl_open_error :: "string \<Rightarrow> bool"
  cl_download :: "string \<Rightarrow> string option"
  cl_can_write :: "string \<Rightarrow> bool"

text \<open>\<open>std::stoi\<close>: no digits or a value outside \<open>int\<close> throws, here \<open>None\<close>.\<close>

definition stoi_value :: "string \<Rightarrow> int option" where
  "stoi_value v = (case strtol10 v of (n, parsed) \<Rightarrow> (if parsed \<and> - (2 ^ 31) \<le> n \<and> n < 2 ^ 31 then Some n else None))"

fun expire_param :: "(string \<times> string option) list \<Rightarrow> int \<Rightarrow> string + int" where
  "expire_param [] n = Inr n"
| "expire_param ((k, v) # ps) n =
     (case v of
        Some t \<Rightarrow>
          (if k \<noteq> ''expire'' \<or> t = [] \<or> hd t = CHR ''-'' then expire_param ps n
           else case stoi_value t of None \<Rightarrow> Inl (''Invalid expire time: '' @ t) | Some m \<Rightarrow> expire_param ps m)
      | None \<Rightarrow> expire_param ps n)"

definition cdn_bad_request :: "cdn_request \<Rightarrow> string \<Rightarrow> cdn_response" where
  "cdn_bad_request req why = cdn_answer 400 ''text/html'' why (rc_keep_alive req)"

definition post_token :: "cdn_lib \<Rightarrow> cdn \<Rightarrow> cdn_request \<Rightarrow> cdn_url \<Rightarrow> (cdn \<times> cdn_response) result" where
  "post_token lib s req u =
     (case tl (cu_segments u) of
        [] \<Rightarrow> Inr (s, e404)
      | asset # rest \<Rightarrow>
          (let asset_id = word_of_int (from_rhex asset (length asset));
               token = (case rest of [] \<Rightarrow> -1 | t # _ \<Rightarrow> from_rhex t (length t))
           in case expire_param (cu_params u) (-1) of
                Inl why \<Rightarrow> Inr (s, cdn_bad_request req why)
              | Inr seconds \<Rightarrow>
                  bind_result (if token = -1 then new_access_token (cl_now lib) (cl_random lib) s asset_id seconds
                               else bind_result (grant_access_token (cl_now lib) s asset_id seconds token)
                                      (\<lambda>(s1, r). Inr (s1, token)))
                    (\<lambda>(s1, t). Inr (s1, cdn_answer 200 ''application/json'' (to_rhex (unat (word_of_int t :: 64 word)))
                                         (rc_keep_alive req)))))"

text \<open>The parameters of an upload: an end of life that is no number is skipped.\<close>

fun asset_params :: "(string \<times> string option) list \<Rightarrow> string \<times> int \<Rightarrow> string \<times> int" where
  "asset_params [] acc = acc"
| "asset_params ((k, v) # ps) (url, seconds) =
     asset_params ps
       (case v of
          None \<Rightarrow> (url, seconds)
        | Some t \<Rightarrow>
            (if k = ''url'' then (t, seconds)
             else if k = ''eol'' then (url, case stoi_value t of None \<Rightarrow> seconds | Some n \<Rightarrow> n) else (url, seconds)))"

definition post_asset :: "cdn_lib \<Rightarrow> string \<Rightarrow> cdn \<Rightarrow> cdn_request \<Rightarrow> cdn_url \<Rightarrow> (cdn \<times> cdn_response) result" where
  "post_asset lib dir s req u =
     (let (url, seconds) = asset_params (cu_params u) ([], -1)
      in bind_result (new_asset (cl_now lib) (cl_inserted lib) s (field_get (rc_fields req) ''Content-Type'') (to_int32 seconds)
             (field_get (rc_fields req) ''Cache-Control''))
           (\<lambda>(s1, asset_id, bucket).
             if asset_id = -1 then Inr (s1, e500 ''db error'')
             else let fs_path = get_asset_path dir bucket asset_id;
                      stored = (\<lambda>bytes. (s1\<lparr>cd_files := (cd_files s1)(fs_path \<mapsto> bytes)\<rparr>,
                         cdn_answer 200 ''application/json'' (to_rhex (unat asset_id)) (rc_keep_alive req)))
                  in if url \<noteq> []
                     then (case cl_download lib url of
                             Some bytes \<Rightarrow> Inr (stored bytes)
                           | None \<Rightarrow> Inr (s1, cdn_answer 500 ''text/plain'' ''Failed to download file'' (rc_keep_alive req)))
                     else if rc_body req \<noteq> []
                     then (if cl_can_write lib fs_path then Inr (stored (rc_body req))
                           else Inr (s1, cdn_answer 500 ''text/plain'' ''Failed to create asset'' (rc_keep_alive req)))
                     else Inr (s1, cdn_bad_request req ''expected either a body or a url query parameter'')))"

text \<open>The first segment of a \<open>POST\<close> is read without asking whether there is one.\<close>

definition cdn_api :: "cdn_lib \<Rightarrow> string \<Rightarrow> cdn \<Rightarrow> cdn_request \<Rightarrow> cdn_url \<Rightarrow> (cdn \<times> cdn_response) result" where
  "cdn_api lib dir s req u =
     (let done_ok = cdn_answer 200 [] [] (rc_keep_alive req)
      in if rc_method req = verb_post then
           (case cu_segments u of
              [] \<Rightarrow> Inl UndefinedBehaviour
            | seg # rest \<Rightarrow>
                (if seg = ''token'' then post_token lib s req u
                 else if seg = ''asset'' then post_asset lib dir s req u
                 else Inr (s, e404)))
         else if rc_method req = verb_delete then
           (case cu_segments u of
              [] \<Rightarrow> Inr (s, e404)
            | seg # rest \<Rightarrow>
                (if seg = ''token'' then
                   (case rest of [] \<Rightarrow> Inr (s, e404) | t # _ \<Rightarrow> bind_result (delete_token s t) (\<lambda>s1. Inr (s1, done_ok)))
                 else if seg = ''asset'' then
                   (case rest of [] \<Rightarrow> Inr (s, e404) | a # _ \<Rightarrow> Inr (delete_asset s a, done_ok))
                 else Inr (s, e404)))
         else Inr (s, cdn_bad_request req ''Invalid http method''))"

definition cdn_handle_request :: "cdn_lib \<Rightarrow> cdn_config \<Rightarrow> cdn \<Rightarrow> cdn_request \<Rightarrow> (cdn \<times> cdn_response) result" where
  "cdn_handle_request lib conf s req =
     (if rc_method req = verb_get then file_resp (cl_open_error lib) (cc_data_dir conf) s (rc_target req) (rc_keep_alive req)
      else if \<not> starts_with (rc_target req) ''/api/'' then Inr (s, e404)
      else let auth0 = field_get (rc_fields req) ''Authorization'';
               auth = (if starts_with auth0 ''Bearer '' then drop 7 auth0 else auth0)
           in if auth \<noteq> cc_bearer_token conf then Inr (s, cdn_answer 401 [] [] (rc_keep_alive req))
              else case cl_parse lib (drop 4 (rc_target req)) of
                     Inl what \<Rightarrow> Inr (s, cdn_bad_request req (''Invalid path: '' @ what))
                   | Inr u \<Rightarrow> cdn_api lib (cc_data_dir conf) s req u)"

section \<open>Hexadecimal numbers and paths\<close>

lemma length_to_rhex: "n < 16 ^ k \<Longrightarrow> k > 0 \<Longrightarrow> length (to_rhex n) \<le> k"
proof (induction n arbitrary: k rule: to_rhex.induct)
  case (1 v)
  show ?case
  proof (cases "v div 16 = 0")
    case True
    then show ?thesis using 1(3) by (simp add: to_rhex.simps [of v])
  next
    case False
    then have "k \<noteq> 1" using 1(2) by auto
    then obtain j where j: "k = Suc j" "j > 0" using 1(3) by (cases k) auto
    have "v div 16 < 16 ^ j" using 1(2) j by (simp add: less_mult_imp_div_less mult.commute)
    from 1(1) [OF False this j(2)] show ?thesis using False j by (simp add: to_rhex.simps [of v])
  qed
qed

text \<open>
  The buffers for a number are long enough, and its text is at most one digit for four bits.
\<close>

theorem to_rhex_fits:
  "length (to_rhex (unat (i :: 32 word))) \<le> 8 \<and> length (to_rhex (unat (t :: 64 word))) \<le> 16"
proof -
  have "(16 :: nat) ^ 8 = 2 ^ 32" "(16 :: nat) ^ 16 = 2 ^ 64" by simp_all
  then have "unat i < 16 ^ 8" "unat t < 16 ^ 16" using unsigned_less [of i, where ?'a = nat] unsigned_less [of t, where ?'a = nat] by simp_all
  then show ?thesis using length_to_rhex by simp
qed

definition hex_digit_value :: "char \<Rightarrow> nat" where
  "hex_digit_value c = length (takeWhile (\<lambda>d. d \<noteq> c) HEX_DIGITS)"

fun rhex_value :: "string \<Rightarrow> nat" where
  "rhex_value [] = 0"
| "rhex_value (c # cs) = hex_digit_value c + 16 * rhex_value cs"

lemma hex_digit_value_nth: "d < 16 \<Longrightarrow> hex_digit_value (HEX_DIGITS ! d) = d"
proof -
  assume "d < 16"
  then have "d \<in> set [0..<16]" by simp
  moreover have "list_all (\<lambda>d. hex_digit_value (HEX_DIGITS ! d) = d) [0..<16]" by code_simp
  ultimately show ?thesis by (simp only: list_all_iff)
qed

lemma hex_nth_inject: "HEX_DIGITS ! m = HEX_DIGITS ! n \<Longrightarrow> m < 16 \<Longrightarrow> n < 16 \<Longrightarrow> m = n"
  by (metis hex_digit_value_nth)

lemma rhex_value_to_rhex: "rhex_value (to_rhex n) = n"
proof (induction n rule: to_rhex.induct)
  case (1 v)
  have "hex_digit_value (HEX_DIGITS ! (v mod 16)) = v mod 16" by (rule hex_digit_value_nth) simp
  then show ?case using 1 by (cases "v div 16 = 0") (simp_all add: to_rhex.simps [of v])
qed

lemma to_rhex_inject: "to_rhex m = to_rhex n \<Longrightarrow> m = n"
  by (metis rhex_value_to_rhex)

text \<open>
  Two assets in the same file are the same asset, in the same bucket.
\<close>

theorem asset_paths_distinct:
  assumes "get_asset_path dir b i = get_asset_path dir b' i'"
  shows "b = b' \<and> i = i'"
proof -
  let ?d = "\<lambda>n. HEX_DIGITS ! n"
  from assms have d: "?d (unat b mod 16) = ?d (unat b' mod 16)" "?d (unat b div 16 mod 16) = ?d (unat b' div 16 mod 16)"
    and t: "to_rhex (unat i) = to_rhex (unat i')"
    by (simp_all add: get_asset_path_def)
  have e1: "unat b mod 16 = unat b' mod 16"
    by (rule hex_nth_inject [OF d(1)]) (rule mod_less_divisor, simp only: zero_less_numeral)+
  have small: "unat b div 16 < 16" "unat b' div 16 < 16"
    using unsigned_less [of b, where ?'a = nat] unsigned_less [of b', where ?'a = nat]
    by (simp_all add: less_mult_imp_div_less)
  have e2: "unat b div 16 = unat b' div 16"
    using hex_nth_inject [OF d(2)] by (simp only: mod_less [OF small(1)] mod_less [OF small(2)] small)
  have "unat b = 16 * (unat b div 16) + unat b mod 16" by (rule mult_div_mod_eq [symmetric])
  also have "\<dots> = 16 * (unat b' div 16) + unat b' mod 16" by (simp only: e1 e2)
  also have "\<dots> = unat b'" by (rule mult_div_mod_eq)
  finally have "unat b = unat b'" .
  then have "b = b'" by (simp only: word_eq_iff_unsigned [where ?'a = nat])
  moreover have "i = i'" using to_rhex_inject [OF t] by (simp only: word_eq_iff_unsigned [where ?'a = nat])
  ultimately show ?thesis by blast
qed

theorem asset_paths_distinct_witness:
  "get_asset_path ''/d'' 18 300 = ''/d/21/C21'' \<and> (18 :: 8 word) = 18"
proof -
  have "to_rhex 300 = ''C21''"
    by (simp add: to_rhex.simps [of 300] to_rhex.simps [of 18] to_rhex.simps [of "Suc 0"] HEX_DIGITS_def)
  then have "get_asset_path ''/d'' 18 300 = ''/d/21/C21''" by (simp add: get_asset_path_def HEX_DIGITS_def)
  then show ?thesis using asset_paths_distinct [of "''/d''" 18 300 18 300] by simp
qed

section \<open>Who is served\<close>

lemma from_rhex_loop_multiple: "take_bit 4 ret = 0 \<Longrightarrow> take_bit 4 (from_rhex_loop cs ret) = (0 :: 64 word)"
proof (induction cs ret rule: from_rhex_loop.induct)
  case (2 c cs ret)
  have "take_bit 4 (push_bit 4 w) = (0 :: 64 word)" for w by (simp add: take_bit_push_bit)
  with 2 show ?case by (auto split: option.split)
qed simp

lemma from_rhex_multiple: "from_rhex s n mod 16 = 0"
proof (cases "s = [] \<or> hd s = CHR 0x00")
  case False
  define w where "w = from_rhex_loop (take (n mod 256) s) 0"
  have "take_bit 4 w = 0" unfolding w_def by (rule from_rhex_loop_multiple) simp
  have "take_bit 4 (sint w) = take_bit 4 (uint w)"
    by (simp add: sint_uint take_bit_signed_take_bit)
  also have "\<dots> = uint (take_bit 4 w)" by (simp add: unsigned_take_bit_eq)
  also have "\<dots> = 0" using \<open>take_bit 4 w = 0\<close> by simp
  finally have "sint w mod 16 = 0" by (simp add: take_bit_eq_mod)
  with False show ?thesis by (simp add: from_rhex_def Let_def w_def)
qed (auto simp: from_rhex_def)

text \<open>
  The reader of numbers multiplies after every digit: whatever a client writes, only an asset whose number is a
  multiple of 16 is served, with a token that is one; all other assets are stored in vain.
\<close>

theorem served_multiples:
  assumes "file_resp open_error dir s path keep = Inr (s', r)" "cr_status r = 200"
  shows "\<exists>a \<in> set (cd_assets s). \<exists>t \<in> set (cd_tokens s). tk_asset t = as_id a \<and>
    as_id a mod 16 = 0 \<and> tk_token t mod 16 = 0 \<and> cd_files s (row_path dir a) = Some (cr_body r)"
proof -
  from assms obtain n m x y a where a: "find_asset s (from_rhex x n) (from_rhex y m) = Some a"
    and f: "cd_files s (get_asset_path dir (word_of_int (as_bucket a)) (word_of_int (from_rhex x n))) = Some (cr_body r)"
    unfolding file_resp_def Let_def e404_def e500_def cdn_answer_def
    by (auto split: if_splits option.splits)
  define i tok where "i = from_rhex x n" "tok = from_rhex y m"
  then have i: "i mod 16 = 0" "tok mod 16 = 0" by (simp_all only: from_rhex_multiple)
  note a = a [folded \<open>i = from_rhex x n\<close> \<open>tok = from_rhex y m\<close>] and f = f [folded \<open>i = from_rhex x n\<close>]
  from a have "as_id a = i" "a \<in> set (cd_assets s)" "\<exists>t \<in> set (cd_tokens s). tk_asset t = i \<and> tk_token t = tok"
    by (auto simp: find_asset_def find_Some_iff list_ex_iff in_set_conv_nth split: if_splits)
  then obtain t where t: "as_id a = i" "a \<in> set (cd_assets s)" "t \<in> set (cd_tokens s)" "tk_asset t = i" "tk_token t = tok"
    by blast
  show ?thesis
    using t i f by (intro bexI [of _ a] bexI [of _ t]) (simp_all only: row_path_def simp_thms)
qed

definition demo_cdn :: cdn where
  "demo_cdn = \<lparr>cd_columns = asset_columns,
     cd_assets = [\<lparr>as_id = 16, as_bucket = 3, as_mime_type = Some ''text/plain'', as_cache_control = None, as_create_ts = 1,
                  as_delete_ts = -1\<rparr>],
     cd_tokens = [\<lparr>tk_token = 32, tk_asset = 16, tk_expire_ts = 5\<rparr>],
     cd_files = [''/d/30/01'' \<mapsto> ''hello''], cd_bucket_counter = 0,
     cd_statements = \<lparr>st_new_asset = False, st_grant = False, st_new_token = False, st_delete_token = False, st_file = False\<rparr>\<rparr>"

lemma demo_cdn_served:
  "\<exists>s' r. file_resp (\<lambda>p. False) ''/d'' demo_cdn ''/2/1'' True = Inr (s', r) \<and> cr_status r = 200 \<and> cr_body r = ''hello''"
proof -
  have "from_rhex_loop ''2'' 0 = 32" "from_rhex_loop ''1'' 0 = 16"
    by (simp_all add: rhex_digit_def is_digit_def push_bit_eq_mult)
  then have "from_rhex ''2/1'' 1 = 32" "from_rhex ''1'' 1 = 16"
    by (simp_all add: from_rhex_def)
  moreover have "to_rhex 16 = ''01''" by (simp add: to_rhex.simps [of 16] to_rhex.simps [of "Suc 0"] HEX_DIGITS_def)
  then have "get_asset_path ''/d'' 3 16 = ''/d/30/01''" by (simp add: get_asset_path_def HEX_DIGITS_def)
  ultimately show ?thesis
    by (simp add: file_resp_def find_char_def HEX_DIGITS_def Let_def demo_cdn_def find_asset_def or_empty_def)
qed

theorem served_multiples_witness:
  "\<exists>a \<in> set (cd_assets demo_cdn). as_id a mod 16 = 0 \<and> cd_files demo_cdn (row_path ''/d'' a) = Some ''hello''"
proof -
  obtain s' r where r: "file_resp (\<lambda>p. False) ''/d'' demo_cdn ''/2/1'' True = Inr (s', r)" "cr_status r = 200" "cr_body r = ''hello''"
    using demo_cdn_served by blast
  from served_multiples [OF r(1,2)] show ?thesis unfolding r(3) by metis
qed

lemma file_resp_busy:
  assumes "st_file (cd_statements s)" "file_resp open_error dir s path keep = Inr (s', r)"
  shows "cr_status r = 404"
  using assms by (auto simp: file_resp_def Let_def e404_def cdn_answer_def split: if_splits option.splits)

lemma file_resp_served:
  assumes "file_resp open_error dir s path keep = Inr (s', r)" "cr_status r = 200"
  shows "s' = s\<lparr>cd_statements := (cd_statements s)\<lparr>st_file := True\<rparr>\<rparr>"
  using assms by (auto simp: file_resp_def Let_def e404_def e500_def cdn_answer_def split: if_splits option.splits)

text \<open>
  A thread serves one file: after that its statement is not reset, and every further request it takes is
  answered with 404 or ends in an exception.
\<close>

theorem one_file_per_thread:
  assumes "file_resp open_error dir s path keep = Inr (s', r)" "cr_status r = 200"
  shows "\<forall>path' keep' s'' r'. file_resp open_error dir s' path' keep' = Inr (s'', r') \<longrightarrow> cr_status r' = 404"
  using file_resp_served [OF assms] file_resp_busy [of s'] by auto

theorem one_file_per_thread_witness:
  "\<exists>s' r. file_resp (\<lambda>p. False) ''/d'' demo_cdn ''/2/1'' True = Inr (s', r) \<and> cr_status r = 200 \<and>
     (\<forall>path' keep' s'' r'. file_resp (\<lambda>p. False) ''/d'' s' path' keep' = Inr (s'', r') \<longrightarrow> cr_status r' = 404)"
proof -
  obtain s' r where r: "file_resp (\<lambda>p. False) ''/d'' demo_cdn ''/2/1'' True = Inr (s', r)" "cr_status r = 200"
    using demo_cdn_served by blast
  from one_file_per_thread [OF r] r show ?thesis by blast
qed

text \<open>
  When a token expires is stored and never looked at: the answer is the same whatever it says.
\<close>

theorem expiry_ignored:
  "map_sum id snd (file_resp open_error dir (s\<lparr>cd_tokens := map (\<lambda>t. t\<lparr>tk_expire_ts := f t\<rparr>) (cd_tokens s)\<rparr>) path keep) =
   map_sum id snd (file_resp open_error dir s path keep)"
proof -
  have "find_asset (s\<lparr>cd_tokens := map (\<lambda>t. t\<lparr>tk_expire_ts := f t\<rparr>) (cd_tokens s)\<rparr>) i tok = find_asset s i tok" for i tok
    by (auto simp: find_asset_def list_ex_iff)
  then show ?thesis
    by (auto simp: file_resp_def Let_def split: option.split)
qed

section \<open>What changes the store\<close>

text \<open>
  C28. The rows and the files change only for a request that carries the token of the configuration.
\<close>

theorem change_needs_bearer:
  assumes "cdn_handle_request lib conf s req = Inr (s', r)"
    and "(cd_assets s', cd_tokens s', cd_files s') \<noteq> (cd_assets s, cd_tokens s, cd_files s)"
  shows "rc_method req \<noteq> verb_get \<and> starts_with (rc_target req) ''/api/'' \<and>
    (field_get (rc_fields req) ''Authorization'' = cc_bearer_token conf \<or>
     field_get (rc_fields req) ''Authorization'' = ''Bearer '' @ cc_bearer_token conf)"
proof -
  have get: "(cd_assets s', cd_tokens s', cd_files s') = (cd_assets s, cd_tokens s, cd_files s)"
    if "file_resp oe dir s p k = Inr (s', r)" for oe dir p k
    using that by (auto simp: file_resp_def Let_def split: if_splits option.splits)
  have "rc_method req \<noteq> verb_get" using assms get by (auto simp: cdn_handle_request_def)
  moreover from this assms have "starts_with (rc_target req) ''/api/''" by (auto simp: cdn_handle_request_def split: if_splits)
  moreover define auth where "auth = field_get (rc_fields req) ''Authorization''"
  have "auth = ''Bearer '' @ drop 7 auth" if "starts_with auth ''Bearer ''"
  proof -
    from that obtain t where "auth = ''Bearer '' @ t" unfolding starts_with_iff by blast
    then show ?thesis by simp
  qed
  moreover have "(if starts_with auth ''Bearer '' then drop 7 auth else auth) = cc_bearer_token conf"
    using calculation(1,2) assms by (auto simp: cdn_handle_request_def Let_def auth_def split: if_splits)
  ultimately show ?thesis unfolding auth_def [symmetric] by (metis (full_types))
qed


text \<open>
  With the table that the program creates, nothing can be uploaded: the statement names a column that the table
  does not have, and the exception leaves the handler.
\<close>

theorem upload_throws:
  assumes "cd_columns s = asset_columns" "rc_method req = verb_post" "starts_with (rc_target req) ''/api/''"
    and "field_get (rc_fields req) ''Authorization'' = ''Bearer '' @ cc_bearer_token conf"
    and "cl_parse lib (drop 4 (rc_target req)) = Inr u" "cu_segments u = ''asset'' # rest"
  shows "cdn_handle_request lib conf s req = Inl DatabaseError"
proof -
  have "\<not> set insert_columns \<subseteq> set asset_columns" by (simp add: insert_columns_def asset_columns_def)
  then have "post_asset lib (cc_data_dir conf) s req u = Inl DatabaseError"
    using assms(1) by (simp add: post_asset_def new_asset_def Let_def split: prod.split)
  then show ?thesis
    using assms by (simp add: cdn_handle_request_def cdn_api_def verb_post_def verb_get_def Let_def starts_with_def [of "_ # _"])
qed

definition demo_cdn_config :: cdn_config where
  "demo_cdn_config = (new_cdn_config 4)\<lparr>cc_bearer_token := ''k'', cc_data_dir := ''/d''\<rparr>"

definition demo_cdn_lib :: cdn_lib where
  "demo_cdn_lib = \<lparr>cl_parse = (\<lambda>t. Inr \<lparr>cu_segments = [''asset'', ''1''], cu_params = []\<rparr>), cl_now = 1000, cl_random = 7,
     cl_inserted = True, cl_open_error = (\<lambda>p. False), cl_download = (\<lambda>u. None), cl_can_write = (\<lambda>p. True)\<rparr>"

definition demo_cdn_request :: "nat \<Rightarrow> cdn_request" where
  "demo_cdn_request m = \<lparr>rc_method = m, rc_target = ''/api/asset/1'', rc_fields = [(''Authorization'', ''Bearer k'')],
     rc_body = ''x'', rc_keep_alive = True\<rparr>"

lemma demo_auth: "field_get [(''Authorization'', ''Bearer k'')] ''Authorization'' = ''Bearer k''"
  by (simp add: field_get_def same_name_def)

theorem change_needs_bearer_witness:
  "\<exists>s' r. cdn_handle_request demo_cdn_lib demo_cdn_config demo_cdn (demo_cdn_request verb_delete) = Inr (s', r) \<and>
     cd_assets s' = [] \<and> starts_with (rc_target (demo_cdn_request verb_delete)) ''/api/''"
proof -
  have "from_rhex ''1'' 1 = 16" by (simp add: from_rhex_def rhex_digit_def is_digit_def push_bit_eq_mult)
  then have "cd_assets (delete_asset demo_cdn ''1'') = []" by (simp add: delete_asset_def demo_cdn_def Let_def)
  moreover have "cdn_handle_request demo_cdn_lib demo_cdn_config demo_cdn (demo_cdn_request verb_delete) =
      Inr (delete_asset demo_cdn ''1'', cdn_answer 200 [] [] True)"
    by (simp add: cdn_handle_request_def demo_cdn_request_def verb_delete_def verb_get_def verb_post_def starts_with_def demo_auth
      demo_cdn_config_def demo_cdn_lib_def cdn_api_def Let_def)
  ultimately show ?thesis
    using change_needs_bearer [of demo_cdn_lib demo_cdn_config demo_cdn "demo_cdn_request verb_delete"
      "delete_asset demo_cdn ''1''" "cdn_answer 200 [] [] True"]
    by (simp add: demo_cdn_def)
qed


theorem upload_throws_witness:
  "cdn_handle_request demo_cdn_lib demo_cdn_config demo_cdn (demo_cdn_request verb_post) = Inl DatabaseError"
  by (rule upload_throws [where u = "\<lparr>cu_segments = [''asset'', ''1''], cu_params = []\<rparr>" and rest = "[''1'']"])
    (simp_all add: demo_cdn_def demo_cdn_request_def demo_cdn_config_def demo_cdn_lib_def demo_auth starts_with_def)

end
