(* ===== verification/VCard.thy ===== *)
theory VCard
  imports Mods FiyApi Calendar
begin

text \<open>
  \<open>mods/contacts/src/Contact.hpp\<close> and \<open>Contact.cpp\<close>: the cards of the contacts mod, their vCard text and their JSON
  form. The regular expressions for folded lines and for line ends are functions on the text. The time zone of the
  server is a fixed offset.

  Shown: a card that is written is read back, with its properties, the numbers and visibilities that the
  mod adds to them, and its time, on a server whose zone is UTC; what becomes of structured names.
\<close>

section \<open>Cards\<close>

record VCProp =
  vp_id :: int
  vp_name :: string
  vp_params :: string
  vp_value :: string
  vp_visibility :: int

record VC =
  vc_id :: int
  vc_owner :: string
  vc_user :: string
  vc_update_ts :: int
  vc_props :: "VCProp list"

definition new_prop :: VCProp where
  "new_prop = \<lparr>vp_id = -1, vp_name = [], vp_params = [], vp_value = [], vp_visibility = 0\<rparr>"

definition new_card :: VC where
  "new_card = \<lparr>vc_id = -1, vc_owner = [], vc_user = [], vc_update_ts = 0, vc_props = []\<rparr>"

definition invalid_card :: "VC \<Rightarrow> bool" where
  "invalid_card c \<longleftrightarrow> vc_id c = -1 \<and> vc_update_ts c = 0"

definition basic_profile :: "int \<Rightarrow> string \<Rightarrow> VC" where
  "basic_profile now user = new_card\<lparr>vc_user := user, vc_update_ts := now\<rparr>"

section \<open>Timestamps\<close>

text \<open>The buffer holds 16 characters; with a longer text \<open>strftime\<close> leaves it undefined.\<close>

definition get_timestamp_str :: "int \<Rightarrow> string result" where
  "get_timestamp_str t =
     (let (y, m, d) = civil_from_days (t div 86400); s = t mod 86400;
          r = show_int y @ two_digits m @ two_digits d @ ''T'' @ two_digits (s div 3600) @ two_digits (s div 60 mod 60) @
              two_digits (s mod 60) @ ''Z''
      in if length r > 16 then Inl UndefinedBehaviour else Inr r)"

text \<open>\<open>%nd\<close> of \<open>sscanf\<close>: white space, then at most \<open>n\<close> characters of a number.\<close>

definition scan_int :: "nat \<Rightarrow> string \<Rightarrow> (int \<times> string) option" where
  "scan_int n s =
     (let s1 = dropWhile is_space s; t = take n s1;
          signed = (t \<noteq> [] \<and> (hd t = CHR ''-'' \<or> hd t = CHR ''+''));
          ds = takeWhile is_digit (if signed then tl t else t)
      in if ds = [] then None
         else Some ((if hd t = CHR ''-'' then -1 else 1) * int (read_digits 0 ds),
                    drop (length ds + (if signed then 1 else 0)) s1))"

text \<open>A format of numbers and single characters; the numbers up to the first thing that does not match.\<close>

fun scan_fields :: "(nat + char) list \<Rightarrow> string \<Rightarrow> int list" where
  "scan_fields [] s = []"
| "scan_fields (Inl n # fs) s = (case scan_int n s of None \<Rightarrow> [] | Some (v, rest) \<Rightarrow> v # scan_fields fs rest)"
| "scan_fields (Inr c # fs) s = (if s \<noteq> [] \<and> hd s = c then scan_fields fs (tl s) else [])"

definition timestamp_format :: "(nat + char) list" where
  "timestamp_format = [Inl 4, Inl 2, Inl 2, Inr (CHR ''T''), Inl 2, Inl 2, Inl 2]"

definition parse_timestamp_str :: "int \<Rightarrow> string \<Rightarrow> int" where
  "parse_timestamp_str utc_offset s =
     (let vs = scan_fields timestamp_format s; f = (\<lambda>i. if i < length vs then vs ! i else 0)
      in days_from_civil (f 0) (f 1) (f 2) * 86400 + f 3 * 3600 + f 4 * 60 + f 5 - utc_offset)"

section \<open>Writing a card\<close>

definition EOL :: string where
  "EOL = [CR, NL]"

text \<open>\<open>'0' + item.visibility\<close> is an \<open>int\<close>, cut to a character.\<close>

definition prop_line :: "bool \<Rightarrow> VCProp \<Rightarrow> string" where
  "prop_line own p =
     vp_name p @ (if vp_params p \<noteq> [] then '';'' @ vp_params p else []) @
     (if vp_visibility p \<noteq> 0 \<or> own then '';X-FIY-VISIBILITY='' @ [char_of (nat ((48 + vp_visibility p) mod 256))] else []) @
     (if vp_id p \<ge> 0 then '';X-FIY-ID='' @ show_int (vp_id p) else []) @ '':'' @ vp_value p"

definition has_name :: "VC \<Rightarrow> bool" where
  "has_name c \<longleftrightarrow> list_ex (\<lambda>p. vp_name p = ''N'' \<or> vp_name p = ''FN'') (vc_props c)"

text \<open>The lines before the last one, each of which is ended with \<open>EOL\<close>.\<close>

definition card_lines :: "string \<Rightarrow> string \<Rightarrow> string list \<Rightarrow> VC \<Rightarrow> string list" where
  "card_lines mod_uri host_domain rev_lines c =
     [''BEGIN:VCARD'', ''VERSION:4.0''] @
     (if vc_id c \<ge> 0 then [''SOURCE:'' @ mod_uri @ ''/id/'' @ show_int (vc_id c), ''UID:'' @ show_int (vc_id c)] else []) @
     (if vc_user c \<noteq> [] \<and> vc_owner c = vc_user c then [''X-FIY-PROFILE:'' @ vc_user c @ ''@'' @ host_domain] else []) @
     (if vc_user c \<noteq> [] then [''X-SOCIALPROFILE;TYPE=fiy:'' @ vc_user c @ ''@'' @ host_domain] else []) @
     rev_lines @ map (prop_line (vc_user c = vc_owner c)) (vc_props c) @
     (if has_name c then [] else [''FN:'' @ vc_user c])"

definition to_vcard :: "string \<Rightarrow> string \<Rightarrow> VC \<Rightarrow> string result" where
  "to_vcard mod_uri host_domain c =
     (if invalid_card c then Inr []
      else bind_result (if vc_update_ts c \<noteq> 0 then bind_result (get_timestamp_str (vc_update_ts c)) (\<lambda>r. Inr [''REV:'' @ r]) else Inr [])
             (\<lambda>rev_lines. Inr (concat (map (\<lambda>l. l @ EOL) (card_lines mod_uri host_domain rev_lines c)) @ ''END:VCARD'')))"

section \<open>Reading a card\<close>

definition trim_set :: "char list" where
  "trim_set = [CHR '' '', CHR 0x09, NL, CR]"

definition trim_card :: "string \<Rightarrow> string" where
  "trim_card s = rev (dropWhile (\<lambda>c. c \<in> set trim_set) (rev (dropWhile (\<lambda>c. c \<in> set trim_set) s)))"

text \<open>A line feed and the white space after it are removed: the fold of a line, but for a carriage return before it.\<close>

fun unfold_lines :: "string \<Rightarrow> string" where
  "unfold_lines (c # d # s) = (if c = NL \<and> is_space d then unfold_lines s else c # unfold_lines (d # s))"
| "unfold_lines s = s"

text \<open>The length of a line end at the front: it must be followed by a character that is not white space.\<close>

definition line_end :: "string \<Rightarrow> nat" where
  "line_end s =
     (case s of
        c # d # t \<Rightarrow>
          (if c = CR \<and> d = NL \<and> t \<noteq> [] \<and> \<not> is_space (hd t) then 2
           else if (c = CR \<or> c = NL) \<and> \<not> is_space d then 1 else 0)
      | _ \<Rightarrow> 0)"

function split_lines :: "string \<Rightarrow> string list" where
  "split_lines [] = [[]]"
| "split_lines (c # s) =
     (if line_end (c # s) > 0 then [] # split_lines (drop (line_end (c # s)) (c # s))
      else (case split_lines s of [] \<Rightarrow> [[c]] | l # ls \<Rightarrow> (c # l) # ls))"
  by pat_completeness auto
termination
  by (relation "measure length") auto

declare split_lines.simps [simp del]

text \<open>\<open>std::stoll\<close>; \<open>None\<close> for an exception.\<close>

definition stoll :: "string \<Rightarrow> int option" where
  "stoll s =
     (let s1 = dropWhile is_space s;
          signed = (s1 \<noteq> [] \<and> (hd s1 = CHR ''-'' \<or> hd s1 = CHR ''+''));
          ds = takeWhile is_digit (if signed then tl s1 else s1);
          v = (if hd s1 = CHR ''-'' then -1 else 1) * int (read_digits 0 ds)
      in if ds = [] \<or> v < - (2 ^ 63) \<or> v \<ge> 2 ^ 63 then None else Some v)"

definition card_user :: "string \<Rightarrow> string \<Rightarrow> string" where
  "card_user host_domain v = (case split_user_str host_domain v of (u, d) \<Rightarrow> (if d = [] then u else v))"

definition skipped_names :: "string list" where
  "skipped_names = [''BEGIN'', ''END'', ''AGENT'', ''CLASS'', ''MAILER'', ''PROFILE'', ''SORT-STRING'', ''CLIENTPIDMAP'', ''VERSION'']"

text \<open>\<open>p[17] - '0'\<close> in 8 bits, with signed characters; the terminator is read when nothing follows.\<close>

definition to_int8 :: "int \<Rightarrow> int" where
  "to_int8 v = (v + 128) mod 256 - 128"

definition read_visibility :: "string \<Rightarrow> int" where
  "read_visibility t = min 3 (to_int8 ((case t of [] \<Rightarrow> 0 | c # cs \<Rightarrow> int (code c)) - 48))"

text \<open>The parameters of a line: a visibility, a number, the other parameters; or the user of a profile link.\<close>

fun read_params :: "string \<Rightarrow> string \<Rightarrow> string \<Rightarrow> string list \<Rightarrow> int \<times> int \<times> string \<Rightarrow> string + (int \<times> int \<times> string)" where
  "read_params host_domain nm v [] acc = Inr acc"
| "read_params host_domain nm v (p # ps) (vis, pid, params) =
     (if p = [] then read_params host_domain nm v ps (vis, pid, params)
      else if starts_with p ''X-FIY-VISIBILITY='' then read_params host_domain nm v ps (read_visibility (drop 17 p), pid, params)
      else if starts_with p ''X-FIY-ID='' then
        read_params host_domain nm v ps (vis, (case strtol10 (drop 9 p) of (n, ok) \<Rightarrow> if ok then n else -1), params)
      else if starts_with p ''TYPE=fiy'' \<and> nm = ''X-SOCIALPROFILE'' then Inl (card_user host_domain v)
      else read_params host_domain nm v ps (vis, pid, params @ '';'' @ p))"

definition parse_prop :: "string \<Rightarrow> string \<Rightarrow> string \<Rightarrow> string \<Rightarrow> VC \<Rightarrow> VC" where
  "parse_prop host_domain nm raw_params v c =
     (case read_params host_domain nm v (split_on (CHR '';'') raw_params) (0, -1, []) of
        Inl u \<Rightarrow> c\<lparr>vc_user := u\<rparr>
      | Inr (vis, pid, params) \<Rightarrow>
          c\<lparr>vc_props := vc_props c @ [\<lparr>vp_id = pid, vp_name = nm, vp_params = drop 1 params, vp_value = v, vp_visibility = vis\<rparr>]\<rparr>)"

text \<open>A line; \<open>None\<close> without a colon.\<close>

definition parse_line :: "string \<Rightarrow> int \<Rightarrow> string \<Rightarrow> VC \<Rightarrow> VC option" where
  "parse_line host_domain utc_offset line c =
     (case find_char line (CHR '':'') 0 of
        None \<Rightarrow> None
      | Some k \<Rightarrow>
          (let v = drop (k + 1) line; nm = takeWhile (\<lambda>x. x \<noteq> CHR '';'') (take k line);
               raw_params = drop (length nm) (take k line)
           in Some
             (if nm \<in> set skipped_names then c
              else if nm = ''UID'' then (case stoll v of None \<Rightarrow> c | Some i \<Rightarrow> c\<lparr>vc_id := i\<rparr>)
              else if nm = ''X-FIY-PROFILE'' then c\<lparr>vc_user := card_user host_domain v\<rparr>
              else if nm = ''REV'' then c\<lparr>vc_update_ts := parse_timestamp_str utc_offset v\<rparr>
              else if nm = ''SOURCE'' then c
              else parse_prop host_domain nm raw_params v c)))"

fun parse_lines :: "string \<Rightarrow> int \<Rightarrow> string list \<Rightarrow> VC \<Rightarrow> VC \<times> bool" where
  "parse_lines host_domain utc_offset [] c = (c, True)"
| "parse_lines host_domain utc_offset (l # ls) c =
     (case parse_line host_domain utc_offset l c of None \<Rightarrow> (c, False) | Some c' \<Rightarrow> parse_lines host_domain utc_offset ls c')"

definition parse_card :: "string \<Rightarrow> int \<Rightarrow> string \<Rightarrow> VC \<Rightarrow> VC \<times> bool" where
  "parse_card host_domain utc_offset s c =
     (let t = trim_card s
      in if \<not> starts_with t ''BEGIN:VCARD'' then (c, False)
         else parse_lines host_domain utc_offset (split_lines (unfold_lines t)) c)"

section \<open>Names and the JSON form\<close>

text \<open>
  A part of a structured name from the position \<open>i\<close> on (\<open>None\<close> for \<open>npos\<close>): the position of the semicolon is passed
  to \<open>substr\<close> as a length.
\<close>

definition get_part :: "string \<Rightarrow> nat option \<Rightarrow> string \<times> nat option" where
  "get_part v i =
     (case i of
        None \<Rightarrow> ([], None)
      | Some k \<Rightarrow>
          (if k \<ge> length v then ([], i)
           else case find_char v (CHR '';'') k of
                  None \<Rightarrow> (drop k v, None)
                | Some e \<Rightarrow> (substr v k e, Some (e + 1))))"

fun append_parts :: "string list \<Rightarrow> string \<Rightarrow> bool \<Rightarrow> string" where
  "append_parts [] ret needs_space = ret"
| "append_parts (p # ps) ret needs_space =
     (if p = [] then append_parts ps ret needs_space
      else append_parts ps (ret @ (if needs_space then '' '' else []) @
             map (\<lambda>c. if c = CHR '','' then CHR '' '' else c) p) True)"

definition convert_structured_name :: "string \<Rightarrow> string" where
  "convert_structured_name v =
     (let (surnames, i1) = get_part v (Some 0);
          (given_names, i2) = get_part v i1;
          (additional_names, i3) = get_part v i2;
          (prefixes, i4) = get_part v i3;
          (suffixes, i5) = get_part v i4
      in append_parts [prefixes, given_names, additional_names, surnames, suffixes] [] False)"

text \<open>The first value that is not empty.\<close>

fun first_value :: "string \<Rightarrow> VCProp list \<Rightarrow> string" where
  "first_value nm [] = []"
| "first_value nm (p # ps) = (if vp_name p = nm \<and> vp_value p \<noteq> [] then vp_value p else first_value nm ps)"

definition all_values :: "string \<Rightarrow> VCProp list \<Rightarrow> json" where
  "all_values nm ps = JArray (map (\<lambda>p. JString (vp_value p)) (filter (\<lambda>p. vp_name p = nm) ps))"

definition display_name :: "VCProp list \<Rightarrow> string" where
  "display_name ps =
     (if first_value ''FN'' ps \<noteq> [] then first_value ''FN'' ps
      else case find (\<lambda>p. vp_name p = ''N'') ps of None \<Rightarrow> [] | Some p \<Rightarrow> convert_structured_name (vp_value p))"

definition to_internal_json :: "VC \<Rightarrow> json" where
  "to_internal_json c = JObject
     [(''bio'', JString (first_value ''NOTE'' (vc_props c))), (''email'', JString (first_value ''EMAIL'' (vc_props c))),
      (''name'', JString (display_name (vc_props c))), (''nick'', JString (first_value ''NICKNAME'' (vc_props c))),
      (''socials'', all_values ''X-SOCIALPROFILE'' (vc_props c)), (''websites'', all_values ''URL'' (vc_props c))]"

section \<open>What is written is read back\<close>

subsection \<open>Lines\<close>

definition plain_text :: "string \<Rightarrow> bool" where
  "plain_text s \<longleftrightarrow> CR \<notin> set s \<and> NL \<notin> set s"

definition plain_line :: "string \<Rightarrow> bool" where
  "plain_line l \<longleftrightarrow> l \<noteq> [] \<and> \<not> is_space (hd l) \<and> plain_text l"

lemma space_line_end [simp]: "is_space CR" "is_space NL" "CR \<noteq> NL" "NL \<noteq> CR"
  by (simp_all add: is_space_def CR_def NL_def)

lemma unfold_plain: "plain_text l \<Longrightarrow> unfold_lines (l @ s) = l @ unfold_lines s"
proof (induction l)
  case (Cons c l)
  then have c: "c \<noteq> NL" "plain_text l" by (auto simp: plain_text_def)
  show ?case
  proof (cases "l @ s")
    case Nil
    then show ?thesis by simp
  next
    case (Cons d t)
    have "unfold_lines ((c # l) @ s) = c # unfold_lines (l @ s)" using c by (simp add: Cons)
    with c(2) Cons.IH show ?thesis by simp
  qed
qed simp

lemma unfold_eol: "s \<noteq> [] \<Longrightarrow> \<not> is_space (hd s) \<Longrightarrow> unfold_lines (EOL @ s) = EOL @ unfold_lines s"
  by (cases s) (auto simp: EOL_def)

lemma split_plain: "plain_text l \<Longrightarrow> s = [] \<or> line_end s > 0 \<Longrightarrow> split_lines (l @ s) = l # tl (split_lines s)"
proof (induction l)
  case Nil
  then show ?case by (cases s) (auto simp: split_lines.simps)
next
  case (Cons c l)
  then have c: "c \<noteq> CR" "c \<noteq> NL" "plain_text l" by (auto simp: plain_text_def)
  then have "line_end (c # l @ s) = 0" by (auto simp: line_end_def split: list.split)
  then show ?case using Cons by (simp add: split_lines.simps(2) [of c "l @ s"] c)
qed

lemma split_eol: "s \<noteq> [] \<Longrightarrow> \<not> is_space (hd s) \<Longrightarrow> line_end (EOL @ s) = 2 \<and> split_lines (EOL @ s) = [] # split_lines s"
proof -
  assume s: "s \<noteq> []" "\<not> is_space (hd s)"
  then have e: "line_end (CR # NL # s) = 2" by (simp add: line_end_def)
  then show ?thesis by (simp add: EOL_def split_lines.simps(2) [of CR] e)
qed

lemma lines_of_text:
  assumes "list_all plain_line ls" "plain_line l"
  shows "unfold_lines (concat (map (\<lambda>l. l @ EOL) ls) @ l) = concat (map (\<lambda>l. l @ EOL) ls) @ l \<and>
    split_lines (concat (map (\<lambda>l. l @ EOL) ls) @ l) = ls @ [l]"
  using assms(1)
proof (induction ls)
  case Nil
  show ?case using assms(2) unfold_plain [of l "[]"] split_plain [of l "[]"]
    by (simp add: plain_line_def split_lines.simps)
next
  case (Cons k ls)
  let ?t = "concat (map (\<lambda>l. l @ EOL) ls) @ l"
  have t: "?t \<noteq> []" "\<not> is_space (hd ?t)"
    using Cons.prems assms(2) by (cases ls; auto simp: plain_line_def hd_append)+
  have k: "plain_text k" using Cons.prems by (simp add: plain_line_def)
  have "split_lines (k @ EOL @ ?t) = k # split_lines ?t"
    using split_plain [OF k, of "EOL @ ?t"] split_eol [OF t] by simp
  moreover have "unfold_lines (k @ EOL @ ?t) = k @ EOL @ unfold_lines ?t"
    by (simp only: unfold_plain [OF k] unfold_eol [OF t])
  ultimately show ?case using Cons by simp
qed

lemma card_text_trimmed:
  assumes "list_all plain_line ls"
  shows "trim_card (concat (map (\<lambda>l. l @ EOL) (''BEGIN:VCARD'' # ls)) @ ''END:VCARD'') =
    concat (map (\<lambda>l. l @ EOL) (''BEGIN:VCARD'' # ls)) @ ''END:VCARD''"
  by (simp add: trim_card_def trim_set_def NL_def CR_def)

subsection \<open>Numbers and timestamps\<close>

lemma scan_int_digits:
  assumes "list_all is_digit ds" "length ds = n" "n > 0"
  shows "scan_int n (ds @ rest) = Some (int (read_digits 0 ds), rest)"
proof -
  have ne: "ds \<noteq> []" using assms(2,3) by auto
  then have "hd ds \<in> set ds" by simp
  then have "is_digit (hd ds)" using assms(1) unfolding list_all_iff by blast
  then have h: "\<not> is_space (hd ds)" "hd ds \<noteq> CHR ''-''" "hd ds \<noteq> CHR ''+''" by (auto simp: is_digit_def is_space_def)
  have w: "dropWhile is_space (ds @ rest) = ds @ rest" using ne h(1) by (cases ds) auto
  have tk: "take n (ds @ rest) = ds" "drop (length ds) (ds @ rest) = rest" using assms(2) by simp_all
  have td: "takeWhile is_digit ds = ds" using assms(1) by (simp add: takeWhile_eq_all_conv list_all_iff)
  show ?thesis unfolding scan_int_def Let_def w tk using ne h by (simp add: td)
qed

lemma two_digits_facts:
  assumes "0 \<le> n" "n < 100"
  shows "list_all is_digit (two_digits n) \<and> length (two_digits n) = 2 \<and> int (read_digits 0 (two_digits n)) = n"
proof -
  define k where "k = nat n"
  have n: "n = int k" "k < 100" using assms by (simp_all add: k_def)
  have l: "length (show_nat k) = (if k < 10 then 1 else 2)"
    using show_nat_length [of k 0] show_nat_length [of k 1] show_nat_nonempty [of k] n(2)
    by (cases "length (show_nat k)") auto
  have "read_digits 0 (CHR ''0'' # show_nat k) = k"
    using read_digits_show_nat [of k] by (simp add: is_digit_def)
  then show ?thesis using l read_digits_show_nat [of k] show_nat_list_all [of k] n
    by (simp add: two_digits_def show_int_def is_digit_def)
qed

lemma year_digits:
  assumes "1000 \<le> y" "y \<le> 9999"
  shows "list_all is_digit (show_int y) \<and> length (show_int y) = 4 \<and> int (read_digits 0 (show_int y)) = y"
proof -
  define k where "k = nat y"
  have y: "y = int k" "1000 \<le> k" "k < 10000" using assms by (simp_all add: k_def)
  have "length (show_nat k) \<le> Suc 3" "\<not> length (show_nat k) \<le> Suc 2"
    using show_nat_length [of k 3] show_nat_length [of k 2] y by simp_all
  then show ?thesis using read_digits_show_nat [of k] show_nat_list_all [of k] y by (simp add: show_int_def)
qed

lemma timestamp_roundtrip:
  assumes "0 \<le> t" "t < 253402300800"
  shows "\<exists>r. get_timestamp_str t = Inr r \<and> parse_timestamp_str 0 r = t \<and> plain_text r"
proof -
  define days where "days = t div 86400"
  define s where "s = t mod 86400"
  define hh where "hh = s div 3600"
  define mi where "mi = s div 60 mod 60"
  define ss where "ss = s mod 60"
  obtain y m d where ymd: "civil_from_days days = (y, m, d)" using prod_cases3 by blast
  have s: "0 \<le> s" "s < 86400" by (simp_all add: s_def)
  have days: "0 \<le> days" "days < 2932897" using assms unfolding days_def by linarith+
  have dc: "days_from_civil y m d = days" "1 \<le> m" "m \<le> 12" "1 \<le> d" "d \<le> 31" using days_of_civil [OF ymd] by auto
  have y: "1000 \<le> y" "y \<le> 9999" using civil_year_bounds [OF days ymd] by auto
  have hms: "0 \<le> hh" "hh < 24" "0 \<le> mi" "mi < 60" "0 \<le> ss" "ss < 60" using s unfolding hh_def mi_def ss_def by linarith+
  have "hh = s div 60 div 60" using zdiv_zmult2_eq [of 60 s 60] by (simp add: hh_def)
  then have "hh * 60 + mi = s div 60" unfolding mi_def using div_mult_mod_eq [of "s div 60" 60] by simp
  moreover have "s div 60 * 60 + ss = s" unfolding ss_def by (rule div_mult_mod_eq)
  ultimately have sum: "hh * 3600 + mi * 60 + ss = s" by linarith
  define r where "r = show_int y @ two_digits m @ two_digits d @ ''T'' @ two_digits hh @ two_digits mi @ two_digits ss @ ''Z''"
  have two: "list_all is_digit (two_digits n)" "length (two_digits n) = 2" "int (read_digits 0 (two_digits n)) = n"
    if "0 \<le> n" "n < 100" for n using two_digits_facts [OF that] by auto
  have yd: "list_all is_digit (show_int y)" "length (show_int y) = 4" "int (read_digits 0 (show_int y)) = y"
    using year_digits [OF y] by auto
  have scan2: "scan_int 2 (two_digits n @ rest) = Some (n, rest)" if "0 \<le> n" "n < 100" for n rest
    using scan_int_digits [OF two(1,2) [OF that]] two(3) [OF that] by simp
  have scan4: "scan_int 4 (show_int y @ rest) = Some (y, rest)" for rest
    using scan_int_digits [OF yd(1,2)] yd(3) by simp
  have r16: "length r = 16" using yd(2) two(2) dc hms by (simp add: r_def)
  have "scan_fields timestamp_format r = [y, m, d, hh, mi, ss]"
    unfolding timestamp_format_def r_def using dc hms by (simp add: scan2 scan4)
  then have "parse_timestamp_str 0 r = days * 86400 + s"
    using dc(1) sum by (simp add: parse_timestamp_str_def Let_def)
  also have "\<dots> = t" by (simp add: days_def s_def)
  finally have p: "parse_timestamp_str 0 r = t" .
  have "get_timestamp_str t = (if length r > 16 then Inl UndefinedBehaviour else Inr r)"
    unfolding get_timestamp_str_def Let_def days_def [symmetric] s_def [symmetric] hh_def [symmetric] mi_def [symmetric]
      ss_def [symmetric] ymd prod.case r_def by (rule refl)
  then have g: "get_timestamp_str t = Inr r" by (simp only: r16) simp
  have "list_all (\<lambda>c. is_digit c \<or> c = CHR ''T'' \<or> c = CHR ''Z'') r"
    unfolding r_def using yd(1) two(1) [of m] two(1) [of d] two(1) [of hh] two(1) [of mi] two(1) [of ss] dc hms
    by (auto simp: list_all_iff)
  then have "plain_text r" by (auto simp: plain_text_def list_all_iff CR_def NL_def is_digit_def)
  with g p show ?thesis by blast
qed

subsection \<open>Property lines\<close>

definition other_param :: "string \<Rightarrow> string \<Rightarrow> bool" where
  "other_param nm p \<longleftrightarrow> p \<noteq> [] \<and> \<not> starts_with p ''X-FIY-VISIBILITY='' \<and> \<not> starts_with p ''X-FIY-ID='' \<and>
     \<not> (starts_with p ''TYPE=fiy'' \<and> nm = ''X-SOCIALPROFILE'')"

definition plain_prop :: "VCProp \<Rightarrow> bool" where
  "plain_prop p \<longleftrightarrow> plain_line (vp_name p) \<and> plain_text (vp_params p) \<and> plain_text (vp_value p) \<and>
     CHR '':'' \<notin> set (vp_name p @ vp_params p) \<and> CHR '';'' \<notin> set (vp_name p) \<and>
     vp_name p \<notin> set (skipped_names @ [''UID'', ''X-FIY-PROFILE'', ''REV'', ''SOURCE'']) \<and>
     (vp_params p \<noteq> [] \<longrightarrow> list_all (other_param (vp_name p)) (split_on (CHR '';'') (vp_params p))) \<and>
     0 \<le> vp_visibility p \<and> vp_visibility p \<le> 3 \<and> -1 \<le> vp_id p \<and> vp_id p < 2 ^ 63"

abbreviation param_list :: "string list \<Rightarrow> string" where
  "param_list ps \<equiv> concat (map ((#) (CHR '';'')) ps)"

definition prop_pieces :: "bool \<Rightarrow> VCProp \<Rightarrow> string list" where
  "prop_pieces own p =
     (if vp_params p = [] then [] else split_on (CHR '';'') (vp_params p)) @
     (if vp_visibility p \<noteq> 0 \<or> own then [''X-FIY-VISIBILITY='' @ [char_of (nat ((48 + vp_visibility p) mod 256))]] else []) @
     (if vp_id p \<ge> 0 then [''X-FIY-ID='' @ show_int (vp_id p)] else [])"

lemma param_list_split: "param_list (split_on (CHR '';'') s) = CHR '';'' # s"
proof (induction s)
  case (Cons c s)
  then show ?case by (cases "split_on (CHR '';'') s") auto
qed simp

lemma split_param_list:
  "\<forall>p \<in> set ps. CHR '';'' \<notin> set p \<Longrightarrow> split_on (CHR '';'') (param_list ps) = [] # ps"
proof (induction ps rule: rev_induct)
  case (snoc p ps)
  have "split_on (CHR '';'') (param_list ps @ CHR '';'' # p) = split_on (CHR '';'') (param_list ps) @ [p]"
    using snoc.prems by (simp only: split_on_append) (simp add: split_on_absent)
  with snoc show ?case by simp
qed simp

lemma split_on_absent_pieces: "p \<in> set (split_on d s) \<Longrightarrow> d \<notin> set p \<and> set p \<subseteq> set s"
proof (induction s arbitrary: p)
  case (Cons c s)
  then show ?case by (cases "split_on d s"; cases "c = d") fastforce+
qed simp

lemma prop_line_pieces: "prop_line own p = vp_name p @ param_list (prop_pieces own p) @ CHR '':'' # vp_value p"
  by (simp add: prop_line_def prop_pieces_def param_list_split)

lemma read_plain_params:
  "list_all (other_param nm) ps \<Longrightarrow> read_params h nm v (ps @ qs) (vis, pid, params) = read_params h nm v qs (vis, pid, params @ param_list ps)"
  by (induction ps arbitrary: params) (auto simp: other_param_def)

lemma visibility_char:
  assumes "0 \<le> v" "v \<le> 3"
  shows "read_visibility [char_of (nat ((48 + v) mod 256))] = v \<and> list_all is_digit [char_of (nat ((48 + v) mod 256))]"
proof -
  consider "v = 0" | "v = 1" | "v = 2" | "v = 3" using assms by linarith
  then show ?thesis by cases (simp_all add: read_visibility_def to_int8_def is_digit_def code_char_of)
qed

lemma show_int_digits: "0 \<le> i \<Longrightarrow> list_all is_digit (show_int i)"
  by (simp add: show_int_def show_nat_list_all)

lemma digits_plain: "list_all is_digit s \<Longrightarrow> plain_text s \<and> CHR '';'' \<notin> set s \<and> CHR '':'' \<notin> set s"
  by (auto simp: plain_text_def list_all_iff is_digit_def CR_def NL_def)

lemma pieces_read:
  assumes "plain_prop p"
  shows "read_params h (vp_name p) v (prop_pieces own p) (0, -1, []) =
    Inr (vp_visibility p, vp_id p, if vp_params p = [] then [] else CHR '';'' # vp_params p)"
proof -
  let ?ps = "if vp_params p = [] then [] else split_on (CHR '';'') (vp_params p)"
  have ps: "list_all (other_param (vp_name p)) ?ps" "param_list ?ps = (if vp_params p = [] then [] else CHR '';'' # vp_params p)"
    using assms by (auto simp: plain_prop_def param_list_split)
  have v: "read_visibility [char_of (nat ((48 + vp_visibility p) mod 256))] = vp_visibility p"
    using assms visibility_char by (simp add: plain_prop_def)
  have i: "vp_id p < 0 \<longrightarrow> vp_id p = -1" "vp_id p \<ge> 0 \<longrightarrow> strtol10 (show_int (vp_id p)) = (vp_id p, True)"
    using assms strtol10_show_nat [of "nat (vp_id p)"] by (auto simp: plain_prop_def show_int_def zless_nat_conj nat_less_iff)
  have w: "starts_with (''X-FIY-VISIBILITY='' @ t) ''X-FIY-VISIBILITY=''" "drop 17 (''X-FIY-VISIBILITY='' @ t) = t"
    "\<not> starts_with (''X-FIY-ID='' @ t) ''X-FIY-VISIBILITY=''" "starts_with (''X-FIY-ID='' @ t) ''X-FIY-ID=''"
    "drop 9 (''X-FIY-ID='' @ t) = t" for t by (simp_all add: starts_with_def)
  show ?thesis using i v
    by (simp add: prop_pieces_def read_plain_params [OF ps(1)] ps(2) starts_with_def)
qed

lemma parse_line_parts:
  assumes "CHR '':'' \<notin> set (nm @ raw)" "CHR '';'' \<notin> set nm" "raw = [] \<or> hd raw = CHR '';''"
  shows "parse_line h o' (nm @ raw @ CHR '':'' # v) c = Some
     (if nm \<in> set skipped_names then c
      else if nm = ''UID'' then (case stoll v of None \<Rightarrow> c | Some i \<Rightarrow> c\<lparr>vc_id := i\<rparr>)
      else if nm = ''X-FIY-PROFILE'' then c\<lparr>vc_user := card_user h v\<rparr>
      else if nm = ''REV'' then c\<lparr>vc_update_ts := parse_timestamp_str o' v\<rparr>
      else if nm = ''SOURCE'' then c else parse_prop h nm raw v c)"
proof -
  have f: "find_char (nm @ raw @ CHR '':'' # v) (CHR '':'') 0 = Some (length (nm @ raw))"
    using find_char_append_hit [OF assms(1), of v] by simp
  have "takeWhile (\<lambda>x. x \<noteq> CHR '';'') (nm @ raw) = nm @ takeWhile (\<lambda>x. x \<noteq> CHR '';'') raw"
    using assms(2) by (subst takeWhile_append2) auto
  also have "\<dots> = nm" using assms(3) by (cases raw) auto
  finally have t: "takeWhile (\<lambda>x. x \<noteq> CHR '';'') (nm @ raw) = nm" .
  have k: "take (length (nm @ raw)) (nm @ raw @ CHR '':'' # v) = nm @ raw" "drop (length (nm @ raw) + 1) (nm @ raw @ CHR '':'' # v) = v"
    by simp_all
  show ?thesis unfolding parse_line_def f option.case Let_def k t by simp
qed

lemma parse_fixed_lines:
  "parse_line h o' (''BEGIN:VCARD'') c = Some c" "parse_line h o' (''VERSION:4.0'') c = Some c"
  "parse_line h o' (''END:VCARD'') c = Some c" "parse_line h o' (''SOURCE:'' @ v) c = Some c"
  "parse_line h o' (''UID:'' @ v) c = Some (case stoll v of None \<Rightarrow> c | Some i \<Rightarrow> c\<lparr>vc_id := i\<rparr>)"
  "parse_line h o' (''X-FIY-PROFILE:'' @ v) c = Some (c\<lparr>vc_user := card_user h v\<rparr>)"
  "parse_line h o' (''REV:'' @ v) c = Some (c\<lparr>vc_update_ts := parse_timestamp_str o' v\<rparr>)"
  "parse_line h o' (''X-SOCIALPROFILE;TYPE=fiy:'' @ v) c = Some (c\<lparr>vc_user := card_user h v\<rparr>)"
  "parse_line h o' (''FN:'' @ v) c = Some (c\<lparr>vc_props := vc_props c @ [new_prop\<lparr>vp_name := ''FN'', vp_value := v\<rparr>]\<rparr>)"
  using parse_line_parts [of "''BEGIN''" "[]" h o' "''VCARD''" c] parse_line_parts [of "''VERSION''" "[]" h o' "''4.0''" c]
    parse_line_parts [of "''END''" "[]" h o' "''VCARD''" c] parse_line_parts [of "''SOURCE''" "[]" h o' v c]
    parse_line_parts [of "''UID''" "[]" h o' v c] parse_line_parts [of "''X-FIY-PROFILE''" "[]" h o' v c]
    parse_line_parts [of "''REV''" "[]" h o' v c] parse_line_parts [of "''X-SOCIALPROFILE''" "'';TYPE=fiy''" h o' v c]
    parse_line_parts [of "''FN''" "[]" h o' v c]
  by (simp_all add: skipped_names_def parse_prop_def new_prop_def starts_with_def)

lemma parse_plain_prop:
  assumes "plain_prop p"
  shows "parse_line h o' (prop_line own p) c = Some (c\<lparr>vc_props := vc_props c @ [p]\<rparr>) \<and> plain_line (prop_line own p)"
proof -
  let ?ps = "prop_pieces own p"
  have ds: "plain_text (show_int (vp_id p)) \<and> CHR '';'' \<notin> set (show_int (vp_id p)) \<and> CHR '':'' \<notin> set (show_int (vp_id p))"
    if "vp_id p \<ge> 0" using digits_plain [OF show_int_digits [OF that]] .
  have v: "list_all is_digit [char_of (nat ((48 + vp_visibility p) mod 256))]"
    using visibility_char assms by (simp add: plain_prop_def)
  have pieces: "plain_text q \<and> CHR '';'' \<notin> set q \<and> CHR '':'' \<notin> set q" if "q \<in> set ?ps" for q
    using that ds digits_plain [OF v] assms split_on_absent_pieces [of q "CHR '';''" "vp_params p"]
    by (auto simp: prop_pieces_def plain_prop_def plain_text_def CR_def NL_def split: if_splits)
  have raw: "CHR '':'' \<notin> set (param_list ?ps) \<and> plain_text (param_list ?ps)"
    using pieces by (auto simp: plain_text_def CR_def NL_def)
  have hd: "param_list ?ps = [] \<or> hd (param_list ?ps) = CHR '';''" by (cases ?ps) auto
  have split: "read_params h (vp_name p) (vp_value p) (split_on (CHR '';'') (param_list ?ps)) (0, -1, []) =
      Inr (vp_visibility p, vp_id p, if vp_params p = [] then [] else CHR '';'' # vp_params p)"
    using split_param_list [of ?ps] pieces pieces_read [OF assms, of h "vp_value p" own] by simp
  have "parse_prop h (vp_name p) (param_list ?ps) (vp_value p) c = c\<lparr>vc_props := vc_props c @ [p]\<rparr>"
    unfolding parse_prop_def split by simp
  then have "parse_line h o' (prop_line own p) c = Some (c\<lparr>vc_props := vc_props c @ [p]\<rparr>)"
    unfolding prop_line_pieces using assms raw hd by (subst parse_line_parts) (auto simp: plain_prop_def)
  moreover have "plain_line (prop_line own p)"
    unfolding prop_line_pieces using assms raw by (auto simp: plain_prop_def plain_line_def plain_text_def CR_def NL_def)
  ultimately show ?thesis by simp
qed

lemma parse_plain_props:
  "list_all plain_prop ps \<Longrightarrow>
    parse_lines h o' (map (prop_line own) ps @ ls) c = parse_lines h o' ls (c\<lparr>vc_props := vc_props c @ ps\<rparr>)"
  by (induction ps arbitrary: c) (simp_all add: parse_plain_prop)

lemma stoll_show_int: "0 \<le> i \<Longrightarrow> i < 2 ^ 63 \<Longrightarrow> stoll (show_int i) = Some i"
proof -
  assume i: "0 \<le> i" "i < 2 ^ 63"
  then have s: "show_int i = show_nat (nat i)" by (simp add: show_int_def)
  have ne: "show_nat (nat i) \<noteq> []" by (rule show_nat_nonempty)
  have dw: "dropWhile is_space (show_nat (nat i)) = show_nat (nat i)" using ne show_nat_hd [of "nat i"] by (cases "show_nat (nat i)") auto
  have tw: "takeWhile is_digit (show_nat (nat i)) = show_nat (nat i)" using show_nat_digits by (simp add: takeWhile_eq_all_conv)
  show ?thesis unfolding s stoll_def Let_def dw using show_nat_hd [of "nat i"] i by (simp add: tw ne read_digits_show_nat)
qed

subsection \<open>Cards\<close>

definition plain_card :: "string \<Rightarrow> string \<Rightarrow> VC \<Rightarrow> bool" where
  "plain_card mod_uri host_domain c \<longleftrightarrow> plain_text mod_uri \<and> plain_text host_domain \<and> plain_text (vc_user c) \<and> CHR ''@'' \<notin> set (vc_user c) \<and>
     -1 \<le> vc_id c \<and> vc_id c < 2 ^ 63 \<and> 0 \<le> vc_update_ts c \<and> vc_update_ts c < 253402300800 \<and> \<not> invalid_card c \<and>
     list_all plain_prop (vc_props c)"

text \<open>A card without a name gets the user as its name.\<close>

definition named_card :: "VC \<Rightarrow> VC" where
  "named_card c = (if has_name c then c else c\<lparr>vc_props := vc_props c @ [new_prop\<lparr>vp_name := ''FN'', vp_value := vc_user c\<rparr>]\<rparr>)"

lemma parse_lines_append:
  "parse_lines h o' (ls @ ks) c = (case parse_lines h o' ls c of (d, ok) \<Rightarrow> if ok then parse_lines h o' ks d else (d, False))"
  by (induction ls arbitrary: c) (auto split: option.split)

lemma card_user_here: "CHR ''@'' \<notin> set u \<Longrightarrow> card_user h (u @ CHR ''@'' # h) = u"
  using split_user_str_at [of u h h] by (simp add: card_user_def)

lemma card_lines_plain:
  assumes "plain_card mod_uri h c" "list_all plain_line rl"
  shows "list_all plain_line (card_lines mod_uri h rl c)"
proof -
  have i: "plain_text (show_int (vc_id c))" if "vc_id c \<ge> 0" using digits_plain [OF show_int_digits [OF that]] by simp
  have "list_all plain_line (map (prop_line own) (vc_props c))" for own
    using assms(1) parse_plain_prop by (auto simp: plain_card_def list_all_iff)
  moreover have "plain_text mod_uri" "plain_text h" "plain_text (vc_user c)" using assms(1) by (simp_all add: plain_card_def)
  ultimately show ?thesis using i assms(2) by (simp add: card_lines_def plain_line_def plain_text_def is_space_def CR_def NL_def)
qed

lemma card_lines_read:
  assumes "plain_card mod_uri h c"
    and rl: "\<And>d. parse_lines h o' rl d = (if vc_update_ts c = 0 then d else d\<lparr>vc_update_ts := vc_update_ts c\<rparr>, True)"
  shows "parse_lines h o' (card_lines mod_uri h rl c @ [''END:VCARD'']) (new_card\<lparr>vc_owner := vc_owner c\<rparr>) = (named_card c, True)"
proof -
  have c: "-1 \<le> vc_id c" "vc_id c < 2 ^ 63" "CHR ''@'' \<notin> set (vc_user c)" "list_all plain_prop (vc_props c)"
    using assms(1) by (simp_all add: plain_card_def)
  have i: "vc_id c \<ge> 0 \<Longrightarrow> stoll (show_int (vc_id c)) = Some (vc_id c)" using stoll_show_int c(2) by simp
  have "\<not> vc_id c \<ge> 0 \<Longrightarrow> vc_id c = -1" using c(1) by simp
  then show ?thesis
    using parse_plain_props [OF c(4)]
    by (auto simp: card_lines_def named_card_def parse_lines_append parse_fixed_lines parse_fixed_lines(4-9) [simplified append.simps]
      i rl card_user_here c(3) new_card_def)
qed



section \<open>Structured names\<close>

lemma append_parts_mem: "c \<noteq> CHR '','' \<Longrightarrow> c \<in> set ret \<or> (\<exists>p \<in> set ps. c \<in> set p) \<Longrightarrow> c \<in> set (append_parts ps ret b)"
  by (induction ps arbitrary: ret b) auto

text \<open>The given name of a structured name of three or more parts runs into the parts after it.\<close>

lemma structured_name_semicolon:
  assumes "CHR '';'' \<notin> set a" "CHR '';'' \<notin> set b"
  shows "CHR '';'' \<in> set (convert_structured_name (a @ '';'' @ b @ '';'' @ rest))"
proof -
  let ?v = "a @ '';'' @ b @ '';'' @ rest"
  have f1: "find_char ?v (CHR '';'') 0 = Some (length a)"
    using find_char_append_hit [OF assms(1), of "b @ '';'' @ rest"] by simp
  have f2: "find_char ?v (CHR '';'') (Suc (length a)) = Some (Suc (length a) + length b)"
    using find_char_hit_at [OF assms(2), of "a @ '';''" rest] by simp
  have p1: "get_part ?v (Some 0) = (a, Some (Suc (length a)))"
    unfolding get_part_def by (simp only: option.case f1) (simp add: substr_def)
  have p2: "get_part ?v (Some (Suc (length a))) =
      (b @ '';'' @ take (length a) rest, Some (Suc (Suc (length a) + length b)))"
    unfolding get_part_def by (simp only: option.case f2) (simp add: substr_def)
  have "\<exists>xs ys. convert_structured_name ?v = append_parts (xs @ (b @ '';'' @ take (length a) rest) # ys) [] False"
    unfolding convert_structured_name_def p1 p2 Let_def prod.case
    by (simp only: split_beta) (metis append_Cons append_Nil)
  then show ?thesis by (auto intro!: append_parts_mem)
qed

lemma structured_name_example: "convert_structured_name ''Doe;Jane;Q;Dr;'' = ''Dr; Jane;Q;D Q;Dr; Doe''"
  by code_simp

end
