(* ===== verification/Contacts.thy ===== *)
theory Contacts
  imports VCard
begin

text \<open>
  The database of the contacts mod (\<open>mods/contacts/src/DB.cpp\<close>, \<open>db.sql\<close>). The tables are lists of rows; the
  number of a new card is one that was never used (AUTOINCREMENT), the number of any other row is one
  more than the largest. A save can fail: \<open>fault\<close> is \<open>Some 0\<close> when the card itself cannot be stored, \<open>Some (Suc k)\<close> when
  a statement throws after \<open>k\<close> properties; the transaction is then rolled back.
  Queries do not fail. A statement on a column that its table does not have throws when it is prepared.

  The tables are read as a map of cards. Shown: a save updates that map at one card of its owner, or nothing; a
  deleted user leaves nothing behind; every operation keeps the tables consistent; who sees which property of a profile.
\<close>

section \<open>The tables\<close>

record card_row =
  cw_id :: int
  cw_owner :: string
  cw_user :: "string option"
  cw_update_ts :: int

record prop_row =
  pw_id :: int
  pw_name :: string
  pw_params :: string
  pw_value :: string

text \<open>A row of \<open>CardProperties\<close> or of \<open>ProfileCardProperties\<close>; only the second table has a visibility.\<close>

record link_row =
  lk_rowid :: int
  lk_card :: int
  lk_prop :: int
  lk_visibility :: int

record contacts_db =
  ct_cards :: "card_row list"
  ct_next_card :: int
  ct_props :: "prop_row list"
  ct_card_links :: "link_row list"
  ct_profile_links :: "link_row list"
  ct_shares :: "(int \<times> string \<times> string) list"

definition empty_contacts :: contacts_db where
  "empty_contacts = \<lparr>ct_cards = [], ct_next_card = 1, ct_props = [], ct_card_links = [], ct_profile_links = [], ct_shares = []\<rparr>"

datatype db_outcome = Success | Unauthorized | NotFound | Error

definition next_id :: "int list \<Rightarrow> int" where
  "next_id is = 1 + Max (set (0 # is))"

text \<open>The statement is reset before its columns are read; a column of a statement without a row throws.\<close>

definition is_profile_card :: "contacts_db \<Rightarrow> int \<Rightarrow> bool result" where
  "is_profile_card db i = (if list_ex (\<lambda>c. cw_id c = i) (ct_cards db) then Inl DatabaseError else Inr False)"

section \<open>Saving\<close>

definition user_column :: "VC \<Rightarrow> string option" where
  "user_column c = (if vc_user c = [] then None else Some (vc_user c))"

definition insert_prop :: "VCProp \<Rightarrow> contacts_db \<Rightarrow> contacts_db \<times> int" where
  "insert_prop p db =
     (let i = next_id (map pw_id (ct_props db))
      in (db\<lparr>ct_props := ct_props db @ [\<lparr>pw_id = i, pw_name = vp_name p, pw_params = vp_params p, pw_value = vp_value p\<rparr>]\<rparr>, i))"

text \<open>One property: the row, the link, and as its number the last row that was inserted, which is that of the link.\<close>

definition store_prop :: "VC \<Rightarrow> VCProp \<Rightarrow> contacts_db \<Rightarrow> contacts_db \<times> VCProp" where
  "store_prop c p db0 =
     (let (db, i) = insert_prop p db0
      in if vc_owner c = vc_user c then
           (let r = next_id (map lk_rowid (ct_profile_links db))
            in (db\<lparr>ct_profile_links := ct_profile_links db @
                     [\<lparr>lk_rowid = r, lk_card = vc_id c, lk_prop = i, lk_visibility = vp_visibility p\<rparr>]\<rparr>, p\<lparr>vp_id := r\<rparr>))
         else
           (let r = next_id (map lk_rowid (ct_card_links db))
            in (db\<lparr>ct_card_links := ct_card_links db @
                     [\<lparr>lk_rowid = r, lk_card = vc_id c, lk_prop = i, lk_visibility = 0\<rparr>]\<rparr>, p\<lparr>vp_id := r\<rparr>)))"

fun store_props :: "VC \<Rightarrow> VCProp list \<Rightarrow> contacts_db \<Rightarrow> contacts_db \<times> VCProp list" where
  "store_props c [] db = (db, [])"
| "store_props c (p # ps) db =
     (let (db1, p1) = store_prop c p db; (db2, ps1) = store_props c ps db1 in (db2, p1 # ps1))"

text \<open>The card with the properties that were stored before a fault.\<close>

definition stored_until :: "nat \<Rightarrow> VC \<Rightarrow> contacts_db \<Rightarrow> VC" where
  "stored_until k c db = c\<lparr>vc_props := snd (store_props c (take k (vc_props c)) db) @ drop k (vc_props c)\<rparr>"

definition create_new_contact :: "int \<Rightarrow> nat option \<Rightarrow> contacts_db \<Rightarrow> VC \<Rightarrow> contacts_db \<times> VC \<times> db_outcome" where
  "create_new_contact now fault db c =
     (if fault = Some 0 then (db, c, Error)
      else let i = ct_next_card db;
               c1 = c\<lparr>vc_id := i, vc_update_ts := now\<rparr>;
               db1 = db\<lparr>ct_next_card := i + 1,
                  ct_cards := ct_cards db @ [\<lparr>cw_id = i, cw_owner = vc_owner c, cw_user = user_column c, cw_update_ts = now\<rparr>]\<rparr>
           in case fault of
                Some k \<Rightarrow> (db, stored_until (k - 1) c1 db1, Error)
              | None \<Rightarrow> (case store_props c1 (vc_props c1) db1 of (db2, ps) \<Rightarrow> (db2, c1\<lparr>vc_props := ps\<rparr>, Success)))"

definition prune_properties :: "contacts_db \<Rightarrow> contacts_db" where
  "prune_properties db =
     db\<lparr>ct_props := filter (\<lambda>p. pw_id p \<in> set (map lk_prop (ct_profile_links db)) \<union> set (map lk_prop (ct_card_links db)))
          (ct_props db)\<rparr>"

definition unlink_card :: "int \<Rightarrow> contacts_db \<Rightarrow> contacts_db" where
  "unlink_card i db =
     db\<lparr>ct_card_links := filter (\<lambda>l. lk_card l \<noteq> i) (ct_card_links db),
        ct_profile_links := filter (\<lambda>l. lk_card l \<noteq> i) (ct_profile_links db)\<rparr>"

definition update_contact :: "int \<Rightarrow> nat option \<Rightarrow> contacts_db \<Rightarrow> VC \<Rightarrow> contacts_db \<times> VC \<times> db_outcome" where
  "update_contact now fault db c =
     (let c1 = c\<lparr>vc_update_ts := now\<rparr>;
          mine = (\<lambda>r. cw_id r = vc_id c \<and> cw_owner r = vc_owner c)
      in if fault = Some 0 then (db, c1, Error)
         else if \<not> list_ex mine (ct_cards db) then (db, c1, Unauthorized)
         else let db1 = db\<lparr>ct_cards := map (\<lambda>r. if mine r then r\<lparr>cw_user := user_column c, cw_update_ts := now\<rparr> else r) (ct_cards db)\<rparr>;
                  db2 = prune_properties (unlink_card (vc_id c) db1)
              in case fault of
                   Some k \<Rightarrow> (db, stored_until (k - 1) c1 db2, Error)
                 | None \<Rightarrow> (case store_props c1 (vc_props c1) db2 of (db3, ps) \<Rightarrow> (db3, c1\<lparr>vc_props := ps\<rparr>, Success)))"

definition save_contact :: "int \<Rightarrow> nat option \<Rightarrow> contacts_db \<Rightarrow> VC \<Rightarrow> contacts_db \<times> VC \<times> db_outcome" where
  "save_contact now fault db c = (if vc_id c < 0 then create_new_contact now fault db c else update_contact now fault db c)"

section \<open>Reading\<close>

definition prop_of_row :: "prop_row \<Rightarrow> VCProp" where
  "prop_of_row r = \<lparr>vp_id = pw_id r, vp_name = pw_name r, vp_params = pw_params r, vp_value = pw_value r, vp_visibility = 0\<rparr>"

definition props_in :: "contacts_db \<Rightarrow> int set \<Rightarrow> VCProp list" where
  "props_in db is = map prop_of_row (filter (\<lambda>r. pw_id r \<in> is) (ct_props db))"

text \<open>The card that the subquery on owner and user gives: the first one, if any.\<close>

definition profile_id :: "contacts_db \<Rightarrow> string \<Rightarrow> int option" where
  "profile_id db user =
     (case find (\<lambda>r. cw_user r = Some user \<and> cw_owner r = user) (ct_cards db) of None \<Rightarrow> None | Some r \<Rightarrow> Some (cw_id r))"

record contacts_host =
  ch_domain :: string
  ch_base_uri :: string
  ch_now :: int
  ch_user_exists :: "string \<Rightarrow> bool"
  ch_files :: "string \<Rightarrow> string"
  ch_data_dir :: string
  ch_utc_offset :: int
  ch_decode64 :: "string \<Rightarrow> string"
  ch_timezones :: string
  ch_fault :: "nat option"

definition get_profile_base :: "contacts_host \<Rightarrow> contacts_db \<Rightarrow> string \<Rightarrow> contacts_db \<times> VC" where
  "get_profile_base h db user =
     (if find_char user (CHR ''@'') 0 \<noteq> None then (db, new_card)
      else let c = new_card\<lparr>vc_user := user, vc_owner := user\<rparr>
           in case find (\<lambda>r. cw_user r = Some user \<and> cw_owner r = user) (ct_cards db) of
                Some r \<Rightarrow> (db, c\<lparr>vc_id := cw_id r, vc_update_ts := cw_update_ts r\<rparr>)
              | None \<Rightarrow>
                  (if \<not> ch_user_exists h user then (db, c)
                   else case save_contact (ch_now h) (ch_fault h) db c of (db1, c1, res) \<Rightarrow> (db1, c1)))"

definition visibility_level :: "string \<Rightarrow> string option \<Rightarrow> string option \<Rightarrow> int" where
  "visibility_level user req_user req_domain =
     (case req_user of
        None \<Rightarrow> 3
      | Some u \<Rightarrow> (case req_domain of None \<Rightarrow> (if user \<noteq> u then 1 else 0) | Some d \<Rightarrow> 2))"

definition profile_prop_ids :: "contacts_db \<Rightarrow> string \<Rightarrow> int \<Rightarrow> int set" where
  "profile_prop_ids db user level =
     (case profile_id db user of
        None \<Rightarrow> {}
      | Some i \<Rightarrow> set (map lk_prop (filter (\<lambda>l. lk_card l = i \<and> lk_visibility l \<ge> level) (ct_profile_links db))))"

definition contact_prop_ids :: "contacts_db \<Rightarrow> string \<Rightarrow> string \<Rightarrow> int set" where
  "contact_prop_ids db owner user =
     (let cards = set (map cw_id (filter (\<lambda>r. cw_owner r = owner \<and> cw_user r = Some user) (ct_cards db)))
      in set (map lk_prop (filter (\<lambda>l. lk_card l \<in> cards) (ct_card_links db))))"

definition get_profile :: "contacts_host \<Rightarrow> contacts_db \<Rightarrow> string \<Rightarrow> string option \<Rightarrow> string option \<Rightarrow> contacts_db \<times> VC" where
  "get_profile h db user req_user req_domain =
     (let level = visibility_level user req_user req_domain
      in case get_profile_base h db user of (db1, c) \<Rightarrow>
           if invalid_card c then (db1, new_card)
           else (db1, c\<lparr>vc_props := vc_props c @ props_in db1
             (if level = 0 \<or> level = 1
              then profile_prop_ids db1 user level \<union>
                   (case req_user of None \<Rightarrow> {} | Some u \<Rightarrow> contact_prop_ids db1 u user)
              else profile_prop_ids db1 user level)\<rparr>))"

text \<open>The cards of a user in order; the first profile card with its visibilities, other cards with theirs.\<close>

definition profile_props :: "contacts_db \<Rightarrow> int \<Rightarrow> VCProp list" where
  "profile_props db i =
     concat (map (\<lambda>r. map (\<lambda>l. (prop_of_row r)\<lparr>vp_visibility := lk_visibility l\<rparr>)
       (filter (\<lambda>l. lk_prop l = pw_id r \<and> lk_card l = i) (ct_profile_links db))) (ct_props db))"

fun rolodex_cards :: "string \<Rightarrow> string \<Rightarrow> contacts_db \<Rightarrow> string \<Rightarrow> card_row list \<Rightarrow> bool \<Rightarrow> (string \<times> bool) result" where
  "rolodex_cards mod_uri host_domain db user [] found = Inr ([], found)"
| "rolodex_cards mod_uri host_domain db user (r # rs) found =
     (let cuser = (case cw_user r of None \<Rightarrow> [] | Some u \<Rightarrow> u);
          plain = (found \<or> cuser \<noteq> user);
          c = \<lparr>vc_id = cw_id r, vc_owner = user, vc_user = cuser, vc_update_ts = cw_update_ts r,
               vc_props = (if plain then props_in db (set (map lk_prop (filter (\<lambda>l. lk_card l = cw_id r) (ct_card_links db))))
                           else profile_props db (cw_id r))\<rparr>
      in bind_result (to_vcard mod_uri host_domain c) (\<lambda>t.
         bind_result (rolodex_cards mod_uri host_domain db user rs (found \<or> \<not> plain)) (\<lambda>(ts, f). Inr (t @ [NL] @ ts, f))))"

text \<open>For a missing profile the domain is given as an empty text, which is not a null pointer.\<close>

definition get_user_rolodex :: "contacts_host \<Rightarrow> contacts_db \<Rightarrow> string \<Rightarrow> (contacts_db \<times> string) result" where
  "get_user_rolodex h db user =
     bind_result (rolodex_cards (ch_base_uri h) (ch_domain h) db user (filter (\<lambda>r. cw_owner r = user) (ct_cards db)) False) (\<lambda>(t, found).
       if found then Inr (db, t)
       else case get_profile h db user (Some user) (Some []) of (db1, c) \<Rightarrow>
              bind_result (to_vcard (ch_base_uri h) (ch_domain h) c) (\<lambda>p. Inr (db1, t @ p)))"

text \<open>The first photo that is not empty: of the requester's contacts for the user, then of the user's profile.\<close>

definition first_photo :: "contacts_db \<Rightarrow> int set \<Rightarrow> string option" where
  "first_photo db is =
     (case filter (\<lambda>r. pw_id r \<in> is \<and> pw_name r = ''PHOTO'' \<and> pw_value r \<noteq> []) (ct_props db) of
        [] \<Rightarrow> None | r # rs \<Rightarrow> Some (pw_value r))"

definition get_pfp_value :: "contacts_db \<Rightarrow> string \<Rightarrow> string option \<Rightarrow> string option \<Rightarrow> string" where
  "get_pfp_value db user req_user req_domain =
     (case (case req_user of
              Some u \<Rightarrow> (if req_domain = None then first_photo db (contact_prop_ids db u user) else None)
            | None \<Rightarrow> None) of
        Some v \<Rightarrow> v
      | None \<Rightarrow>
          (case first_photo db (profile_prop_ids db user (visibility_level user req_user req_domain)) of
             Some v \<Rightarrow> v | None \<Rightarrow> []))"

definition get_contact :: "contacts_db \<Rightarrow> VC \<Rightarrow> VC \<times> db_outcome" where
  "get_contact db c =
     (if vc_id c = -1 then (c, Error)
      else case find (\<lambda>r. cw_id r = vc_id c \<and> (vc_owner c = [] \<or> cw_owner r = vc_owner c)) (ct_cards db) of
             None \<Rightarrow> (c, NotFound)
           | Some r \<Rightarrow>
               (c\<lparr>vc_user := (case cw_user r of None \<Rightarrow> [] | Some u \<Rightarrow> u), vc_update_ts := cw_update_ts r,
                  vc_props := vc_props c @ props_in db
                    (set (map lk_prop (filter (\<lambda>l. lk_card l = vc_id c) (ct_card_links db @ ct_profile_links db))))\<rparr>, Success))"

definition delete_contacts_of :: "contacts_db \<Rightarrow> string \<Rightarrow> contacts_db" where
  "delete_contacts_of db user =
     (let mine = set (map cw_id (filter (\<lambda>r. cw_owner r = user) (ct_cards db)));
          db1 = db\<lparr>ct_card_links := filter (\<lambda>l. lk_card l \<notin> mine) (ct_card_links db),
                   ct_profile_links := filter (\<lambda>l. lk_card l \<notin> mine) (ct_profile_links db),
                   ct_cards := filter (\<lambda>r. cw_owner r \<noteq> user) (ct_cards db)\<rparr>;
          db2 = prune_properties db1
      in db2\<lparr>ct_shares := filter (\<lambda>(i, sender, acceptor). sender \<noteq> user \<and> acceptor \<noteq> user) (ct_shares db2)\<rparr>)"

text \<open>The first statement of \<open>delete_contact\<close> asks for a column \<open>cardId\<close> of \<open>Cards\<close>.\<close>

definition card_columns :: "string list" where
  "card_columns = [''id'', ''owner'', ''user'', ''updateTs'']"

definition delete_contact :: "contacts_db \<Rightarrow> string \<Rightarrow> int \<Rightarrow> (contacts_db \<times> db_outcome) result" where
  "delete_contact db owner i =
     (if ''cardId'' \<notin> set card_columns then Inl DatabaseError
      else if \<not> list_ex (\<lambda>r. cw_id r = i \<and> cw_owner r = owner) (ct_cards db) then Inr (db, NotFound)
      else Inr (prune_properties ((unlink_card i db)\<lparr>ct_shares := filter (\<lambda>(j, sender, acceptor). j \<noteq> i) (ct_shares db),
             ct_cards := filter (\<lambda>r. cw_id r \<noteq> i) (ct_cards db)\<rparr>), Success))"

section \<open>The tables as a map of cards\<close>

text \<open>Contents: what a property says, and its visibility. A card's contents come from its two tables of links.\<close>

type_synonym content = "string \<times> string \<times> string \<times> int"

definition link_contents :: "prop_row list \<Rightarrow> link_row list \<Rightarrow> int \<Rightarrow> content list" where
  "link_contents rows links i =
     concat (map (\<lambda>l. map (\<lambda>r. (pw_name r, pw_params r, pw_value r, lk_visibility l)) (filter (\<lambda>r. pw_id r = lk_prop l) rows))
       (filter (\<lambda>l. lk_card l = i) links))"

definition stored_cards :: "contacts_db \<Rightarrow> int \<Rightarrow> (string \<times> string option \<times> int \<times> content list \<times> content list) option" where
  "stored_cards db i =
     (case find (\<lambda>r. cw_id r = i) (ct_cards db) of
        None \<Rightarrow> None
      | Some r \<Rightarrow> Some (cw_owner r, cw_user r, cw_update_ts r,
          link_contents (ct_props db) (ct_card_links db) i, link_contents (ct_props db) (ct_profile_links db) i))"

definition card_contents :: "VC \<Rightarrow> content list \<times> content list" where
  "card_contents c =
     (if vc_owner c = vc_user c
      then ([], map (\<lambda>p. (vp_name p, vp_params p, vp_value p, vp_visibility p)) (vc_props c))
      else (map (\<lambda>p. (vp_name p, vp_params p, vp_value p, 0)) (vc_props c), []))"

abbreviation ct_links :: "contacts_db \<Rightarrow> link_row list" where
  "ct_links db \<equiv> ct_card_links db @ ct_profile_links db"

text \<open>Numbers are unique; a link joins a card that exists with a property that exists, and no property is linked twice.\<close>

definition tables_ok :: "contacts_db \<Rightarrow> bool" where
  "tables_ok db \<longleftrightarrow> distinct (map cw_id (ct_cards db)) \<and> 0 < ct_next_card db \<and>
     (\<forall>r \<in> set (ct_cards db). 0 < cw_id r \<and> cw_id r < ct_next_card db) \<and>
     distinct (map pw_id (ct_props db)) \<and>
     (\<forall>l \<in> set (ct_links db). lk_card l \<in> cw_id ` set (ct_cards db) \<and> lk_prop l \<in> pw_id ` set (ct_props db)) \<and>
     distinct (map lk_prop (ct_links db))"

lemma next_id_above: "x \<in> set is \<Longrightarrow> x < next_id is"
proof -
  assume "x \<in> set is"
  then have "x \<le> Max (set (0 # is))" by (intro Max_ge) auto
  then show ?thesis unfolding next_id_def by linarith
qed

lemma link_contents_append:
  "link_contents rows (ls @ ks) i = link_contents rows ls i @ link_contents rows ks i"
  by (simp add: link_contents_def)

lemma link_contents_cong:
  assumes "\<forall>l \<in> set ls. filter (\<lambda>r. pw_id r = lk_prop l) rows' = filter (\<lambda>r. pw_id r = lk_prop l) rows"
  shows "link_contents rows' ls i = link_contents rows ls i"
  using assms by (auto simp: link_contents_def intro!: arg_cong [where f = concat])

lemma filter_unique: "distinct (map f xs) \<Longrightarrow> x \<in> set xs \<Longrightarrow> filter (\<lambda>y. f y = f x) xs = [x]"
  by (induction xs) (auto simp: filter_empty_conv, metis image_eqI)

lemma find_distinct: "distinct (map f xs) \<Longrightarrow> x \<in> set xs \<Longrightarrow> find (\<lambda>y. f y = f x) xs = Some x"
  by (induction xs) (auto simp: image_iff)

lemma prune_contents:
  "link_contents (ct_props (prune_properties db)) (ct_card_links db) i = link_contents (ct_props db) (ct_card_links db) i"
  "link_contents (ct_props (prune_properties db)) (ct_profile_links db) i = link_contents (ct_props db) (ct_profile_links db) i"
proof -
  have "filter (\<lambda>r. pw_id r = lk_prop l) (ct_props (prune_properties db)) = filter (\<lambda>r. pw_id r = lk_prop l) (ct_props db)"
    if "l \<in> set (ct_links db)" for l
    using that by (auto simp: prune_properties_def intro!: filter_cong)
  then show "link_contents (ct_props (prune_properties db)) (ct_card_links db) i = link_contents (ct_props db) (ct_card_links db) i"
    "link_contents (ct_props (prune_properties db)) (ct_profile_links db) i = link_contents (ct_props db) (ct_profile_links db) i"
    by (auto intro!: link_contents_cong)
qed

lemma prune_fields [simp]:
  "ct_cards (prune_properties db) = ct_cards db" "ct_card_links (prune_properties db) = ct_card_links db"
  "ct_profile_links (prune_properties db) = ct_profile_links db" "ct_next_card (prune_properties db) = ct_next_card db"
  "ct_shares (prune_properties db) = ct_shares db"
  by (simp_all add: prune_properties_def)

lemma prune_stored: "stored_cards (prune_properties db) = stored_cards db"
  by (rule ext) (simp add: stored_cards_def prune_contents cong: option.case_cong)

lemma prune_ok: "tables_ok db \<Longrightarrow> tables_ok (prune_properties db)"
proof -
  assume ok: "tables_ok db"
  have "pw_id ` set (ct_props (prune_properties db)) = pw_id ` set (ct_props db) \<inter> lk_prop ` set (ct_links db)"
    by (auto simp: prune_properties_def)
  moreover have "distinct (map pw_id (ct_props (prune_properties db)))"
    using ok unfolding tables_ok_def prune_properties_def by (simp add: distinct_map_filter)
  ultimately show ?thesis using ok unfolding tables_ok_def by auto
qed

text \<open>Rows of links can go.\<close>

lemma fewer_links_ok:
  assumes "tables_ok db"
  shows "tables_ok (db\<lparr>ct_card_links := filter P (ct_card_links db), ct_profile_links := filter Q (ct_profile_links db)\<rparr>)"
proof -
  have "distinct (map lk_prop (filter P (ct_card_links db) @ filter Q (ct_profile_links db)))"
    using assms unfolding tables_ok_def by (auto simp: distinct_map_filter)
  then show ?thesis using assms unfolding tables_ok_def by auto
qed

lemma link_contents_filter:
  "\<forall>l \<in> set ls. lk_card l = i \<longrightarrow> P l \<Longrightarrow> link_contents rows (filter P ls) i = link_contents rows ls i"
  "\<forall>l \<in> set ls. lk_card l = i \<longrightarrow> \<not> P l \<Longrightarrow> link_contents rows (filter P ls) i = []"
proof -
  assume "\<forall>l \<in> set ls. lk_card l = i \<longrightarrow> P l"
  then have "filter (\<lambda>l. P l \<and> lk_card l = i) ls = filter (\<lambda>l. lk_card l = i) ls"
    by (intro filter_cong) auto
  then show "link_contents rows (filter P ls) i = link_contents rows ls i" by (simp add: link_contents_def conj_commute)
next
  assume "\<forall>l \<in> set ls. lk_card l = i \<longrightarrow> \<not> P l"
  then have "filter (\<lambda>l. P l \<and> lk_card l = i) ls = []" by (auto simp: filter_empty_conv)
  then show "link_contents rows (filter P ls) i = []" by (simp add: link_contents_def conj_commute)
qed

lemma unlink_contents:
  "link_contents rows (filter (\<lambda>l. lk_card l \<noteq> i) ls) j = (if j = i then [] else link_contents rows ls j)"
  by (auto intro!: link_contents_filter)

text \<open>A property that is stored extends the contents of its card alone.\<close>

lemma link_refers:
  "tables_ok db \<Longrightarrow> l \<in> set (ct_links db) \<Longrightarrow>
    lk_card l \<in> cw_id ` set (ct_cards db) \<and> lk_prop l \<in> pw_id ` set (ct_props db)"
  unfolding tables_ok_def by blast

lemma new_prop_contents:
  assumes "tables_ok db" "set ls \<subseteq> set (ct_links db)" "pw_id r = next_id (map pw_id (ct_props db))"
  shows "link_contents (ct_props db @ [r]) ls i = link_contents (ct_props db) ls i"
proof (rule link_contents_cong, rule ballI)
  fix l assume "l \<in> set ls"
  then have "l \<in> set (ct_links db)" using assms(2) by blast
  from link_refers [OF assms(1) this] have "lk_prop l \<in> set (map pw_id (ct_props db))" by simp
  then have "lk_prop l < pw_id r" using next_id_above assms(3) by simp
  then show "filter (\<lambda>r. pw_id r = lk_prop l) (ct_props db @ [r]) = filter (\<lambda>r. pw_id r = lk_prop l) (ct_props db)" by simp
qed

lemma new_prop_link:
  assumes "pw_id r = next_id (map pw_id rows)" "lk_prop l = pw_id r"
  shows "link_contents (rows @ [r]) [l] i = (if lk_card l = i then [(pw_name r, pw_params r, pw_value r, lk_visibility l)] else [])"
proof -
  have "\<forall>q \<in> set rows. pw_id q \<noteq> pw_id r"
  proof
    fix q assume "q \<in> set rows"
    then have "pw_id q < pw_id r" using next_id_above [of "pw_id q" "map pw_id rows"] assms(1) by simp
    then show "pw_id q \<noteq> pw_id r" by simp
  qed
  then have "filter (\<lambda>q. pw_id q = lk_prop l) rows = []" using assms(2) by (simp add: filter_empty_conv)
  then show ?thesis using assms(2) by (simp add: link_contents_def)
qed

definition new_row :: "VCProp \<Rightarrow> contacts_db \<Rightarrow> prop_row" where
  "new_row p db = \<lparr>pw_id = next_id (map pw_id (ct_props db)), pw_name = vp_name p, pw_params = vp_params p, pw_value = vp_value p\<rparr>"

definition new_link :: "VC \<Rightarrow> VCProp \<Rightarrow> contacts_db \<Rightarrow> link_row" where
  "new_link c p db =
     (if vc_owner c = vc_user c
      then \<lparr>lk_rowid = next_id (map lk_rowid (ct_profile_links db)), lk_card = vc_id c, lk_prop = pw_id (new_row p db), lk_visibility = vp_visibility p\<rparr>
      else \<lparr>lk_rowid = next_id (map lk_rowid (ct_card_links db)), lk_card = vc_id c, lk_prop = pw_id (new_row p db), lk_visibility = 0\<rparr>)"

lemma new_row_fields [simp]:
  "pw_name (new_row p db) = vp_name p" "pw_params (new_row p db) = vp_params p" "pw_value (new_row p db) = vp_value p"
  by (simp_all add: new_row_def)

lemma new_link_fields:
  "lk_prop (new_link c p db) = pw_id (new_row p db)" "lk_card (new_link c p db) = vc_id c"
  "lk_visibility (new_link c p db) = (if vc_owner c = vc_user c then vp_visibility p else 0)"
  by (simp_all add: new_link_def)

lemma store_prop_fields:
  "fst (store_prop c p db) = db\<lparr>ct_props := ct_props db @ [new_row p db],
     ct_card_links := ct_card_links db @ (if vc_owner c = vc_user c then [] else [new_link c p db]),
     ct_profile_links := ct_profile_links db @ (if vc_owner c = vc_user c then [new_link c p db] else [])\<rparr>"
  by (simp add: store_prop_def insert_prop_def new_row_def new_link_def Let_def)

lemma store_prop_ok:
  assumes "tables_ok db" "vc_id c \<in> cw_id ` set (ct_cards db)"
  shows "tables_ok (fst (store_prop c p db))"
proof -
  have "pw_id q < pw_id (new_row p db)" if "q \<in> set (ct_props db)" for q
    using next_id_above [of "pw_id q" "map pw_id (ct_props db)"] that by (simp add: new_row_def)
  then have new: "pw_id (new_row p db) \<notin> pw_id ` set (ct_props db)" by fastforce
  then have "pw_id (new_row p db) \<notin> lk_prop ` set (ct_links db)" using link_refers [OF assms(1)] by (metis imageE)
  then show ?thesis using assms new unfolding store_prop_fields tables_ok_def by (auto simp: new_link_fields)
qed

lemma store_prop_contents:
  assumes "tables_ok db"
  shows "link_contents (ct_props (fst (store_prop c p db))) (ct_card_links (fst (store_prop c p db))) i =
      link_contents (ct_props db) (ct_card_links db) i @ (if i = vc_id c then fst (card_contents (c\<lparr>vc_props := [p]\<rparr>)) else [])"
    and "link_contents (ct_props (fst (store_prop c p db))) (ct_profile_links (fst (store_prop c p db))) i =
      link_contents (ct_props db) (ct_profile_links db) i @ (if i = vc_id c then snd (card_contents (c\<lparr>vc_props := [p]\<rparr>)) else [])"
proof -
  have r: "pw_id (new_row p db) = next_id (map pw_id (ct_props db))" by (simp add: new_row_def)
  have none: "link_contents rows [] j = []" for rows j by (simp add: link_contents_def)
  note new = new_prop_link [OF r new_link_fields(1)]
  have old: "link_contents (ct_props db @ [new_row p db]) (ct_card_links db) i = link_contents (ct_props db) (ct_card_links db) i"
    "link_contents (ct_props db @ [new_row p db]) (ct_profile_links db) i = link_contents (ct_props db) (ct_profile_links db) i"
    by (auto intro: new_prop_contents [OF assms _ r])
  show "link_contents (ct_props (fst (store_prop c p db))) (ct_card_links (fst (store_prop c p db))) i =
      link_contents (ct_props db) (ct_card_links db) i @ (if i = vc_id c then fst (card_contents (c\<lparr>vc_props := [p]\<rparr>)) else [])"
    "link_contents (ct_props (fst (store_prop c p db))) (ct_profile_links (fst (store_prop c p db))) i =
      link_contents (ct_props db) (ct_profile_links db) i @ (if i = vc_id c then snd (card_contents (c\<lparr>vc_props := [p]\<rparr>)) else [])"
    unfolding store_prop_fields by (simp_all add: link_contents_append old none new card_contents_def new_link_fields)
qed

lemma store_prop_cards [simp]:
  "ct_cards (fst (store_prop c p db)) = ct_cards db" "ct_next_card (fst (store_prop c p db)) = ct_next_card db"
  "ct_shares (fst (store_prop c p db)) = ct_shares db"
  by (simp_all add: store_prop_fields)

lemma store_props_fst: "fst (store_props c ps db) = fold (\<lambda>p d. fst (store_prop c p d)) ps db"
  by (induction ps arbitrary: db) (auto simp: split_beta Let_def)

lemma store_props_cards [simp]:
  "ct_cards (fst (store_props c ps db)) = ct_cards db" "ct_next_card (fst (store_props c ps db)) = ct_next_card db"
  "ct_shares (fst (store_props c ps db)) = ct_shares db"
  unfolding store_props_fst by (induction ps arbitrary: db) simp_all

lemma card_contents_Cons:
  "fst (card_contents (c\<lparr>vc_props := p # ps\<rparr>)) = fst (card_contents (c\<lparr>vc_props := [p]\<rparr>)) @ fst (card_contents (c\<lparr>vc_props := ps\<rparr>))"
  "snd (card_contents (c\<lparr>vc_props := p # ps\<rparr>)) = snd (card_contents (c\<lparr>vc_props := [p]\<rparr>)) @ snd (card_contents (c\<lparr>vc_props := ps\<rparr>))"
  "card_contents (c\<lparr>vc_props := []\<rparr>) = ([], [])"
  by (simp_all add: card_contents_def)

lemma store_props_contents:
  assumes "tables_ok db" "vc_id c \<in> cw_id ` set (ct_cards db)"
  shows "tables_ok (fst (store_props c ps db)) \<and>
    link_contents (ct_props (fst (store_props c ps db))) (ct_card_links (fst (store_props c ps db))) i =
      link_contents (ct_props db) (ct_card_links db) i @ (if i = vc_id c then fst (card_contents (c\<lparr>vc_props := ps\<rparr>)) else []) \<and>
    link_contents (ct_props (fst (store_props c ps db))) (ct_profile_links (fst (store_props c ps db))) i =
      link_contents (ct_props db) (ct_profile_links db) i @ (if i = vc_id c then snd (card_contents (c\<lparr>vc_props := ps\<rparr>)) else [])"
  using assms unfolding store_props_fst
proof (induction ps arbitrary: db)
  case (Cons p ps)
  have "tables_ok (fst (store_prop c p db))" "vc_id c \<in> cw_id ` set (ct_cards (fst (store_prop c p db)))"
    using store_prop_ok [OF Cons.prems] Cons.prems(2) by simp_all
  from Cons.IH [OF this] show ?case
    using store_prop_contents [OF Cons.prems(1), of c p i] by (simp add: card_contents_Cons(1,2) [where c = c and p = p and ps = ps])
qed (simp add: card_contents_Cons(3))

subsection \<open>A save\<close>

definition card_entry :: "int \<Rightarrow> VC \<Rightarrow> string \<times> string option \<times> int \<times> content list \<times> content list" where
  "card_entry now c = (vc_owner c, user_column c, now, card_contents c)"

definition owns_card :: "contacts_db \<Rightarrow> string \<Rightarrow> int \<Rightarrow> bool" where
  "owns_card db owner i \<longleftrightarrow> (\<exists>e. stored_cards db i = Some (owner, e))"

lemma owns_card_iff: "stored_cards db i = Some (owner, e) \<Longrightarrow> owns_card db user i \<longleftrightarrow> user = owner"
  by (cases e) (auto simp: owns_card_def)

lemma no_contents: "tables_ok db \<Longrightarrow> i \<notin> cw_id ` set (ct_cards db) \<Longrightarrow>
    link_contents rows (ct_card_links db) i = [] \<and> link_contents rows (ct_profile_links db) i = []"
  using link_refers [of db] by (fastforce simp: link_contents_def filter_empty_conv)

lemma find_append: "find P (xs @ ys) = (case find P xs of None \<Rightarrow> find P ys | Some x \<Rightarrow> Some x)"
  by (induction xs) auto

lemma find_map_id: "(\<And>r. cw_id (f r) = cw_id r) \<Longrightarrow>
    find (\<lambda>r. cw_id r = i) (map f rs) = map_option f (find (\<lambda>r. cw_id r = i) rs)"
  by (induction rs) auto

lemma find_id: "find (\<lambda>r. cw_id r = i) rs = Some r \<Longrightarrow> r \<in> set rs \<and> cw_id r = i"
  by (induction rs) (auto split: if_splits)

lemma owns_row: "tables_ok db \<Longrightarrow> list_ex (\<lambda>r. cw_id r = i \<and> cw_owner r = owner) (ct_cards db) \<longleftrightarrow> owns_card db owner i"
proof -
  assume ok: "tables_ok db"
  show ?thesis
  proof
    assume "list_ex (\<lambda>r. cw_id r = i \<and> cw_owner r = owner) (ct_cards db)"
    then obtain r where r: "r \<in> set (ct_cards db)" "cw_id r = i" "cw_owner r = owner" by (auto simp: list_ex_iff)
    then have "find (\<lambda>q. cw_id q = i) (ct_cards db) = Some r"
      using find_distinct [of cw_id "ct_cards db" r] ok by (simp add: tables_ok_def)
    then show "owns_card db owner i" using r by (simp add: owns_card_def stored_cards_def)
  next
    assume "owns_card db owner i"
    then show "list_ex (\<lambda>r. cw_id r = i \<and> cw_owner r = owner) (ct_cards db)"
      by (auto simp: owns_card_def stored_cards_def list_ex_iff split: option.splits dest!: find_id)
  qed
qed

lemma created_card:
  assumes ok: "tables_ok db" and c1: "vc_id c1 = ct_next_card db"
    and db1: "db1 = db\<lparr>ct_next_card := ct_next_card db + 1,
      ct_cards := ct_cards db @ [\<lparr>cw_id = ct_next_card db, cw_owner = owner, cw_user = u, cw_update_ts = now\<rparr>]\<rparr>"
    and db2: "db2 = fst (store_props c1 ps db1)"
  shows "tables_ok db2 \<and> stored_cards db (ct_next_card db) = None \<and>
    stored_cards db2 = (stored_cards db)(ct_next_card db \<mapsto> (owner, u, now, card_contents (c1\<lparr>vc_props := ps\<rparr>)))"
proof -
  let ?i = "ct_next_card db"
  have new: "?i \<notin> cw_id ` set (ct_cards db)" using ok by (fastforce simp: tables_ok_def)
  have ok1: "tables_ok db1" using ok new unfolding tables_ok_def db1 by (auto simp: less_Suc_eq)
  have "vc_id c1 \<in> cw_id ` set (ct_cards db1)" by (simp add: db1 c1)
  note stored = store_props_contents [OF ok1 this, of ps, folded db2]
  have cards: "ct_cards db2 = ct_cards db1" by (simp add: db2)
  have none: "find (\<lambda>r. cw_id r = ?i) (ct_cards db) = None" using new by (metis (mono_tags, lifting) find_None_iff imageI)
  have "stored_cards db2 j = ((stored_cards db)(?i \<mapsto> (owner, u, now, card_contents (c1\<lparr>vc_props := ps\<rparr>)))) j" for j
  proof (cases "j = ?i")
    case True
    then show ?thesis using stored [of j] no_contents [OF ok new, of "ct_props db"] none
      by (simp add: stored_cards_def cards db1 find_append c1)
  next
    case False
    then show ?thesis using stored [of j] by (auto simp: stored_cards_def cards db1 find_append c1 split: option.split)
  qed
  then show ?thesis using stored none by (auto simp: stored_cards_def)
qed

lemma updated_card:
  assumes ok: "tables_ok db" and own: "owns_card db owner (vc_id c1)"
    and db1: "db1 = db\<lparr>ct_cards := map (\<lambda>r. if cw_id r = vc_id c1 \<and> cw_owner r = owner then r\<lparr>cw_user := u, cw_update_ts := now\<rparr> else r) (ct_cards db)\<rparr>"
    and db2: "db2 = fst (store_props c1 ps (prune_properties (unlink_card (vc_id c1) db1)))"
  shows "tables_ok db2 \<and> stored_cards db2 = (stored_cards db)(vc_id c1 \<mapsto> (owner, u, now, card_contents (c1\<lparr>vc_props := ps\<rparr>)))"
proof -
  let ?f = "\<lambda>r. if cw_id r = vc_id c1 \<and> cw_owner r = owner then r\<lparr>cw_user := u, cw_update_ts := now\<rparr> else r"
  let ?u = "prune_properties (unlink_card (vc_id c1) db1)"
  have ids: "map cw_id (map ?f rs) = map cw_id rs" for rs by (induction rs) auto
  have "cw_id ` set (map ?f (ct_cards db)) = cw_id ` set (ct_cards db)" by (simp only: set_map [symmetric] ids)
  then have ok1: "tables_ok db1" using ok unfolding tables_ok_def db1 by (auto simp del: map_map simp: ids)
  have oku: "tables_ok ?u" unfolding unlink_card_def by (rule prune_ok [OF fewer_links_ok [OF ok1]])
  obtain r where r: "find (\<lambda>r. cw_id r = vc_id c1) (ct_cards db) = Some r" "cw_owner r = owner"
    using own by (auto simp: owns_card_def stored_cards_def split: option.splits)
  have rid: "cw_id r = vc_id c1" "r \<in> set (ct_cards db)" using find_id [OF r(1)] by simp_all
  have f: "find (\<lambda>r. cw_id r = j) (ct_cards ?u) = map_option ?f (find (\<lambda>r. cw_id r = j) (ct_cards db))" for j
    by (simp add: db1 unlink_card_def find_map_id)
  have "find (\<lambda>r. cw_id r = vc_id c1) (ct_cards ?u) = Some (?f r)" using f r by simp
  from find_id [OF this] have "vc_id c1 \<in> cw_id ` set (ct_cards ?u)" by (intro image_eqI [of _ _ "?f r"]) auto
  note stored = store_props_contents [OF oku this, of ps, folded db2]
  have cards: "ct_cards db2 = ct_cards ?u" by (simp add: db2)
  have links: "link_contents (ct_props ?u) (ct_card_links ?u) j = (if j = vc_id c1 then [] else link_contents (ct_props db) (ct_card_links db) j)"
    "link_contents (ct_props ?u) (ct_profile_links ?u) j = (if j = vc_id c1 then [] else link_contents (ct_props db) (ct_profile_links db) j)" for j
    using prune_contents [of "unlink_card (vc_id c1) db1" j] by (simp_all add: unlink_card_def unlink_contents db1)
  have "stored_cards db2 j = ((stored_cards db)(vc_id c1 \<mapsto> (owner, u, now, card_contents (c1\<lparr>vc_props := ps\<rparr>)))) j" for j
  proof (cases "j = vc_id c1")
    case True
    then show ?thesis using stored [of j] f [of j] r rid(1) links [of j] by (simp add: stored_cards_def cards)
  next
    case False
    have "?f q = q" if "find (\<lambda>r. cw_id r = j) (ct_cards db) = Some q" for q using find_id [OF that] False by simp
    then have "find (\<lambda>r. cw_id r = j) (ct_cards ?u) = find (\<lambda>r. cw_id r = j) (ct_cards db)"
      unfolding f by (cases "find (\<lambda>r. cw_id r = j) (ct_cards db)") simp_all
    then show ?thesis using stored [of j] links [of j] False by (simp add: stored_cards_def cards split: option.split)
  qed
  then show ?thesis using stored by auto
qed

lemma create_spec:
  assumes "tables_ok db" "vc_id c < 0"
  shows "case save_contact now fault db c of (db', c', res) \<Rightarrow> tables_ok db' \<and>
    (if fault = None
     then res = Success \<and> stored_cards db' = (stored_cards db)(vc_id c' \<mapsto> card_entry now c) \<and> stored_cards db (vc_id c') = None
     else res \<noteq> Success \<and> db' = db)"
proof -
  define i where "i = ct_next_card db"
  define c1 where "c1 = c\<lparr>vc_id := i, vc_update_ts := now\<rparr>"
  define db1 where "db1 = db\<lparr>ct_next_card := i + 1,
    ct_cards := ct_cards db @ [\<lparr>cw_id = i, cw_owner = vc_owner c, cw_user = user_column c, cw_update_ts = now\<rparr>]\<rparr>"
  have "vc_id c1 = i" by (simp add: c1_def)
  from created_card [OF assms(1) this [unfolded i_def] db1_def [unfolded i_def] refl, of "vc_props c1"] show ?thesis
    using assms by (auto simp: save_contact_def create_new_contact_def Let_def card_entry_def card_contents_def c1_def db1_def i_def
        split: option.split prod.split)
qed

lemma update_spec:
  assumes "tables_ok db" "\<not> vc_id c < 0"
  shows "case save_contact now fault db c of (db', c', res) \<Rightarrow> tables_ok db' \<and>
    (if fault = None \<and> owns_card db (vc_owner c) (vc_id c)
     then res = Success \<and> stored_cards db' = (stored_cards db)(vc_id c \<mapsto> card_entry now c) \<and> vc_id c' = vc_id c
     else res \<noteq> Success \<and> db' = db)"
proof -
  define c1 where "c1 = c\<lparr>vc_update_ts := now\<rparr>"
  define db1 where "db1 = db\<lparr>ct_cards := map (\<lambda>r. if cw_id r = vc_id c1 \<and> cw_owner r = vc_owner c
    then r\<lparr>cw_user := user_column c, cw_update_ts := now\<rparr> else r) (ct_cards db)\<rparr>"
  have id: "vc_id c1 = vc_id c" by (simp add: c1_def)
  show ?thesis
  proof (cases "owns_card db (vc_owner c) (vc_id c)")
    case True
    from updated_card [OF assms(1) True [folded id] db1_def refl, of "vc_props c1"] show ?thesis
      using assms True owns_row [OF assms(1), of "vc_id c" "vc_owner c"]
      by (auto simp: save_contact_def update_contact_def Let_def card_entry_def card_contents_def c1_def db1_def
          split: option.split prod.split)
  next
    case False
    then show ?thesis using assms owns_row [OF assms(1), of "vc_id c" "vc_owner c"]
      by (auto simp: save_contact_def update_contact_def Let_def split: option.split)
  qed
qed

text \<open>What a save does to the cards of others, whatever comes of it.\<close>

lemma save_keeps:
  assumes "tables_ok db"
  shows "tables_ok (fst (save_contact now fault db c))"
    and "stored_cards db i = Some (owner, e) \<Longrightarrow> owner \<noteq> vc_owner c \<Longrightarrow>
      stored_cards (fst (save_contact now fault db c)) i = Some (owner, e)"
proof -
  obtain db' c' res where s: "save_contact now fault db c = (db', c', res)" using prod_cases3 by blast
  show "tables_ok (fst (save_contact now fault db c))"
    using create_spec [OF assms, where c = c and now = now and fault = fault] update_spec [OF assms, where c = c and now = now and fault = fault] s by (cases "vc_id c < 0") auto
  show "stored_cards (fst (save_contact now fault db c)) i = Some (owner, e)"
    if "stored_cards db i = Some (owner, e)" "owner \<noteq> vc_owner c"
    using create_spec [OF assms, where c = c and now = now and fault = fault] update_spec [OF assms, where c = c and now = now and fault = fault] s that
    by (cases "vc_id c < 0") (auto simp: owns_card_def split: if_splits)
qed

subsection \<open>Users that are deleted\<close>

lemma shares_apart: "stored_cards (db\<lparr>ct_shares := s\<rparr>) = stored_cards db" "tables_ok (db\<lparr>ct_shares := s\<rparr>) \<longleftrightarrow> tables_ok db"
  by (auto simp: stored_cards_def tables_ok_def cong: option.case_cong)

lemma find_remaining:
  "distinct (map cw_id rs) \<Longrightarrow> find (\<lambda>r. cw_id r = i) (filter (\<lambda>r. cw_owner r \<noteq> user) rs) =
    (case find (\<lambda>r. cw_id r = i) rs of None \<Rightarrow> None | Some r \<Rightarrow> if cw_owner r = user then None else Some r)"
proof (induction rs)
  case (Cons r rs)
  have "cw_id q \<noteq> cw_id r" if "q \<in> set rs" for q using Cons.prems that by (metis distinct.simps(2) image_eqI list.set_map list.simps(9))
  then have "find (\<lambda>q. cw_id q = cw_id r) rs = None" by (auto simp: find_None_iff)
  with Cons show ?case by auto
qed simp

lemma delete_user_tables:
  assumes "tables_ok db"
  shows "tables_ok (delete_contacts_of db user) \<and>
    stored_cards (delete_contacts_of db user) i = (if owns_card db user i then None else stored_cards db i)"
proof -
  let ?mine = "set (map cw_id (filter (\<lambda>r. cw_owner r = user) (ct_cards db)))"
  define db1 where "db1 = db\<lparr>ct_card_links := filter (\<lambda>l. lk_card l \<notin> ?mine) (ct_card_links db),
    ct_profile_links := filter (\<lambda>l. lk_card l \<notin> ?mine) (ct_profile_links db),
    ct_cards := filter (\<lambda>r. cw_owner r \<noteq> user) (ct_cards db)\<rparr>"
  have mine: "i \<in> ?mine \<longleftrightarrow> owns_card db user i" for i
    using owns_row [OF assms, of i user] by (auto simp: list_ex_iff)
  have "distinct (map lk_prop (ct_links db1))" using assms unfolding tables_ok_def db1_def by (auto simp: distinct_map_filter)
  moreover have "lk_card l \<in> cw_id ` set (ct_cards db1) \<and> lk_prop l \<in> pw_id ` set (ct_props db1)" if "l \<in> set (ct_links db1)" for l
  proof -
    have "l \<in> set (ct_links db)" "lk_card l \<notin> ?mine" using that by (auto simp: db1_def)
    with link_refers [OF assms this(1)] show ?thesis by (auto simp: db1_def)
  qed
  ultimately have ok1: "tables_ok db1"
    using assms unfolding tables_ok_def by (auto simp: db1_def distinct_map_filter)
  have "find (\<lambda>r. cw_id r = i) (ct_cards db1) = (if owns_card db user i then None else find (\<lambda>r. cw_id r = i) (ct_cards db))"
    using find_remaining [of "ct_cards db" i user] assms
    by (auto simp: db1_def tables_ok_def owns_card_def stored_cards_def split: option.split)
  moreover have "\<not> owns_card db user i \<Longrightarrow> link_contents (ct_props db1) (ct_card_links db1) i = link_contents (ct_props db) (ct_card_links db) i \<and>
      link_contents (ct_props db1) (ct_profile_links db1) i = link_contents (ct_props db) (ct_profile_links db) i"
    using mine [of i] unfolding db1_def by (auto intro!: link_contents_filter(1))
  ultimately have "stored_cards db1 i = (if owns_card db user i then None else stored_cards db i)"
    by (simp add: stored_cards_def split: option.split)
  moreover have "delete_contacts_of db user = (prune_properties db1)\<lparr>ct_shares := ct_shares (delete_contacts_of db user)\<rparr>"
    by (simp add: delete_contacts_of_def Let_def db1_def)
  then have "stored_cards (delete_contacts_of db user) = stored_cards (prune_properties db1)"
    "tables_ok (delete_contacts_of db user) \<longleftrightarrow> tables_ok (prune_properties db1)"
    using shares_apart by (metis, metis)
  ultimately show ?thesis using prune_ok [OF ok1] by (simp add: prune_stored)
qed

lemma linked_card: "tables_ok db \<Longrightarrow> l \<in> set (ct_links db) \<Longrightarrow> \<exists>e. stored_cards db (lk_card l) = Some e"
proof -
  assume ok: "tables_ok db" and l: "l \<in> set (ct_links db)"
  obtain r where "r \<in> set (ct_cards db)" "cw_id r = lk_card l" using link_refers [OF ok l] by auto
  then have "find (\<lambda>q. cw_id q = lk_card l) (ct_cards db) \<noteq> None" by (auto simp: find_None_iff)
  then show ?thesis by (auto simp: stored_cards_def split: option.split)
qed

text \<open>
  Deleting a user erases them from the contacts: every card they own is gone and every other card is as before, each
  property row that is left belongs to a card of somebody else, and no share names them as sender or receiver.
\<close>

theorem deleted_user_erased:
  assumes "tables_ok db" "db' = delete_contacts_of db user"
  shows "tables_ok db' \<and> (\<forall>i. stored_cards db' i = (if owns_card db user i then None else stored_cards db i)) \<and>
    (\<forall>p \<in> set (ct_props db'). \<exists>l \<in> set (ct_links db'). lk_prop l = pw_id p \<and>
      (\<exists>owner e. stored_cards db' (lk_card l) = Some (owner, e) \<and> owner \<noteq> user)) \<and>
    (\<forall>(i, sender, acceptor) \<in> set (ct_shares db'). sender \<noteq> user \<and> acceptor \<noteq> user)"
proof -
  have cards: "tables_ok db'" "stored_cards db' i = (if owns_card db user i then None else stored_cards db i)" for i
    using delete_user_tables [OF assms(1)] assms(2) by auto
  have "\<exists>l \<in> set (ct_links db'). lk_prop l = pw_id p \<and> (\<exists>owner e. stored_cards db' (lk_card l) = Some (owner, e) \<and> owner \<noteq> user)"
    if "p \<in> set (ct_props db')" for p
  proof -
    have "pw_id p \<in> lk_prop ` set (ct_links db')" using that by (auto simp: assms(2) delete_contacts_of_def prune_properties_def Let_def)
    then obtain l where l: "l \<in> set (ct_links db')" "lk_prop l = pw_id p" by (metis imageE)
    obtain owner e where e: "stored_cards db' (lk_card l) = Some (owner, e)" using linked_card [OF cards(1) l(1)] by auto
    then have "owner \<noteq> user" using cards(2) [of "lk_card l"] owns_card_iff [of db "lk_card l"] by (metis option.distinct(1))
    with l e show ?thesis by blast
  qed
  then show ?thesis using cards by (auto simp: assms(2) delete_contacts_of_def Let_def)
qed

lemma deleted_user_erased_witness:
  "\<exists>db'. db' = delete_contacts_of
      (fst (save_contact 5 None (fst (save_contact 4 None empty_contacts
        (new_card\<lparr>vc_owner := ''amy'', vc_props := [new_prop]\<rparr>))) (new_card\<lparr>vc_owner := ''bob''\<rparr>))) ''amy'' \<and>
    stored_cards db' 1 = None \<and> stored_cards db' 2 = Some (''bob'', None, 5, [], []) \<and> ct_props db' = []"
proof -
  have ok: "tables_ok empty_contacts" by (simp add: tables_ok_def empty_contacts_def)
  define db where "db = fst (save_contact 5 None (fst (save_contact 4 None empty_contacts
    (new_card\<lparr>vc_owner := ''amy'', vc_props := [new_prop]\<rparr>))) (new_card\<lparr>vc_owner := ''bob''\<rparr>))"
  have ok_db: "tables_ok db" unfolding db_def by (intro save_keeps(1) ok)
  have db: "stored_cards db 1 = Some (''amy'', None, 4, [([], [], [], 0)], [])"
    "stored_cards db 2 = Some (''bob'', None, 5, [], [])"
    by (simp_all add: db_def save_contact_def create_new_contact_def empty_contacts_def new_card_def new_prop_def Let_def
        store_prop_def insert_prop_def next_id_def stored_cards_def user_column_def link_contents_def)
  from deleted_user_erased [OF ok_db refl, of "''amy''"] db
  have "stored_cards (delete_contacts_of db ''amy'') 1 = None"
    "stored_cards (delete_contacts_of db ''amy'') 2 = Some (''bob'', None, 5, [], [])"
    by (auto simp: owns_card_def)
  moreover have "ct_props (delete_contacts_of db ''amy'') = []"
    by (simp add: db_def delete_contacts_of_def prune_properties_def save_contact_def create_new_contact_def empty_contacts_def
        new_card_def new_prop_def Let_def store_prop_def insert_prop_def next_id_def user_column_def)
  ultimately show ?thesis by (simp add: db_def)
qed

text \<open>
  C19. A save is an atomic update of a map of cards: in consistent tables it succeeds when no statement fails and the card
  is new or is one of its owner, and then the map of cards has got, at the number of the card, exactly the owner, user,
  time and properties that were saved (at a number that was free, for a new card) and is the same everywhere else; when
  it does not succeed the tables are as before. In both cases they stay consistent.
\<close>

theorem save_refines:
  assumes "tables_ok db"
  shows "case save_contact now fault db c of (db', c', res) \<Rightarrow> tables_ok db' \<and>
    (if fault = None \<and> (vc_id c < 0 \<or> owns_card db (vc_owner c) (vc_id c))
     then res = Success \<and> stored_cards db' = (stored_cards db)(vc_id c' \<mapsto> card_entry now c) \<and>
       (if vc_id c < 0 then stored_cards db (vc_id c') = None else vc_id c' = vc_id c)
     else res \<noteq> Success \<and> db' = db)"
  using create_spec [OF assms, where c = c and now = now and fault = fault]
    update_spec [OF assms, where c = c and now = now and fault = fault]
  by (cases "vc_id c < 0"; cases "save_contact now fault db c") (simp_all split: if_splits)

lemma save_refines_witness:
  "case save_contact 5 None empty_contacts (new_card\<lparr>vc_owner := ''amy'', vc_user := ''bob'', vc_props := [new_prop]\<rparr>) of (db', c', res) \<Rightarrow>
    res = Success \<and> stored_cards db' (vc_id c') = Some (''amy'', Some ''bob'', 5, [([], [], [], 0)], [])"
  using save_refines [of empty_contacts, where c = "new_card\<lparr>vc_owner := ''amy'', vc_user := ''bob'', vc_props := [new_prop]\<rparr>" and now = 5 and
      fault = None]
  by (auto simp: tables_ok_def empty_contacts_def card_entry_def card_contents_def user_column_def new_card_def new_prop_def)

subsection \<open>Profiles\<close>

lemma base_keeps:
  assumes "tables_ok db"
  shows "tables_ok (fst (get_profile_base h db user))"
    and "stored_cards db i = Some (owner, e) \<Longrightarrow> stored_cards (fst (get_profile_base h db user)) i = Some (owner, e)"
proof -
  let ?c = "new_card\<lparr>vc_user := user, vc_owner := user\<rparr>"
  have s: "fst (get_profile_base h db user) = db \<or> fst (get_profile_base h db user) = fst (save_contact (ch_now h) (ch_fault h) db ?c)"
    by (auto simp: get_profile_base_def Let_def split: option.split prod.split)
  show "tables_ok (fst (get_profile_base h db user))" using s save_keeps(1) [OF assms] assms by metis
  have new: "vc_id ?c < 0" by (simp add: new_card_def)
  show "stored_cards (fst (get_profile_base h db user)) i = Some (owner, e)" if "stored_cards db i = Some (owner, e)"
    using s create_spec [OF assms new, where now = "ch_now h" and fault = "ch_fault h"] that
    by (cases e) (auto split: if_splits)
qed

lemma get_profile_tables: "fst (get_profile h db user ru rd) = fst (get_profile_base h db user)"
  by (simp add: get_profile_def Let_def split: prod.split)

lemma base_no_props:
  "vc_props (snd (get_profile_base h db user)) = []"
  by (auto simp: get_profile_base_def new_card_def save_contact_def create_new_contact_def stored_until_def Let_def
      split: option.split)

lemma props_in_iff: "p \<in> set (props_in db is) \<longleftrightarrow> (\<exists>r \<in> set (ct_props db). pw_id r \<in> is \<and> p = prop_of_row r)"
  by (auto simp: props_in_def)

lemma link_contents_mem:
  "l \<in> set ls \<Longrightarrow> lk_card l = i \<Longrightarrow> r \<in> set rows \<Longrightarrow> pw_id r = lk_prop l \<Longrightarrow>
    (pw_name r, pw_params r, pw_value r, lk_visibility l) \<in> set (link_contents rows ls i)"
  by (force simp: link_contents_def)

lemma row_stored:
  "tables_ok db \<Longrightarrow> r \<in> set (ct_cards db) \<Longrightarrow> stored_cards db (cw_id r) = Some (cw_owner r, cw_user r, cw_update_ts r,
    link_contents (ct_props db) (ct_card_links db) (cw_id r), link_contents (ct_props db) (ct_profile_links db) (cw_id r))"
  using find_distinct [of cw_id "ct_cards db" r] by (simp add: tables_ok_def stored_cards_def)

lemma profile_prop_stored:
  assumes "tables_ok db" "r \<in> set (ct_props db)" "pw_id r \<in> profile_prop_ids db user level"
  shows "\<exists>i ts cs ps v. stored_cards db i = Some (user, Some user, ts, cs, ps) \<and> level \<le> v \<and>
    (pw_name r, pw_params r, pw_value r, v) \<in> set ps"
proof -
  obtain q where q: "find (\<lambda>r. cw_user r = Some user \<and> cw_owner r = user) (ct_cards db) = Some q"
    "pw_id r \<in> set (map lk_prop (filter (\<lambda>l. lk_card l = cw_id q \<and> lk_visibility l \<ge> level) (ct_profile_links db)))"
    using assms(3) by (auto simp: profile_prop_ids_def profile_id_def split: option.splits)
  then have "q \<in> set (ct_cards db)" "cw_user q = Some user" "cw_owner q = user" by (auto simp: find_Some_iff)
  with row_stored [OF assms(1)] q(2) link_contents_mem [OF _ _ assms(2)] show ?thesis by fastforce
qed

lemma contact_prop_stored:
  assumes "tables_ok db" "r \<in> set (ct_props db)" "pw_id r \<in> contact_prop_ids db owner user"
  shows "\<exists>i ts cs ps v. stored_cards db i = Some (owner, Some user, ts, cs, ps) \<and> (pw_name r, pw_params r, pw_value r, v) \<in> set cs"
proof -
  obtain l q where l: "l \<in> set (ct_card_links db)" "pw_id r = lk_prop l" "lk_card l = cw_id q"
    and q: "q \<in> set (ct_cards db)" "cw_owner q = owner" "cw_user q = Some user"
    using assms(3) by (auto simp: contact_prop_ids_def)
  note link_contents_mem [OF l(1,3) assms(2) l(2)]
  moreover note row_stored [OF assms(1) q(1), unfolded q(2,3)]
  ultimately show ?thesis by blast
qed

text \<open>
  C20. What a profile shows depends on who asks: each property is one of the user's own profile card whose visibility
  reaches the level of the request (3 for anonymous visitors, 2 for users of other instances, 1 for other users of
  this one, 0 for the user), or, for a user of this instance, one of the requester's own cards for that user.
\<close>

theorem profile_shown_by_visibility:
  assumes "tables_ok db" "get_profile h db user req_user req_domain = (db', c)" "p \<in> set (vc_props c)"
  shows "\<exists>i owner ts cs ps v. stored_cards db' i = Some (owner, Some user, ts, cs, ps) \<and>
    (owner = user \<and> (vp_name p, vp_params p, vp_value p, v) \<in> set ps \<and>
       v \<ge> (if req_user = None then 3 else if req_domain \<noteq> None then 2 else if req_user = Some user then 0 else 1) \<or>
     req_user = Some owner \<and> req_domain = None \<and> (vp_name p, vp_params p, vp_value p, v) \<in> set cs)"
proof -
  obtain db1 b where b: "get_profile_base h db user = (db1, b)" by fastforce
  have ok: "tables_ok db1" "vc_props b = []" using base_keeps(1) [OF assms(1), of h user] base_no_props [of h db user] b by auto
  let ?level = "visibility_level user req_user req_domain"
  have db': "db' = db1" and valid: "\<not> invalid_card b"
    using assms(2,3) b by (auto simp: get_profile_def Let_def new_card_def split: if_splits)
  have "p \<in> set (props_in db1 (if ?level = 0 \<or> ?level = 1 then profile_prop_ids db1 user ?level \<union>
      (case req_user of None \<Rightarrow> {} | Some u \<Rightarrow> contact_prop_ids db1 u user) else profile_prop_ids db1 user ?level))"
    using assms(2,3) b valid ok(2) by (auto simp: get_profile_def Let_def)
  then obtain r where r: "r \<in> set (ct_props db1)" "p = prop_of_row r" and
    ids: "pw_id r \<in> profile_prop_ids db1 user ?level \<or>
      (?level = 0 \<or> ?level = 1) \<and> (\<exists>u. req_user = Some u \<and> pw_id r \<in> contact_prop_ids db1 u user)"
    by (auto simp: props_in_iff split: if_splits option.splits)
  have level: "?level = (if req_user = None then 3 else if req_domain \<noteq> None then 2 else if req_user = Some user then 0 else 1)"
    by (auto simp: visibility_level_def split: option.split)
  have p: "vp_name p = pw_name r" "vp_params p = pw_params r" "vp_value p = pw_value r" by (simp_all add: r(2) prop_of_row_def)
  from ids show ?thesis
  proof
    assume "pw_id r \<in> profile_prop_ids db1 user ?level"
    from profile_prop_stored [OF ok(1) r(1) this] show ?thesis unfolding level db' p by blast
  next
    assume "(?level = 0 \<or> ?level = 1) \<and> (\<exists>u. req_user = Some u \<and> pw_id r \<in> contact_prop_ids db1 u user)"
    then obtain u where u: "req_user = Some u" "req_domain = None" "pw_id r \<in> contact_prop_ids db1 u user"
      unfolding level by (auto split: if_splits)
    from contact_prop_stored [OF ok(1) r(1) u(3)] show ?thesis using u(1,2) unfolding db' p by blast
  qed
qed

lemma profile_shown_by_visibility_witness:
  "\<exists>db c. get_profile \<lparr>ch_domain = ''a.b'', ch_base_uri = ''https://c.a.b'', ch_now = 9, ch_user_exists = (\<lambda>u. True), ch_files = (\<lambda>f. []),
        ch_data_dir = [], ch_utc_offset = 0, ch_decode64 = id, ch_timezones = [], ch_fault = None\<rparr>
      (fst (save_contact 5 None empty_contacts (new_card\<lparr>vc_owner := ''bob'', vc_user := ''bob'',
        vc_props := [new_prop\<lparr>vp_name := ''TEL'', vp_visibility := 1\<rparr>, new_prop\<lparr>vp_name := ''URL'', vp_visibility := 3\<rparr>]\<rparr>)))
      ''bob'' None None = (db, c) \<and> map vp_name (vc_props c) = [''URL''] \<and>
    (\<exists>i owner ts cs ps v. stored_cards db i = Some (owner, Some ''bob'', ts, cs, ps) \<and> (''URL'', [], [], v) \<in> set ps \<and> v \<ge> 3)"
proof -
  let ?h = "\<lparr>ch_domain = ''a.b'', ch_base_uri = ''https://c.a.b'', ch_now = 9, ch_user_exists = (\<lambda>u. True), ch_files = (\<lambda>f. []),
    ch_data_dir = [], ch_utc_offset = 0, ch_decode64 = id, ch_timezones = [], ch_fault = None\<rparr>"
  let ?card = "new_card\<lparr>vc_owner := ''bob'', vc_user := ''bob'',
    vc_props := [new_prop\<lparr>vp_name := ''TEL'', vp_visibility := 1\<rparr>, new_prop\<lparr>vp_name := ''URL'', vp_visibility := 3\<rparr>]\<rparr>"
  let ?db = "fst (save_contact 5 None empty_contacts ?card)"
  have ok: "tables_ok ?db" by (intro save_keeps(1)) (simp add: tables_ok_def empty_contacts_def)
  let ?p = "\<lparr>vp_id = 2, vp_name = ''URL'', vp_params = [], vp_value = [], vp_visibility = 0\<rparr>"
  obtain db' c where g: "get_profile ?h ?db ''bob'' None None = (db', c)" by fastforce
  have "vc_props (snd (get_profile ?h ?db ''bob'' None None)) = [?p]" by code_simp
  then have c: "vc_props c = [?p]" using g by simp
  then have "?p \<in> set (vc_props c)" by simp
  from profile_shown_by_visibility [OF ok g this] obtain i owner ts cs ps v where
    "stored_cards db' i = Some (owner, Some ''bob'', ts, cs, ps)" "(''URL'', [], [], v) \<in> set ps" "v \<ge> 3" by auto
  with g c show ?thesis by (intro exI [of _ db'] exI [of _ c]) (simp, blast)
qed

end
