(* ===== verification/Runs.thy ===== *)
theory Runs
  imports FiyPrelude
begin

text \<open>
  Runs of events on a state, and the contract of a store whose entries belong to somebody: an event keeps the store
  consistent and changes no entry of an owner who does not act by it. Both then hold of every run. The
  tables of the contacts mod and the box of the mail mod interpret the contract.
\<close>

text \<open>A run of events on a state.\<close>

inductive event_run :: "('e \<Rightarrow> 's \<Rightarrow> 's \<Rightarrow> bool) \<Rightarrow> 's \<Rightarrow> 'e list \<Rightarrow> 's \<Rightarrow> bool" for step where
  run_none: "event_run step s [] s"
| run_event: "step e s t \<Longrightarrow> event_run step t es u \<Longrightarrow> event_run step s (e # es) u"

lemma event_run_append: "event_run step s es t \<Longrightarrow> event_run step t fs u \<Longrightarrow> event_run step s (es @ fs) u"
  by (induction rule: event_run.induct) (auto intro: run_event)

lemma event_run_split: "event_run step s (es @ fs) u \<Longrightarrow> \<exists>t. event_run step s es t \<and> event_run step t fs u"
proof (induction es arbitrary: s)
  case (Cons e es)
  from Cons.prems obtain t where "step e s t" "event_run step t (es @ fs) u" by (auto elim: event_run.cases)
  with Cons.IH show ?case by (blast intro: run_event)
qed (auto intro: run_none)

text \<open>A store whose entries have owners, and events by which only some owners act.\<close>

locale owned_store =
  fixes ok :: "'s \<Rightarrow> bool" and look :: "'s \<Rightarrow> int \<Rightarrow> ('o \<times> 'c) option"
    and step :: "'e \<Rightarrow> 's \<Rightarrow> 's \<Rightarrow> bool" and acts :: "'e \<Rightarrow> 'o \<Rightarrow> bool"
  assumes step_ok: "ok s \<Longrightarrow> step e s t \<Longrightarrow> ok t"
    and step_keeps: "ok s \<Longrightarrow> step e s t \<Longrightarrow> look s i = Some (owner, x) \<Longrightarrow> \<not> acts e owner \<Longrightarrow> look t i = Some (owner, x)"
begin

lemma run_ok: "event_run step s es t \<Longrightarrow> ok s \<Longrightarrow> ok t"
  by (induction rule: event_run.induct) (blast intro: step_ok)+

lemma run_keeps:
  "event_run step s es t \<Longrightarrow> ok s \<Longrightarrow> look s i = Some (owner, x) \<Longrightarrow> (\<And>e. e \<in> set es \<Longrightarrow> \<not> acts e owner) \<Longrightarrow>
    look t i = Some (owner, x)"
proof (induction rule: event_run.induct)
  case (run_event e s t es u)
  from run_event.hyps(1) run_event.prems have "ok t" "look t i = Some (owner, x)" by (auto intro: step_ok step_keeps)
  with run_event.IH run_event.prems(3) show ?case by simp
qed simp

end

end
