(* ===== verification/ContactRoutes.thy ===== *)
theory ContactRoutes
  imports Contacts Templates Runs
begin

text \<open>
  The requests of the contacts mod (\<open>mods/contacts/src/mod.cpp\<close>, \<open>Pages.hpp\<close>). A handler returns the new tables and what
  it does: answers, and requests that it forwards to the mod of another instance, with what is done when those
  are answered. A page file is its text; a file that is missing or empty cannot be mapped into memory. Base64,
  the database of time zones and the writing of JSON are parameters.
\<close>

datatype contact_action = Reply fiy_response | Forward string fiy_request

type_synonym contact_result = "(contacts_db \<times> contact_action list) result"

definition reply_text :: "int \<Rightarrow> string \<Rightarrow> string \<Rightarrow> contact_action" where
  "reply_text nr headers body = Reply (respond nr headers (body_of_string body))"

definition remote_request :: "string \<Rightarrow> fiy_request \<Rightarrow> fiy_request" where
  "remote_request d req = req\<lparr>rq_domain := Some d, rq_has_callback := True\<rparr>"

section \<open>Profiles\<close>

definition profile_request ::
  "contacts_host \<Rightarrow> (json \<Rightarrow> string) \<Rightarrow> contacts_db \<Rightarrow> string \<Rightarrow> fiy_request \<Rightarrow> contact_result" where
  "profile_request h dump db user_text req =
     (case split_user_str (ch_domain h) user_text of (user, d) \<Rightarrow>
        if d \<noteq> [] then Inr (db, [Forward d (remote_request d req)])
        else case get_profile h db user (rq_user req) (rq_domain req) of (db1, c) \<Rightarrow>
          if invalid_card c then Inr (db1, [reply_text 404 [] ''Not found''])
          else if find_header req ''Accept'' = ''application/json''
          then Inr (db1, [reply_text 200 ''Content-Type: application/json'' (dump (to_internal_json c))])
          else bind_result (to_vcard (ch_base_uri h) (ch_domain h) c) (\<lambda>t.
                 Inr (db1, [reply_text 200 ''Content-Type:text/vcard'' t])))"

text \<open>The answer of the other instance is passed on; none, or one with a negative status, is a failure.\<close>

definition profile_answered :: "string \<Rightarrow> fiy_response option \<Rightarrow> fiy_response" where
  "profile_answered d res =
     (case res of
        None \<Rightarrow> respond 500 ''Content-Type: text/html'' (body_of_string (''Failed to get profile from '' @ d @ '': Peer error.''))
      | Some r \<Rightarrow>
          (if rs_status r < 0
           then respond 500 ''Content-Type: text/html''
             (body_of_string (''Failed to get profile from '' @ d @ '': '' @ body_to_string (rs_body r)))
           else r))"

section \<open>Pictures\<close>

definition default_pfp_raw :: string where
  "default_pfp_raw = map char_of
     [0x89, 0x50, 0x4e, 0x47, 0x0d, 0x0a, 0x1a, 0x0a, 0x00, 0x00, 0x00, 0x0d,
      0x49, 0x48, 0x44, 0x52, 0x00, 0x00, 0x01, 0x00, 0x00, 0x00, 0x01, 0x00,
      0x01, 0x03, 0x00, 0x00, 0x00, 0x66, 0xbc, 0x3a, 0x25, 0x00, 0x00, 0x00,
      0x03, 0x50, 0x4c, 0x54, 0x45, 0xb5, 0xd0, 0xd0, 0x63, 0x04, 0x16, 0xea,
      0x00, 0x00, 0x00, 0x1f, 0x49, 0x44, 0x41, 0x54, 0x68, 0x81, 0xed, 0xc1,
      0x01, 0x0d, 0x00, 0x00, 0x00, 0xc2, 0xa0, 0xf7, 0x4f, 0x6d, 0x0e, 0x37,
      0xa0, 0x00, 0x00, 0x00, 0x00, 0x00, 0x00, 0x00, 0x00, 0xbe, 0x0d, 0x21,
      0x00, 0x00, 0x01, 0x9a, 0x60, 0xe1, 0xd5, 0x00, 0x00, 0x00, 0x00, 0x49,
      0x45, 0x4e, 0x44, 0xae, 0x42, 0x60, 0x82 :: nat]"

definition default_pfp :: fiy_response where
  "default_pfp =
     \<lparr>rs_status = 404,
      rs_headers = Some (''Content-Type: image/png'' @ [NL] @ ''Cache-Control: max-age=300'' @ [NL] @ ''Access-Control-Allow-Origin: *''),
      rs_body = BodyBuffer (Some default_pfp_raw)\<rparr>"

text \<open>A picture with a data URL. The media type ends at the semicolon or at the comma, whichever is first.\<close>

definition data_url_reply :: "contacts_host \<Rightarrow> string \<Rightarrow> fiy_response" where
  "data_url_reply h pfp =
     (case find_char pfp (CHR '','') 0 of
        None \<Rightarrow> default_pfp
      | Some start_data \<Rightarrow>
          (let media_type = take (case find_char pfp (CHR '';'') 0 of None \<Rightarrow> start_data | Some e \<Rightarrow> min e start_data) pfp
           in respond 200 (''Access-Control-Allow-Origin: *'' @ [NL] @ ''Cache-Control: max-age=300'' @ [NL] @ ''ContentType: '' @ media_type)
                (body_of_string (ch_decode64 h (drop (start_data + 1) pfp)))))"

text \<open>After a redirection the handler goes on.\<close>

definition pfp_request :: "contacts_host \<Rightarrow> contacts_db \<Rightarrow> string \<Rightarrow> fiy_request \<Rightarrow> contact_action list" where
  "pfp_request h db user_text req =
     (case split_user_str (ch_domain h) user_text of (user, d) \<Rightarrow>
        let url = get_pfp_value db user (rq_user req) (rq_domain req)
        in if url = [] then (if d = [] then [Reply default_pfp] else [Forward d (remote_request d req)])
           else (if starts_with url ''http'' then [Reply (respond 307 (''Location: '' @ url) BodyNone)] else []) @
                [Reply (if \<not> starts_with url ''data:'' then default_pfp else data_url_reply h (drop 5 url))])"

definition pfp_answered :: "fiy_response option \<Rightarrow> fiy_response" where
  "pfp_answered res = (case res of None \<Rightarrow> default_pfp | Some r \<Rightarrow> (if rs_status r < 0 then default_pfp else r))"

section \<open>Pages\<close>

definition asset_text :: "contacts_host \<Rightarrow> string \<Rightarrow> string" where
  "asset_text h subpath = ch_files h (ch_data_dir h @ ''/assets/'' @ subpath)"

definition mapped_reply :: "contacts_host \<Rightarrow> contacts_db \<Rightarrow> string \<Rightarrow> string \<Rightarrow> contact_result" where
  "mapped_reply h db headers subpath =
     (if asset_text h subpath = [] then Inl RuntimeError else Inr (db, [reply_text 200 headers (asset_text h subpath)]))"

definition rendered_reply :: "contacts_host \<Rightarrow> contacts_db \<Rightarrow> string \<Rightarrow> string \<Rightarrow> contact_result" where
  "rendered_reply h db headers subpath =
     Inr (db, [reply_text 200 headers (min_ssr_mustache_variable (asset_text h subpath)
       [(''fiy_contacts_base_uri'', ch_base_uri h), (''fiy_contacts_domain'', ch_domain h)] None)])"

definition max_age :: "string \<Rightarrow> string" where
  "max_age t = t @ [NL] @ ''Cache-Control: max-age=604800''"

definition age_first :: "string \<Rightarrow> string" where
  "age_first t = ''Cache-Control: max-age=604800'' @ [NL] @ t"

definition font_reply :: "contacts_host \<Rightarrow> contacts_db \<Rightarrow> string \<Rightarrow> contact_result option" where
  "font_reply h db ext =
     (if starts_with ext ''eot''
      then Some (mapped_reply h db (max_age ''Content-Type: application/vnd.ms-fontobject'') ''fontawesome-webfont.eot'')
      else if starts_with ext ''woff2'' then Some (mapped_reply h db (max_age ''Content-Type: font/woff2'') ''fontawesome-webfont.woff2'')
      else if starts_with ext ''woff'' then Some (mapped_reply h db (max_age ''Content-Type: font/woff'') ''fontawesome-webfont.woff'')
      else if starts_with ext ''ttf'' then Some (mapped_reply h db (max_age ''Content-Type: font/ttf'') ''fontawesome-webfont.ttf'')
      else if starts_with ext ''svg'' then Some (mapped_reply h db ''Cache-Control: max-age=604800'' ''fontawesome-webfont.svg'')
      else None)"

text \<open>The page files; \<open>None\<close> for other paths. Behind \<open>/fonts/\<close> the path is cut even if no font is found.\<close>

definition asset_reply :: "contacts_host \<Rightarrow> contacts_db \<Rightarrow> string \<Rightarrow> contact_result option \<times> string" where
  "asset_reply h db path =
     (if starts_with path ''/main.css'' then (Some (mapped_reply h db (max_age ''Content-Type: text/css'') ''main.css''), path)
      else if starts_with path ''/main.js''
      then (Some (rendered_reply h db (max_age ''Content-Type: text/javascript'') ''main.bundle.js''), path)
      else if path = ''/fa/fa.css'' then (Some (mapped_reply h db (max_age ''Content-Type: text/css'') ''font-awesome.css''), path)
      else if starts_with path ''/fonts/fontawesome-webfont.'' then (font_reply h db (drop 27 path), drop 27 path)
      else if path = ''/icon.svg'' then (Some (mapped_reply h db (age_first ''Content-Type: image/svg+xml'') ''icon.svg''), path)
      else if path = ''/favicon.ico'' then (Some (mapped_reply h db (age_first ''Content-Type: image/x-icon'') ''favicon.ico''), path)
      else (None, path))"

section \<open>Requests\<close>

definition save_request :: "contacts_host \<Rightarrow> contacts_db \<Rightarrow> string \<Rightarrow> string \<Rightarrow> contact_result" where
  "save_request h db user body =
     (case parse_card (ch_domain h) (ch_utc_offset h) body (new_card\<lparr>vc_owner := user\<rparr>) of (c, parsed) \<Rightarrow>
        case save_contact (ch_now h) (ch_fault h) db c of (db1, c1, res) \<Rightarrow>
          (case res of
             Success \<Rightarrow> bind_result (to_vcard (ch_base_uri h) (ch_domain h) c1) (\<lambda>t.
               Inr (db1, [reply_text 200 ''Content-Type: text/vcard'' t]))
           | Error \<Rightarrow> Inr (db1, [Reply (respond 500 ''Server Error'' BodyNone)])
           | Unauthorized \<Rightarrow> Inr (db1, [Reply (respond 401 ''Unauthorized'' BodyNone)])
           | NotFound \<Rightarrow> Inr (db1, [Reply (respond 404 ''Not Found'' BodyNone)])))"

text \<open>The outcome is used as a truth value, and success is the zero of the enumeration.\<close>

definition outcome_int :: "db_outcome \<Rightarrow> int" where
  "outcome_int r = (case r of Success \<Rightarrow> 0 | Unauthorized \<Rightarrow> 1 | NotFound \<Rightarrow> 2 | Error \<Rightarrow> 3)"

definition id_request :: "contacts_host \<Rightarrow> contacts_db \<Rightarrow> string \<Rightarrow> string \<Rightarrow> contact_result" where
  "id_request h db user id_text =
     (case stoll id_text of
        None \<Rightarrow> Inr (db, [reply_text 400 [] ''Invalid contact ID''])
      | Some i \<Rightarrow>
          (case get_contact db (new_card\<lparr>vc_id := i, vc_owner := user\<rparr>) of (c, res) \<Rightarrow>
             if outcome_int res \<noteq> 0
             then bind_result (to_vcard (ch_base_uri h) (ch_domain h) c) (\<lambda>t.
                    Inr (db, [reply_text 200 ''Content-Type: text/vcard'' t]))
             else Inr (db, [reply_text 404 [] ''No card with given id''])))"

text \<open>The text of the number still has the slash before it.\<close>

definition delete_request :: "contacts_db \<Rightarrow> string \<Rightarrow> string \<Rightarrow> contact_result" where
  "delete_request db user path =
     (case stoll (drop 7 path) of
        None \<Rightarrow> Inr (db, [reply_text 400 [] ''Invalid contact ID''])
      | Some i \<Rightarrow> bind_result (delete_contact db user i) (\<lambda>(db1, res). Inr (db1, [reply_text 500 [] ''TODO''])))"

definition local_request ::
  "contacts_host \<Rightarrow> contacts_db \<Rightarrow> string \<Rightarrow> string \<Rightarrow> fiy_request \<Rightarrow> contact_result" where
  "local_request h db user path0 req =
     (case asset_reply h db path0 of
        (Some res, path) \<Rightarrow> res
      | (None, path) \<Rightarrow>
          (if path = ''/'' \<or> (length path > 1 \<and> path ! 1 = CHR ''?'') then rendered_reply h db ''Content-Type: text/html'' ''index.html''
           else if path = ''/all'' then
             bind_result (get_user_rolodex h db user) (\<lambda>(db1, t). Inr (db1, [reply_text 200 ''Content-Type: text/vcard'' t]))
           else if path = ''/save'' then save_request h db user (rq_body req)
           else if starts_with path ''/id/'' then id_request h db user (drop 4 path)
           else if rq_method req = verb_delete \<and> starts_with path ''/delete/'' then delete_request db user path
           else if path = ''/tzdb'' then Inr (db, [reply_text 200 (max_age ''Content-Type: application/json'') (ch_timezones h)])
           else Inr (db, [reply_text 404 [] ''Not found''])))"

definition contacts_handle_request ::
  "contacts_host \<Rightarrow> (json \<Rightarrow> string) \<Rightarrow> contacts_db \<Rightarrow> fiy_request \<Rightarrow> contact_result" where
  "contacts_handle_request h dump db req =
     (case rq_path req of
        None \<Rightarrow> Inl UndefinedBehaviour
      | Some path \<Rightarrow>
          (if rq_method req = verb_get \<and> starts_with path ''/profile/'' then profile_request h dump db (drop 9 path) req
           else if starts_with path ''/pfp/'' then Inr (db, pfp_request h db (drop 5 path) req)
           else bind_result (host_uri (ch_base_uri h) (ch_domain h)) (\<lambda>host_text.
             let no_auth = [Reply (respond 303 (''Location: '' @ host_text @ ''/portal/login'') BodyNone)]
             in case rq_user req of
                  None \<Rightarrow> Inr (db, if rq_domain req = None then no_auth else [Reply (respond 404 [] BodyNone)])
                | Some user \<Rightarrow>
                    (if rq_domain req \<noteq> None then Inr (db, no_auth) else local_request h db user path req))))"

section \<open>The cards over many requests\<close>

datatype contact_event = Requested fiy_request | Deleted string

inductive contact_step :: "contact_event \<Rightarrow> contacts_db \<Rightarrow> contacts_db \<Rightarrow> bool" where
  requested: "contacts_handle_request h dump db req = Inr (db', actions) \<Longrightarrow> contact_step (Requested req) db db'"
| deleted: "contact_step (Deleted user) db (delete_contacts_of db user)"

inductive_cases contact_stepE: "contact_step e db db'"

text \<open>The events by which a user acts: requests of theirs from this instance, and the end of their account.\<close>

fun acts_for :: "contact_event \<Rightarrow> string \<Rightarrow> bool" where
  "acts_for (Requested req) user \<longleftrightarrow> rq_user req = Some user \<and> rq_domain req = None"
| "acts_for (Deleted u) user \<longleftrightarrow> u = user"

lemma parse_line_owner: "parse_line d o' l c = Some c' \<Longrightarrow> vc_owner c' = vc_owner c"
  by (auto simp: parse_line_def parse_prop_def Let_def split: option.splits sum.splits if_splits prod.splits)

lemma parse_lines_owner: "vc_owner (fst (parse_lines d o' ls c)) = vc_owner c"
  by (induction ls arbitrary: c) (auto split: option.split dest: parse_line_owner)

lemma parse_card_owner: "vc_owner (fst (parse_card d o' s c)) = vc_owner c"
  by (simp add: parse_card_def Let_def parse_lines_owner)

text \<open>The tables after a request: as before, with a profile that was made, or after a save of the local requester.\<close>

definition request_effect :: "fiy_request \<Rightarrow> contacts_db \<Rightarrow> contacts_db \<Rightarrow> bool" where
  "request_effect req db db' \<longleftrightarrow> db' = db \<or> (\<exists>h user ru rd. db' = fst (get_profile h db user ru rd)) \<or>
     (\<exists>now fault c. acts_for (Requested req) (vc_owner c) \<and> db' = fst (save_contact now fault db c))"

lemma no_effect: "request_effect req db db"
  by (simp add: request_effect_def)

lemma asset_effect: "asset_reply h db path = (Some res, path') \<Longrightarrow> res = Inr (db', actions) \<Longrightarrow> db' = db"
  by (auto simp: asset_reply_def font_reply_def mapped_reply_def rendered_reply_def split: if_splits)

lemma rolodex_effect: "get_user_rolodex h db user = Inr (db', t) \<Longrightarrow> db' = db \<or> (\<exists>ru rd. db' = fst (get_profile h db user ru rd))"
proof -
  assume "get_user_rolodex h db user = Inr (db', t)"
  then have "db' = db \<or> db' = fst (get_profile h db user (Some user) (Some []))"
    by (cases "get_profile h db user (Some user) (Some [])") (auto simp: get_user_rolodex_def bind_result_Inr_iff split: if_splits)
  then show ?thesis by blast
qed

lemma save_effect:
  assumes "save_request h db user body = Inr (db', actions)" "rq_user req = Some user" "rq_domain req = None"
  shows "request_effect req db db'"
proof -
  let ?c = "fst (parse_card (ch_domain h) (ch_utc_offset h) body (new_card\<lparr>vc_owner := user\<rparr>))"
  have "db' = fst (save_contact (ch_now h) (ch_fault h) db ?c)"
    using assms(1) by (auto simp: save_request_def bind_result_Inr_iff split: prod.splits db_outcome.splits)
  moreover have "vc_owner ?c = user" by (simp add: parse_card_owner)
  ultimately have "acts_for (Requested req) (vc_owner ?c) \<and> db' = fst (save_contact (ch_now h) (ch_fault h) db ?c)"
    using assms(2,3) by simp
  then show ?thesis unfolding request_effect_def by blast
qed

lemma local_effect:
  assumes "local_request h db user path req = Inr (db', actions)" "rq_user req = Some user" "rq_domain req = None"
  shows "request_effect req db db'"
proof (cases "asset_reply h db path")
  case (Pair r path')
  show ?thesis
  proof (cases r)
    case (Some res)
    then have "db' = db" using assms(1) asset_effect Pair by (auto simp: local_request_def)
    then show ?thesis by (simp add: request_effect_def)
  next
    case None
    have "request_effect req db db'" if "id_request h db user t = Inr (db', actions)" for t
      using that by (auto simp: request_effect_def id_request_def bind_result_Inr_iff split: option.splits prod.splits if_splits)
    moreover have "request_effect req db db'" if "delete_request db user t = Inr (db', actions)" for t
      using that by (auto simp: request_effect_def delete_request_def delete_contact_def card_columns_def bind_result_Inr_iff split: option.splits)
    moreover have "request_effect req db db'" if "get_user_rolodex h db user = Inr (db', t)" for t
      using rolodex_effect [OF that] unfolding request_effect_def by blast
    moreover note no_effect [of req db]
    ultimately show ?thesis using assms save_effect [OF _ assms(2,3)] Pair None
      by (auto simp: local_request_def rendered_reply_def bind_result_Inr_iff split: if_splits)
  qed
qed

lemma profile_effect: "profile_request h dump db t req = Inr (db', actions) \<Longrightarrow> request_effect req db db'"
proof -
  assume "profile_request h dump db t req = Inr (db', actions)"
  then have "db' = db \<or> db' = fst (get_profile h db (fst (split_user_str (ch_domain h) t)) (rq_user req) (rq_domain req))"
    by (auto simp: profile_request_def bind_result_Inr_iff split: prod.splits if_splits)
  then show ?thesis unfolding request_effect_def by blast
qed

lemma handle_effect: "contacts_handle_request h dump db req = Inr (db', actions) \<Longrightarrow> request_effect req db db'"
  by (auto simp: contacts_handle_request_def bind_result_Inr_iff no_effect Let_def
      split: option.splits if_splits intro: profile_effect local_effect)

lemma effect_keeps:
  assumes "tables_ok db" "request_effect req db db'"
  shows "tables_ok db'"
    and "stored_cards db i = Some (owner, e) \<Longrightarrow> \<not> acts_for (Requested req) owner \<Longrightarrow> stored_cards db' i = Some (owner, e)"
proof -
  from assms(2) consider "db' = db" | (profile) h user where "db' = fst (get_profile_base h db user)"
    | (save) now fault c where "acts_for (Requested req) (vc_owner c)" "db' = fst (save_contact now fault db c)"
    unfolding request_effect_def get_profile_tables by blast
  note effects = this
  from effects show "tables_ok db'" by cases (simp_all only: assms(1) base_keeps(1) save_keeps(1))
  assume s: "stored_cards db i = Some (owner, e)" "\<not> acts_for (Requested req) owner"
  from effects show "stored_cards db' i = Some (owner, e)"
  proof cases
    case profile
    then show ?thesis using base_keeps(2) [OF assms(1) s(1)] by simp
  next
    case save
    then have "owner \<noteq> vc_owner c" using s(2) by blast
    then show ?thesis using save_keeps(2) [OF assms(1) s(1)] save(2) by simp
  qed (simp only: s(1))
qed

interpretation contact_store: owned_store tables_ok stored_cards contact_step acts_for
proof unfold_locales
  fix e s t assume "tables_ok s" "contact_step e s t"
  then show "tables_ok t" using effect_keeps(1) handle_effect delete_user_tables by (auto elim!: contact_stepE) blast
next
  fix e s t i owner x assume s: "tables_ok s" "contact_step e s t" "stored_cards s i = Some (owner, x)" "\<not> acts_for e owner"
  from s(2) show "stored_cards t i = Some (owner, x)"
  proof cases
    case (requested h dump req actions)
    then show ?thesis using effect_keeps(2) [OF s(1) handle_effect] s(3,4) by blast
  next
    case (deleted user)
    then show ?thesis using delete_user_tables [OF s(1), of user i] owns_card_iff [OF s(3), of user] s(3,4) by simp
  qed
qed

section \<open>Properties\<close>

text \<open>
  C18. Nobody else touches a user's cards: over any run of requests and account deletions that starts from the empty tables,
  a card stays exactly as it is, with its owner, user, time and properties, as long as its owner makes no request on
  this instance and keeps their account; the tables stay consistent throughout.
\<close>

theorem others_keep_cards:
  assumes "event_run contact_step empty_contacts es db" "stored_cards db i = Some (owner, entry)"
    and "event_run contact_step db fs db'" "\<forall>e \<in> set fs. \<not> acts_for e owner"
  shows "tables_ok db' \<and> stored_cards db' i = Some (owner, entry)"
proof -
  have "tables_ok empty_contacts" by (simp add: tables_ok_def empty_contacts_def)
  with contact_store.run_ok [OF assms(1)] have "tables_ok db" by blast
  with contact_store.run_ok [OF assms(3)] contact_store.run_keeps [OF assms(3) _ assms(2)] assms(4) show ?thesis by blast
qed

definition example_host :: contacts_host where
  "example_host = \<lparr>ch_domain = ''a.b'', ch_base_uri = ''https://contacts.a.b'', ch_now = 9, ch_user_exists = (\<lambda>u. True), ch_files = (\<lambda>f. []),
     ch_data_dir = [], ch_utc_offset = 0, ch_decode64 = id, ch_timezones = [], ch_fault = None\<rparr>"

definition example_save :: fiy_request where
  "example_save = \<lparr>rq_domain = None, rq_user = Some ''bob'', rq_method = verb_get, rq_path = Some ''/save'', rq_headers = None,
     rq_body = ''BEGIN:VCARD'' @ EOL @ ''FN:Amy'' @ EOL @ ''END:VCARD'', rq_has_callback = True\<rparr>"

lemma example_saved:
  "case contacts_handle_request example_host (\<lambda>j. []) empty_contacts example_save of
     Inl e \<Rightarrow> False
   | Inr (db, actions) \<Rightarrow> stored_cards db 1 = Some (''bob'', None, 9, [(''FN'', [], ''Amy'', 0)], [])"
  by code_simp

lemma others_keep_cards_witness:
  "\<exists>db db'. event_run contact_step empty_contacts [Requested example_save] db \<and>
    event_run contact_step db [Deleted ''amy''] db' \<and>
    stored_cards db' 1 = Some (''bob'', None, 9, [(''FN'', [], ''Amy'', 0)], [])"
proof -
  obtain db actions where r: "contacts_handle_request example_host (\<lambda>j. []) empty_contacts example_save = Inr (db, actions)"
    and card: "stored_cards db 1 = Some (''bob'', None, 9, [(''FN'', [], ''Amy'', 0)], [])"
    using example_saved by (auto split: sum.splits)
  have runs: "event_run contact_step empty_contacts [Requested example_save] db"
    "event_run contact_step db [Deleted ''amy''] (delete_contacts_of db ''amy'')"
    by (auto intro!: event_run.intros contact_step.intros r)
  have "\<forall>e \<in> set [Deleted ''amy'']. \<not> acts_for e ''bob''" by simp
  from others_keep_cards [OF runs(1) card runs(2) this] runs show ?thesis by blast
qed

text \<open>
  C36. Every request that is handled is answered or forwarded exactly once, but for a picture whose address is a link:
  that one is answered with a redirection and then again with the default picture.
\<close>

theorem contact_answered_once:
  assumes "contacts_handle_request h dump db req = Inr (db', actions)" "rq_path req = Some path"
  shows "length actions =
    (if starts_with path ''/pfp/'' \<and>
        starts_with (get_pfp_value db (fst (split_user_str (ch_domain h) (drop 5 path))) (rq_user req) (rq_domain req)) ''http''
     then 2 else 1)"
proof -
  have once: "length actions = 1" if "local_request h db user path req = Inr (db', actions)" for user
    using that by (auto simp: local_request_def asset_reply_def font_reply_def mapped_reply_def rendered_reply_def save_request_def
        id_request_def delete_request_def bind_result_Inr_iff split: if_splits option.splits prod.splits db_outcome.splits)
  have profile: "length actions = 1" if "profile_request h dump db t req = Inr (db', actions)" for t
    using that by (auto simp: profile_request_def bind_result_Inr_iff split: if_splits prod.splits)
  have apart: "starts_with path ''/profile/'' \<Longrightarrow> \<not> starts_with path ''/pfp/''" by (auto simp: starts_with_iff)
  have http: "starts_with u ''http'' \<Longrightarrow> u \<noteq> []" for u by (auto simp: starts_with_def)
  show ?thesis using assms once profile apart http
    by (auto simp: contacts_handle_request_def pfp_request_def bind_result_Inr_iff Let_def split: if_splits option.splits prod.splits)
qed

lemma contact_answered_once_witness:
  "\<exists>db actions. contacts_handle_request example_host (\<lambda>j. []) empty_contacts example_save = Inr (db, actions) \<and> length actions = 1"
proof -
  obtain db actions where r: "contacts_handle_request example_host (\<lambda>j. []) empty_contacts example_save = Inr (db, actions)"
    using example_saved by (auto split: sum.splits)
  have "rq_path example_save = Some ''/save''" by (simp add: example_save_def)
  from contact_answered_once [OF r this] r show ?thesis by (simp add: starts_with_def)
qed

text \<open>A request to delete a card is always refused: the text of the number starts with a slash.\<close>

lemma delete_always_refused:
  "starts_with path ''/delete/'' \<Longrightarrow> delete_request db user path = Inr (db, [reply_text 400 [] ''Invalid contact ID''])"
  by (auto simp: starts_with_iff delete_request_def stoll_def is_space_def is_digit_def code_def)

text \<open>A card that is there is answered as missing, and one that is missing with an empty card.\<close>

lemma id_answers_inverted:
  assumes "stoll t = Some i" "i \<noteq> -1"
  shows "id_request h db user t =
    (if list_ex (\<lambda>r. cw_id r = i \<and> (user = [] \<or> cw_owner r = user)) (ct_cards db)
     then Inr (db, [reply_text 404 [] ''No card with given id''])
     else bind_result (to_vcard (ch_base_uri h) (ch_domain h) (new_card\<lparr>vc_id := i, vc_owner := user\<rparr>)) (\<lambda>x.
            Inr (db, [reply_text 200 ''Content-Type: text/vcard'' x])))"
  using assms by (auto simp: id_request_def get_contact_def outcome_int_def list_ex_iff find_None_iff find_Some_iff split: option.split)

end
