(* ===== verification/Mail.thy ===== *)
theory Mail
  imports ModConnectors Calendar Runs
begin

text \<open>
  The mail mod (\<open>mods/mail/MailBox.hpp\<close>, \<open>mod.cpp\<close>): one box in memory for all users of the instance, and the handler
  of requests. The host's \<open>request\<close> is a function pointer in its information; the connector of shared libraries sets it to
  \<open>request_impl\<close>. A handler returns the box, what it did, and the exception that it ended with, if any. What is printed is
  left out.

  Shown: mail between users of the instance is delivered; a mail to another instance ends with an exception;
  no run of requests and account deletions takes a mail out of the box.
\<close>

section \<open>Mails\<close>

record Mail =
  ml_from :: string
  ml_recipients :: "string list"
  ml_subject :: string
  ml_body :: string
  ml_date :: int
  ml_index :: nat

definition QUOTE :: string where
  "QUOTE = [CHR 0x27]"

definition week_days :: "string list" where
  "week_days = [''Sun'', ''Mon'', ''Tue'', ''Wed'', ''Thu'', ''Fri'', ''Sat'']"

definition month_names :: "string list" where
  "month_names = [''Jan'', ''Feb'', ''Mar'', ''Apr'', ''May'', ''Jun'', ''Jul'', ''Aug'', ''Sep'', ''Oct'', ''Nov'', ''Dec'']"

text \<open>\<open>asctime(gmtime(\<cdot>))\<close>: the day of the month is padded with a blank, and the text ends with a line feed.\<close>

definition asctime_gm :: "int \<Rightarrow> string" where
  "asctime_gm t =
     (let (y, m, d) = civil_from_days (t div 86400); s = t mod 86400
      in week_days ! nat ((t div 86400 + 4) mod 7) @ '' '' @ month_names ! nat (m - 1) @ '' '' @
         (if d < 10 then '' '' else []) @ show_int d @ '' '' @
         two_digits (s div 3600) @ '':'' @ two_digits (s div 60 mod 60) @ '':'' @ two_digits (s mod 60) @ '' '' @ show_int y @ [NL])"

definition short_view :: "Mail \<Rightarrow> string" where
  "short_view m =
     ''<tr><td><a href='' @ QUOTE @ ''view/'' @ show_nat (ml_index m) @ QUOTE @ ''>'' @ asctime_gm (ml_date m) @ ''</a></td><td>'' @
     ml_from m @ ''</td><td>'' @
     (if length (ml_subject m) > 20 then take 17 (ml_subject m) @ ''...'' else ml_subject m) @ ''</td></tr>''"

definition long_view :: "Mail \<Rightarrow> string" where
  "long_view m =
     butlast (butlast (''From: '' @ ml_from m @ ''<hr/>To: '' @ concat (map (\<lambda>u. u @ '', '') (ml_recipients m)))) @
     ''<hr/>Subject: '' @ ml_subject m @ ''<hr/>'' @ ml_body m @ ''<hr/>Received: '' @ asctime_gm (ml_date m)"

section \<open>The box\<close>

definition get_inbox :: "Mail list \<Rightarrow> string \<Rightarrow> Mail list" where
  "get_inbox box user = filter (\<lambda>m. user \<in> set (ml_recipients m)) box"

definition table_start :: string where
  "table_start = ''<table><tr><th>Date</th><th>From</th><th>Subject</ht><tr/>''"

text \<open>There is no \<open>break\<close> in this one: a user who is named twice sees the mail twice.\<close>

definition get_inbox_str :: "Mail list \<Rightarrow> string \<Rightarrow> string" where
  "get_inbox_str box user =
     table_start @ concat (map (\<lambda>m. concat (map (\<lambda>u. if u = user then short_view m else []) (ml_recipients m))) box) @ ''</table>''"

definition get_outbox :: "Mail list \<Rightarrow> string \<Rightarrow> Mail list" where
  "get_outbox box user = filter (\<lambda>m. ml_from m = user) box"

definition get_outbox_str :: "Mail list \<Rightarrow> string \<Rightarrow> string" where
  "get_outbox_str box user = table_start @ concat (map short_view (get_outbox box user)) @ ''</table>''"

definition push_mail :: "Mail list \<Rightarrow> Mail \<Rightarrow> Mail list" where
  "push_mail box m = box @ [m\<lparr>ml_index := length box\<rparr>]"

definition get_mail :: "Mail list \<Rightarrow> nat \<Rightarrow> Mail option" where
  "get_mail box i = (if i \<ge> length box then None else Some (box ! i))"

definition delete_user_mail :: "string \<Rightarrow> Mail list \<Rightarrow> Mail list" where
  "delete_user_mail user box =
     filter (\<lambda>m. \<not> (ml_recipients m = [] \<or> ml_from m = user))
       (map (\<lambda>m. m\<lparr>ml_recipients := filter (\<lambda>u. u \<noteq> user) (ml_recipients m)\<rparr>) box)"

section \<open>Requests\<close>

record mail_host =
  mh_domain :: string
  mh_base_uri :: string
  mh_now :: int
  mh_request :: "string \<Rightarrow> fiy_request \<Rightarrow> peer_effect list result"

text \<open>\<open>Host::request_mod\<close>: the callback that the library sets calls the one that is given.\<close>

definition host_request_mod :: "mail_host \<Rightarrow> string \<Rightarrow> fiy_request \<Rightarrow> peer_effect list result" where
  "host_request_mod h id_text req = mh_request h id_text (req\<lparr>rq_has_callback := True\<rparr>)"

datatype mail_action = MailReply fiy_response | MailRequest "peer_effect list"

type_synonym mail_outcome = "Mail list \<times> mail_action list \<times> unit result"

definition mail_answer :: "Mail list \<Rightarrow> int \<Rightarrow> string \<Rightarrow> string \<Rightarrow> mail_outcome" where
  "mail_answer box nr headers body = (box, [MailReply (respond nr headers (body_of_string body))], Inr ())"

text \<open>\<open>split_string\<close> is only called with a comma.\<close>

definition split_string :: "string \<Rightarrow> string list" where
  "split_string s = split_on (CHR '','') s"

definition with_domain :: "string \<Rightarrow> string \<Rightarrow> string" where
  "with_domain host_domain recip = (if CHR ''@'' \<in> set recip then recip else recip @ ''@'' @ host_domain)"

text \<open>A \<open>std::set\<close> of the domains, in their order.\<close>

definition other_domains :: "string \<Rightarrow> string list \<Rightarrow> string list" where
  "other_domains host_domain destinations =
     sort (remdups (filter (\<lambda>d. d \<noteq> host_domain)
       (concat (map (\<lambda>u. case find_char u (CHR ''@'') 0 of None \<Rightarrow> [] | Some k \<Rightarrow> [drop (k + 1) u]) destinations))))"

text \<open>For each domain a request of its own, and then the request that is being handled, whose domain is null.\<close>

fun send_to :: "mail_host \<Rightarrow> fiy_request \<Rightarrow> string list \<Rightarrow> mail_action list \<times> unit result" where
  "send_to h req [] = ([], Inr ())"
| "send_to h req (d # ds) =
     (case host_request_mod h ''mail'' (req\<lparr>rq_domain := Some d\<rparr>) of
        Inl e \<Rightarrow> ([], Inl e)
      | Inr es \<Rightarrow>
          (case mh_request h ''mail'' req of
             Inl e \<Rightarrow> ([MailRequest es], Inl e)
           | Inr fs \<Rightarrow> (case send_to h req ds of (acts, r) \<Rightarrow> (MailRequest es # MailRequest fs # acts, r))))"

text \<open>The body is read as a C string: destinations, subject and, from its line feed on, the mail.\<close>

definition send_mail :: "mail_host \<Rightarrow> Mail list \<Rightarrow> fiy_request \<Rightarrow> mail_outcome" where
  "send_mail h box req =
     (if rq_user req = None then mail_answer box 401 ''Unauthenticated'' []
      else let body = takeWhile (\<lambda>c. code c \<noteq> 0) (rq_body req)
           in case find_char body NL 0 of
                None \<Rightarrow> mail_answer box 400 ''Invalid body'' []
              | Some i \<Rightarrow>
                  (case find_char body NL (i + 1) of
                     None \<Rightarrow> mail_answer box 400 [] []
                   | Some j \<Rightarrow>
                       (let dests = map (with_domain (mh_domain h)) (split_string (take i body));
                            m = \<lparr>ml_from = global_user_str (mh_domain h) req, ml_recipients = dests,
                                 ml_subject = substr body (i + 1) (j - (i + 1)), ml_body = drop j body,
                                 ml_date = mh_now h, ml_index = 0\<rparr>;
                            box1 = push_mail box m;
                            (acts, r) = (if rq_domain req = None then send_to h req (other_domains (mh_domain h) dests) else ([], Inr ()))
                        in case r of
                             Inl e \<Rightarrow> (box1, acts, Inl e)
                           | Inr _ \<Rightarrow> (box1, acts @ [MailReply (respond 200 [] BodyNone)], Inr ()))))"

text \<open>\<open>strtoul\<close> in base ten: a number above the range gives the largest one, a minus sign is taken modulo 2 to the 64.\<close>

definition strtoul10 :: "string \<Rightarrow> nat" where
  "strtoul10 s =
     (let s1 = dropWhile is_space s; neg = (s1 \<noteq> [] \<and> hd s1 = CHR ''-'');
          ds = takeWhile is_digit (if s1 \<noteq> [] \<and> (hd s1 = CHR ''-'' \<or> hd s1 = CHR ''+'') then tl s1 else s1);
          v = read_digits 0 ds
      in if v \<ge> 2 ^ 64 then 2 ^ 64 - 1 else if neg then (2 ^ 64 - v) mod 2 ^ 64 else v)"

definition link_to :: "string \<Rightarrow> string \<Rightarrow> string" where
  "link_to url t = ''<a href='' @ QUOTE @ url @ QUOTE @ ''>'' @ t @ ''</a>''"

definition header_links :: "mail_host \<Rightarrow> string result" where
  "header_links h = bind_result (host_uri (mh_base_uri h) (mh_domain h)) (\<lambda>u. Inr
     (''<nav>'' @ link_to (u @ ''/portal'') (mh_domain h) @ '' | '' @ link_to (mh_base_uri h @ ''/inbox'') ''Inbox'' @
      '' | '' @ link_to (mh_base_uri h @ ''/outbox'') ''Outbox'' @ '' | '' @ link_to (mh_base_uri h @ ''/compose'') ''Compose'' @ ''<hr/></nav>''))"

definition welcome_text :: string where
  "welcome_text = ''<h1>Welcome to Mail!</h1><p>This demo mod is used to test federation protocol while providing basic communication functionality. Messages are stored in server memory and thus may disappear without notice.</p>''"

definition attr_text :: "string \<Rightarrow> string \<Rightarrow> string" where
  "attr_text k v = k @ ''='' @ QUOTE @ v @ QUOTE"

definition element_value :: "string \<Rightarrow> string" where
  "element_value i = ''document.getElementById('' @ QUOTE @ i @ QUOTE @ '').value''"

definition BACKSLASH_N :: string where
  "BACKSLASH_N = QUOTE @ [CHR 0x5C] @ ''n'' @ QUOTE"

definition compose_page :: "string \<Rightarrow> string" where
  "compose_page links =
     ''<!doctype html><html><body>'' @ [NL] @ links @
     ''<form '' @ attr_text ''action'' ''javascript:submit()'' @ ''>'' @ [NL] @
     ''To: <input '' @ attr_text ''type'' ''text'' @ '' '' @ attr_text ''id'' ''inp-to'' @ '' '' @
       attr_text ''placeholder'' ''tate@dvtt.net,test@example.com,jerry'' @ '' />'' @ [NL] @
     ''<br/>Subject: <input '' @ attr_text ''type'' ''text'' @ '' '' @ attr_text ''id'' ''inp-subject'' @ '' '' @
       attr_text ''placeholder'' ''Important message'' @ '' />'' @ [NL] @
     ''<br/>Body: <textarea '' @ attr_text ''id'' ''inp-body'' @ ''>Write your email here</textarea>'' @ [NL] @
     ''<br/><button '' @ attr_text ''type'' ''submit'' @ ''>Send</button>'' @ [NL] @
     ''</form>'' @ [NL] @
     ''<script>'' @ [NL] @
     ''async function submit() {'' @ [NL] @
     ''    fetch('' @ QUOTE @ ''send'' @ QUOTE @ '', {'' @ [NL] @
     ''            method: '' @ QUOTE @ ''POST'' @ QUOTE @ '','' @ [NL] @
     ''            body: '' @ element_value ''inp-to'' @ [NL] @
     ''                  + '' @ BACKSLASH_N @ '' + '' @ element_value ''inp-subject'' @ [NL] @
     ''                  + '' @ BACKSLASH_N @ '' + '' @ element_value ''inp-body'' @ [NL] @
     ''    }).then(v => window.location = '' @ QUOTE @ ''outbox'' @ QUOTE @ '')'' @ [NL] @
     ''    .catch(console.error);'' @ [NL] @
     ''}'' @ [NL] @
     ''</script>'' @ [NL] @
     ''</body></html>''"

definition page_answer :: "Mail list \<Rightarrow> string result \<Rightarrow> mail_outcome" where
  "page_answer box page =
     (case page of Inl e \<Rightarrow> (box, [], Inl e) | Inr t \<Rightarrow> mail_answer box 200 ''Content-Type: text/html'' t)"

definition mail_handle_request :: "mail_host \<Rightarrow> Mail list \<Rightarrow> fiy_request \<Rightarrow> mail_outcome" where
  "mail_handle_request h box req =
     (case (rq_user req, rq_path req) of
        (None, _) \<Rightarrow>
          (case host_uri (mh_base_uri h) (mh_domain h) of
             Inl e \<Rightarrow> (box, [], Inl e)
           | Inr u \<Rightarrow> mail_answer box 303 (''Location: '' @ u @ ''/portal/login'') [])
      | (Some user, None) \<Rightarrow> (box, [], Inl UndefinedBehaviour)
      | (Some user, Some path) \<Rightarrow>
          (let mine = global_user_str (mh_domain h) req;
               with_links = (\<lambda>t. bind_result (header_links h) (\<lambda>links. Inr (links @ t)))
           in if path = ''/send'' then send_mail h box req
              else if path = ''/'' then page_answer box (with_links welcome_text)
              else if path = ''/inbox'' then
                (if rq_domain req = None then page_answer box (with_links (get_inbox_str box mine))
                 else mail_answer box 401 ''Unauthenticated'' [])
              else if path = ''/outbox'' then
                (if rq_domain req = None then page_answer box (with_links (get_outbox_str box mine))
                 else mail_answer box 401 ''Unauthenticated'' [])
              else if path = ''/compose'' then page_answer box (bind_result (header_links h) (\<lambda>links. Inr (compose_page links)))
              else if starts_with path ''/view/'' then
                (case get_mail box (strtoul10 (drop 6 path)) of
                   None \<Rightarrow> mail_answer box 404 ''Not found'' []
                 | Some m \<Rightarrow> page_answer box (with_links (long_view m)))
              else mail_answer box 404 ''Not found.'' []))"

section \<open>The box over many requests\<close>

datatype mail_event = Handled fiy_request | UserDeleted string

text \<open>Names of users of the instance hold no \<open>@\<close>; the domain of a request is another one, or null.\<close>

inductive mail_step :: "mail_event \<Rightarrow> Mail list \<Rightarrow> Mail list \<Rightarrow> bool" where
  handled: "mail_handle_request h box req = (box', actions, r) \<Longrightarrow> mail_step (Handled req) box box'"
| user_deleted: "CHR ''@'' \<notin> set user \<Longrightarrow> mail_step (UserDeleted user) box (delete_user_mail user box)"

inductive_cases mail_stepE: "mail_step e box box'"

definition full_address :: "string \<Rightarrow> bool" where
  "full_address a \<longleftrightarrow> CHR ''@'' \<in> set a"

definition mail_ok :: "Mail list \<Rightarrow> bool" where
  "mail_ok box \<longleftrightarrow> (\<forall>i < length box. ml_index (box ! i) = i) \<and>
     list_all (\<lambda>m. full_address (ml_from m) \<and> ml_recipients m \<noteq> [] \<and> list_all full_address (ml_recipients m)) box"

definition mail_look :: "Mail list \<Rightarrow> int \<Rightarrow> (string \<times> Mail) option" where
  "mail_look box i = (if i < 0 then None else map_option (\<lambda>m. (ml_from m, m)) (get_mail box (nat i)))"

lemma mail_ok_push:
  "mail_ok box \<Longrightarrow> full_address (ml_from m) \<Longrightarrow> ml_recipients m \<noteq> [] \<Longrightarrow> list_all full_address (ml_recipients m) \<Longrightarrow>
    mail_ok (push_mail box m)"
  by (auto simp: mail_ok_def push_mail_def nth_append less_Suc_eq)

lemma mail_look_push: "mail_look box i = Some x \<Longrightarrow> mail_look (push_mail box m) i = Some x"
  by (auto simp: mail_look_def get_mail_def push_mail_def nth_append split: if_splits)

text \<open>An account is deleted by its name, but the box holds addresses: nothing goes.\<close>

lemma delete_user_nothing: "mail_ok box \<Longrightarrow> CHR ''@'' \<notin> set user \<Longrightarrow> delete_user_mail user box = box"
proof -
  assume ok: "mail_ok box" and user: "CHR ''@'' \<notin> set user"
  have "filter (\<lambda>u. u \<noteq> user) rs = rs" if "list_all full_address rs" for rs
    using that user by (induction rs) (auto simp: full_address_def)
  then have "map (\<lambda>m. m\<lparr>ml_recipients := filter (\<lambda>u. u \<noteq> user) (ml_recipients m)\<rparr>) box = box"
    using ok by (intro map_idI) (simp add: mail_ok_def list_all_iff)
  moreover have "filter (\<lambda>m. \<not> (ml_recipients m = [] \<or> ml_from m = user)) box = box"
    using ok user by (auto simp: mail_ok_def list_all_iff full_address_def intro!: filter_True)
  ultimately show ?thesis by (simp add: delete_user_mail_def)
qed

lemma with_domain_full: "full_address (with_domain d r)"
  by (simp add: with_domain_def full_address_def)

lemma send_mail_effect:
  assumes "send_mail h box req = (box', acts, r)" "mail_ok box"
  shows "mail_ok box' \<and> (mail_look box i = Some x \<longrightarrow> mail_look box' i = Some x)"
proof (cases "box' = box")
  case False
  then obtain m where m: "box' = push_mail box m" "full_address (ml_from m)" "ml_recipients m \<noteq> []" "list_all full_address (ml_recipients m)"
  proof -
    assume new: "\<And>m. box' = push_mail box m \<Longrightarrow> full_address (ml_from m) \<Longrightarrow> ml_recipients m \<noteq> [] \<Longrightarrow>
      list_all full_address (ml_recipients m) \<Longrightarrow> thesis"
    have ne: "split_on c s \<noteq> []" for c s by (cases s) (auto split: list.split)
    from assms(1) False show thesis
      by (auto simp: send_mail_def mail_answer_def Let_def global_user_str_def full_address_def split_string_def ne list_all_iff
          with_domain_full [unfolded full_address_def] split: if_splits option.splits prod.splits sum.splits intro!: new)
  qed
  then show ?thesis using mail_ok_push mail_look_push assms(2) by blast
qed (simp add: assms(2))

lemma mail_request_effect:
  assumes "mail_handle_request h box req = (box', acts, r)" "mail_ok box"
  shows "mail_ok box' \<and> (mail_look box i = Some x \<longrightarrow> mail_look box' i = Some x)"
proof (cases "rq_user req \<noteq> None \<and> rq_path req = Some ''/send''")
  case True
  then have "send_mail h box req = (box', acts, r)" using assms(1) by (auto simp: mail_handle_request_def Let_def)
  then show ?thesis using send_mail_effect assms(2) by blast
next
  case False
  then have "box' = box"
    using assms(1) by (auto simp: mail_handle_request_def page_answer_def mail_answer_def Let_def split: option.splits sum.splits if_splits)
  then show ?thesis using assms(2) by simp
qed

interpretation mail_store: owned_store mail_ok mail_look mail_step "\<lambda>e user. False"
proof unfold_locales
  fix e s t assume "mail_ok s" "mail_step e s t"
  then show "mail_ok t" using mail_request_effect delete_user_nothing by (auto elim!: mail_stepE)
next
  fix e s t i owner x assume "mail_ok s" "mail_step e s t" "mail_look s i = Some (owner, x)"
  then show "mail_look t i = Some (owner, x)" using mail_request_effect delete_user_nothing by (auto elim!: mail_stepE)
qed

section \<open>Properties\<close>


definition demo_mail_host :: mail_host where
  "demo_mail_host = \<lparr>mh_domain = ''a.b'', mh_base_uri = ''https://mail.a.b'', mh_now = 0, mh_request = (\<lambda>a req. Inl LogicError)\<rparr>"

definition mail_request :: "string \<Rightarrow> fiy_request" where
  "mail_request body = \<lparr>rq_domain = None, rq_user = Some ''amy'', rq_method = 3, rq_path = Some ''/send'', rq_headers = None,
     rq_body = body, rq_has_callback = True\<rparr>"

definition demo_mail :: Mail where
  "demo_mail = \<lparr>ml_from = ''amy@a.b'', ml_recipients = [''bob@a.b''], ml_subject = ''hi'', ml_body = [NL, CHR ''x''], ml_date = 0, ml_index = 0\<rparr>"

lemma demo_mail_sent:
  "mail_handle_request demo_mail_host [] (mail_request (''bob'' @ [NL] @ ''hi'' @ [NL] @ ''x'')) =
    ([demo_mail], [MailReply (respond 200 [] BodyNone)], Inr ())"
  by code_simp


text \<open>A mail as the page writes it: destinations, a line feed, the subject, a line feed, the text.\<close>

definition mail_text :: "string \<Rightarrow> string \<Rightarrow> string \<Rightarrow> string" where
  "mail_text dests subject t = dests @ NL # subject @ NL # t"

definition plain_mail :: "string \<Rightarrow> string \<Rightarrow> string \<Rightarrow> bool" where
  "plain_mail dests subject t \<longleftrightarrow> NL \<notin> set dests \<and> NL \<notin> set subject \<and> list_all (\<lambda>c. code c \<noteq> 0) (dests @ subject @ t)"

definition the_mail :: "mail_host \<Rightarrow> fiy_request \<Rightarrow> string \<Rightarrow> string \<Rightarrow> string \<Rightarrow> Mail" where
  "the_mail h req dests subject t =
     \<lparr>ml_from = global_user_str (mh_domain h) req, ml_recipients = map (with_domain (mh_domain h)) (split_on (CHR '','') dests),
      ml_subject = subject, ml_body = NL # t, ml_date = mh_now h, ml_index = 0\<rparr>"

lemma send_mail_text:
  assumes "rq_user req = Some u" "rq_domain req = None" "rq_body req = mail_text dests subject t" "plain_mail dests subject t"
  shows "send_mail h box req =
    (case send_to h req (other_domains (mh_domain h) (ml_recipients (the_mail h req dests subject t))) of
       (acts, Inl e) \<Rightarrow> (push_mail box (the_mail h req dests subject t), acts, Inl e)
     | (acts, Inr _) \<Rightarrow> (push_mail box (the_mail h req dests subject t), acts @ [MailReply (respond 200 [] BodyNone)], Inr ()))"
proof -
  have nl: "NL \<notin> set dests" "NL \<notin> set subject" using assms(4) by (simp_all add: plain_mail_def)
  have "\<forall>c \<in> set (mail_text dests subject t). code c \<noteq> 0"
    using assms(4) by (auto simp: plain_mail_def mail_text_def list_all_iff NL_def code_def)
  then have b: "takeWhile (\<lambda>c. code c \<noteq> 0) (rq_body req) = dests @ NL # subject @ NL # t"
    using assms(3) by (simp add: takeWhile_eq_all_conv mail_text_def)
  have i: "find_char (dests @ NL # subject @ NL # t) NL 0 = Some (length dests)"
    using find_char_append_hit [OF nl(1)] by simp
  have j: "find_char (dests @ NL # subject @ NL # t) NL (length dests + 1) = Some (length dests + 1 + length subject)"
    using find_char_hit_at [OF nl(2), of "dests @ [NL]" t] by simp
  show ?thesis
    unfolding send_mail_def b Let_def i option.case j assms(1,2)
    by (simp add: the_mail_def split_string_def substr_def split: prod.split sum.split)
qed

text \<open>
  C32. Mail between users of the instance is delivered: when no destination is on another instance the request is answered with
  200 and nothing is sent out; the inboxes of exactly the named users get the mail, at their end, and so does the outbox of
  the sender, with the sender, subject and text that were given (the text with the line feed before it).
\<close>

theorem local_mail_delivered:
  assumes "rq_user req = Some u" "rq_domain req = None" "rq_body req = mail_text dests subject t" "plain_mail dests subject t"
    and "other_domains (mh_domain h) (map (with_domain (mh_domain h)) (split_on (CHR '','') dests)) = []"
  shows "\<exists>box' m. send_mail h box req = (box', [MailReply (respond 200 [] BodyNone)], Inr ()) \<and>
    ml_from m = u @ ''@'' @ mh_domain h \<and> ml_subject m = subject \<and> ml_body m = NL # t \<and>
    (\<forall>a. get_inbox box' a = get_inbox box a @
      (if a \<in> with_domain (mh_domain h) ` set (split_on (CHR '','') dests) then [m] else [])) \<and>
    (\<forall>a. get_outbox box' a = get_outbox box a @ (if a = u @ ''@'' @ mh_domain h then [m] else []))"
proof -
  let ?m = "(the_mail h req dests subject t)\<lparr>ml_index := length box\<rparr>"
  have "send_mail h box req = (box @ [?m], [MailReply (respond 200 [] BodyNone)], Inr ())"
    using send_mail_text [OF assms(1-4), of h box] assms(5) by (simp add: the_mail_def push_mail_def)
  then show ?thesis
    by (intro exI [of _ "box @ [?m]"] exI [of _ ?m])
      (auto simp: the_mail_def global_user_str_def assms(1,2) get_inbox_def get_outbox_def)
qed

lemma local_mail_delivered_witness:
  "\<exists>box' m. send_mail demo_mail_host [] (mail_request (mail_text ''bob'' ''hi'' ''x'')) = (box', [MailReply (respond 200 [] BodyNone)], Inr ()) \<and>
    get_inbox box' ''bob@a.b'' = [m] \<and> get_inbox box' ''amy@a.b'' = [] \<and> get_outbox box' ''amy@a.b'' = [m] \<and> ml_subject m = ''hi''"
proof -
  have o: "other_domains (mh_domain demo_mail_host) (map (with_domain (mh_domain demo_mail_host)) (split_on (CHR '','') ''bob'')) = []"
    by code_simp
  have p: "plain_mail ''bob'' ''hi'' ''x''" by code_simp
  have r: "rq_user (mail_request (mail_text ''bob'' ''hi'' ''x'')) = Some ''amy''" "rq_domain (mail_request (mail_text ''bob'' ''hi'' ''x'')) = None"
    "rq_body (mail_request (mail_text ''bob'' ''hi'' ''x'')) = mail_text ''bob'' ''hi'' ''x''" by (simp_all add: mail_request_def)
  from local_mail_delivered [OF r p o, of "[]"] show ?thesis
    by (auto simp: get_inbox_def get_outbox_def demo_mail_host_def with_domain_def)
qed

text \<open>
  Mail to another instance ends with an exception: with the host's \<open>request\<close> as the connector of shared libraries sets it,
  a request of a local user with a destination elsewhere stores the mail, sends to one instance at most, and then the request
  with a null domain throws; it is never answered.
\<close>

theorem remote_mail_throws:
  assumes "rq_user req = Some u" "rq_domain req = None" "rq_body req = mail_text dests subject t" "plain_mail dests subject t"
    and "other_domains (mh_domain h) (map (with_domain (mh_domain h)) (split_on (CHR '','') dests)) \<noteq> []"
    and "mh_request h = request_impl hmac now host has_mod ps"
  shows "\<exists>m acts e. send_mail h box req = (push_mail box m, acts, Inl e) \<and> length acts \<le> 1 \<and> (\<forall>r. MailReply r \<notin> set acts)"
proof -
  obtain d ds where d: "other_domains (mh_domain h) (ml_recipients (the_mail h req dests subject t)) = d # ds"
    using assms(5) by (cases "other_domains (mh_domain h) (ml_recipients (the_mail h req dests subject t))") (simp_all add: the_mail_def)
  have "mh_request h ''mail'' req = Inl LogicError" using assms(2,6) by (simp add: request_impl_def)
  then have "\<exists>acts e. send_to h req (d # ds) = (acts, Inl e) \<and> length acts \<le> 1 \<and> (\<forall>r. MailReply r \<notin> set acts)"
    by (cases "host_request_mod h ''mail'' (req\<lparr>rq_domain := Some d\<rparr>)") simp_all
  then show ?thesis using send_mail_text [OF assms(1-4), of h box] unfolding d by auto
qed

lemma remote_mail_throws_witness:
  "\<exists>m acts e. send_mail (demo_mail_host\<lparr>mh_request := request_impl (\<lambda>k t. []) 0 ''a.b'' (\<lambda>i. True) no_peers\<rparr>) []
      (mail_request (mail_text ''bob@c.d'' ''hi'' ''x'')) = (push_mail [] m, acts, Inl e) \<and> length acts \<le> 1"
proof -
  let ?h = "demo_mail_host\<lparr>mh_request := request_impl (\<lambda>k t. []) 0 ''a.b'' (\<lambda>i. True) no_peers\<rparr>"
  have "other_domains ''a.b'' (map (with_domain ''a.b'') (split_on (CHR '','') ''bob@c.d'')) \<noteq> []" by code_simp
  then have o: "other_domains (mh_domain ?h) (map (with_domain (mh_domain ?h)) (split_on (CHR '','') ''bob@c.d'')) \<noteq> []"
    by (simp add: demo_mail_host_def)
  have p: "plain_mail ''bob@c.d'' ''hi'' ''x''" by code_simp
  have r: "rq_user (mail_request (mail_text ''bob@c.d'' ''hi'' ''x'')) = Some ''amy''"
    "rq_domain (mail_request (mail_text ''bob@c.d'' ''hi'' ''x'')) = None"
    "rq_body (mail_request (mail_text ''bob@c.d'' ''hi'' ''x'')) = mail_text ''bob@c.d'' ''hi'' ''x''" by (simp_all add: mail_request_def)
  have "mh_request ?h = request_impl (\<lambda>k t. []) 0 ''a.b'' (\<lambda>i. True) no_peers" by simp
  from remote_mail_throws [OF r p o this, of "[]"] show ?thesis by blast
qed

text \<open>Every user who is logged in, also on another instance, can read every mail.\<close>

lemma every_mail_viewable:
  assumes "rq_user req = Some u" "rq_path req = Some (''/view/'' @ show_nat i)" "i < length box" "i < 2 ^ 64" "header_links h = Inr links"
  shows "mail_handle_request h box req = mail_answer box 200 ''Content-Type: text/html'' (links @ long_view (box ! i))"
proof -
  have d: "dropWhile is_space (show_nat i) = show_nat i" using show_nat_hd [of i] show_nat_nonempty [of i] by (cases "show_nat i") auto
  have tw: "takeWhile is_digit (show_nat i) = show_nat i" using show_nat_digits by (simp add: takeWhile_eq_all_conv)
  have "strtoul10 (show_nat i) = i"
    unfolding strtoul10_def Let_def d using show_nat_hd [of i] assms(4) by (simp add: tw read_digits_show_nat)
  then show ?thesis using assms by (simp add: mail_handle_request_def Let_def starts_with_def get_mail_def page_answer_def)
qed

end
