(* ===== verification/Instance.thy ===== *)
theory Instance
  imports ModConnectors Config Contacts Mail
begin

text \<open>
  An instance with its mods: what the connector of shared libraries tells a mod about the host, and the calls that
  reach the mods when an account is deleted (\<open>protocol/mods/ModConnectorDll.cpp\<close>, \<open>LocalUsers::delete_user\<close>). The
  properties that span these components are in the root theory.
\<close>

section \<open>The information about the host\<close>

record host_info =
  hi_domain :: string
  hi_app_id :: string
  hi_base_uri :: string
  hi_data_dir :: string
  hi_mod_config :: string

text \<open>A null pointer in the configuration is read as a text.\<close>

definition dll_host_info :: "FiyConfig \<Rightarrow> Mod \<Rightarrow> host_info result" where
  "dll_host_info c m =
     (case (protocol c, hostname c) of
        (Some p, Some h) \<Rightarrow> Inr
          \<lparr>hi_domain = h, hi_app_id = mod_id m, hi_base_uri = p @ h @ ''/'' @ mod_path m, hi_data_dir = mod_user_data_dir m,
           hi_mod_config = mod_config m\<rparr>
      | _ \<Rightarrow> Inl UndefinedBehaviour)"

definition log_type :: "int \<Rightarrow> string" where
  "log_type n = (if n > 4 \<or> n < 0 then ''INVALID'' else [''FATAL'', ''ERROR'', ''WARN'', ''INFO'', ''DEBUG''] ! nat n)"

section \<open>Calls of a mod\<close>

text \<open>The information that a mod gave: \<open>None\<close> if there is none; the function for deletions may be null.\<close>

definition dll_delete_user :: "(string \<Rightarrow> 's \<Rightarrow> 's) option option \<Rightarrow> string \<Rightarrow> 's \<Rightarrow> 's" where
  "dll_delete_user info user s = (case info of Some (Some f) \<Rightarrow> f user s | _ \<Rightarrow> s)"

definition dll_handle_local :: "(fiy_request \<Rightarrow> 's \<Rightarrow> 's) option \<Rightarrow> fiy_request \<Rightarrow> 's \<Rightarrow> 's result" where
  "dll_handle_local info req s = (case info of None \<Rightarrow> Inl UndefinedBehaviour | Some f \<Rightarrow> Inr (f req s))"

section \<open>Deleting an account\<close>

record mods_data =
  md_contacts :: contacts_db
  md_mail :: "Mail list"

datatype loaded_mod = ContactsMod | MailMod | OtherMod

text \<open>The functions that the two mods give to the server; the other mods give none.\<close>

fun mod_delete_user :: "loaded_mod \<Rightarrow> (string \<Rightarrow> mods_data \<Rightarrow> mods_data) option" where
  "mod_delete_user ContactsMod = Some (\<lambda>user d. d\<lparr>md_contacts := delete_contacts_of (md_contacts d) user\<rparr>)"
| "mod_delete_user MailMod = Some (\<lambda>user d. d\<lparr>md_mail := delete_user_mail user (md_mail d)\<rparr>)"
| "mod_delete_user OtherMod = None"

definition inform_mod :: "(string \<Rightarrow> loaded_mod option) \<Rightarrow> string \<Rightarrow> string \<Rightarrow> mods_data \<Rightarrow> mods_data" where
  "inform_mod loaded user i d = dll_delete_user (map_option mod_delete_user (loaded i)) user d"

text \<open>The deletion of an account, with the mods that the server informs, in their order.\<close>

definition delete_account ::
  "(string \<Rightarrow> loaded_mod option) \<Rightarrow> string list \<Rightarrow> users_state \<Rightarrow> mods_data \<Rightarrow> string \<Rightarrow> users_state \<times> mods_data \<times> unit result" where
  "delete_account loaded mods s d user =
     (case delete_user mods s user of (s', informed, r) \<Rightarrow> (s', fold (inform_mod loaded user) informed d, r))"

lemma inform_mod_cases:
  "inform_mod loaded user i d =
     (case loaded i of
        Some ContactsMod \<Rightarrow> d\<lparr>md_contacts := delete_contacts_of (md_contacts d) user\<rparr>
      | Some MailMod \<Rightarrow> d\<lparr>md_mail := delete_user_mail user (md_mail d)\<rparr>
      | _ \<Rightarrow> d)"
  by (auto simp: inform_mod_def dll_delete_user_def split: option.split loaded_mod.split)

lemma inform_mods_contacts:
  assumes "tables_ok (md_contacts d)"
  shows "tables_ok (md_contacts (fold (inform_mod loaded user) is d)) \<and>
    stored_cards (md_contacts (fold (inform_mod loaded user) is d)) k =
      (if Some ContactsMod \<in> loaded ` set is \<and> owns_card (md_contacts d) user k then None else stored_cards (md_contacts d) k)"
  using assms
proof (induction "is" arbitrary: d)
  case (Cons i "is")
  let ?d = "inform_mod loaded user i d"
  have d: "tables_ok (md_contacts ?d) \<and> stored_cards (md_contacts ?d) k =
      (if loaded i = Some ContactsMod \<and> owns_card (md_contacts d) user k then None else stored_cards (md_contacts d) k)"
    using delete_user_tables [OF Cons.prems, of user k] Cons.prems
    by (auto simp: inform_mod_cases split: option.split loaded_mod.split)
  then have "owns_card (md_contacts ?d) user k \<longleftrightarrow> loaded i \<noteq> Some ContactsMod \<and> owns_card (md_contacts d) user k"
    by (auto simp: owns_card_def)
  with Cons.IH [of ?d] d show ?case by auto
qed simp

lemma inform_mods_mail:
  assumes "mail_ok (md_mail d)" "CHR ''@'' \<notin> set user"
  shows "md_mail (fold (inform_mod loaded user) is d) = md_mail d"
  using assms(1)
proof (induction "is" arbitrary: d)
  case (Cons i "is")
  have "md_mail (inform_mod loaded user i d) = md_mail d"
    using delete_user_nothing [OF Cons.prems assms(2)] by (auto simp: inform_mod_cases split: option.split loaded_mod.split)
  with Cons.IH [of "inform_mod loaded user i d"] Cons.prems show ?case by simp
qed simp

end
