(* ===== verification/CdnSession.thy ===== *)
theory CdnSession
  imports Cdn
begin

text \<open>
  The connections of the storage server (\<open>do_session\<close> of \<open>mods/storage/cdn/main.cpp\<close>): requests are read, handled and
  answered one after the other. An event is what a read brings: a request, with what the surroundings do for it and
  whether its answer can be written, the end of the stream, or an error. An exception of the handler leaves the
  coroutine, and the connection goes with it.

  Shown: which answers a client gets, and when the connection ends.
\<close>

datatype connection_event = ReadRequest cdn_lib cdn_request bool | EndOfStream | ReadFailed

datatype connection_end = StillOpen | ShutDown | Failed string | Threw cxx_error

fun do_session :: "cdn_config \<Rightarrow> cdn \<Rightarrow> connection_event list \<Rightarrow> cdn \<times> cdn_response list \<times> connection_end" where
  "do_session conf s [] = (s, [], StillOpen)"
| "do_session conf s (EndOfStream # es) = (s, [], ShutDown)"
| "do_session conf s (ReadFailed # es) = (s, [], Failed ''read'')"
| "do_session conf s (ReadRequest lib req written # es) =
     (case cdn_handle_request lib conf s req of
        Inl x \<Rightarrow> (s, [], Threw x)
      | Inr (s1, res) \<Rightarrow>
          (if \<not> written then (s1, [], Failed ''write'')
           else if \<not> cr_keep_alive res then (s1, [res], ShutDown)
           else case do_session conf s1 es of (s2, rs, e) \<Rightarrow> (s2, res # rs, e)))"

text \<open>The answers that requests get when they are handled one after the other.\<close>

fun answers_of :: "cdn_config \<Rightarrow> cdn \<Rightarrow> connection_event list \<Rightarrow> cdn_response list" where
  "answers_of conf s (ReadRequest lib req written # es) =
     (case cdn_handle_request lib conf s req of Inl x \<Rightarrow> [] | Inr (s1, res) \<Rightarrow> res # answers_of conf s1 es)"
| "answers_of conf s es = []"

text \<open>
  A client gets the answers to its requests, in their order, up to the first that closes the connection, to an
  exception or to an error. A connection that is shut down was ended by the client or by its last answer; nothing is
  answered for a request that throws.
\<close>

theorem session_answers:
  assumes "do_session conf s es = (s', rs, e)"
  shows "rs = take (length rs) (answers_of conf s es) \<and> list_all cr_keep_alive (butlast rs) \<and>
    (e = ShutDown \<longrightarrow> EndOfStream \<in> set es \<or> rs \<noteq> [] \<and> \<not> cr_keep_alive (last rs)) \<and>
    (e = StillOpen \<longrightarrow> length rs = length es \<and> list_all cr_keep_alive rs)"
  using assms
proof (induction conf s es arbitrary: s' rs e rule: do_session.induct)
  case (4 conf s lib req written es)
  show ?case
  proof (cases "cdn_handle_request lib conf s req")
    case (Inr q)
    obtain s1 res where q: "q = (s1, res)" by (cases q)
    show ?thesis
    proof (cases "written \<and> cr_keep_alive res")
      case True
      obtain s2 rs2 e2 where r: "do_session conf s1 es = (s2, rs2, e2)" using prod_cases3 by blast
      have "rs = res # rs2" "e = e2" using 4(2) Inr q True r by auto
      with "4.IH" [OF Inr q [symmetric]] True r show ?thesis using Inr q by (auto split: if_splits)
    qed (use 4(2) Inr q in \<open>auto split: if_splits\<close>)
  qed (use 4(2) in auto)
qed auto

lemma session_answers_witness:
  "\<forall>lib conf s. do_session conf s [ReadRequest lib
      \<lparr>rc_method = verb_get, rc_target = ''/x'', rc_fields = [], rc_body = [], rc_keep_alive = True\<rparr> True] = (s, [e404], ShutDown) \<and>
    \<not> cr_keep_alive e404"
proof (intro allI)
  fix lib conf s
  let ?es = "[ReadRequest lib \<lparr>rc_method = verb_get, rc_target = ''/x'', rc_fields = [], rc_body = [], rc_keep_alive = True\<rparr> True]"
  have d: "do_session conf s ?es = (s, [e404], ShutDown)"
    by (simp add: cdn_handle_request_def file_resp_def find_char_def e404_def cdn_answer_def)
  from session_answers [OF d] d show "do_session conf s ?es = (s, [e404], ShutDown) \<and> \<not> cr_keep_alive e404" by simp
qed

end
