(* ===== verification/Crypto.thy ===== *)
theory Crypto
  imports FiyPrelude
begin

text \<open>
  \<open>util/Crypto.cpp\<close>: what the server makes of OpenSSL. The library is a record of the calls that are made; \<open>None\<close>, \<open>False\<close>
  or a code below 1 is its failure. A key that was read has to be freed: each function that takes a text of a key
  returns, beside its result, how many keys it leaves allocated.

  Shown: what is encrypted or signed with one key of a pair is decrypted or verified with the other, as far as the
  library keeps its promises; keys are left allocated exactly by the calls that throw after reading one.
\<close>

section \<open>OpenSSL\<close>

record 'k openssl =
  os_read_public :: "string \<Rightarrow> 'k option"
  os_read_private :: "string \<Rightarrow> 'k option"
  os_pkey_ctx :: "'k \<Rightarrow> bool"
  os_encrypt_init :: "'k \<Rightarrow> bool"
  os_decrypt_init :: "'k \<Rightarrow> bool"
  os_oaep_padding :: "'k \<Rightarrow> bool"
  os_encrypt_size :: "'k \<Rightarrow> string \<Rightarrow> nat option"
  os_encrypt :: "'k \<Rightarrow> string \<Rightarrow> string option"
  os_decrypt_size :: "'k \<Rightarrow> string \<Rightarrow> nat option"
  os_decrypt :: "'k \<Rightarrow> string \<Rightarrow> string option"
  os_md_ctx :: bool
  os_sign_init :: "'k \<Rightarrow> bool"
  os_sign_update :: "string \<Rightarrow> bool"
  os_sign_size :: "'k \<Rightarrow> string \<Rightarrow> nat option"
  os_sign_final :: "'k \<Rightarrow> string \<Rightarrow> string option"
  os_verify_init :: "'k \<Rightarrow> bool"
  os_verify_update :: "string \<Rightarrow> bool"
  os_verify_final :: "'k \<Rightarrow> string \<Rightarrow> string \<Rightarrow> int"
  os_bio :: bool
  os_encode64 :: "string \<Rightarrow> string option"
  os_decode64 :: "string \<Rightarrow> string option"

text \<open>\<open>throw_openssl_error\<close> where a call failed.\<close>

definition ssl_check :: "bool \<Rightarrow> 'a result \<Rightarrow> 'a result" where
  "ssl_check ok r = (if ok then r else Inl RuntimeError)"

definition ssl_value :: "'a option \<Rightarrow> 'a result" where
  "ssl_value r = (case r of None \<Rightarrow> Inl RuntimeError | Some x \<Rightarrow> Inr x)"

section \<open>Base64\<close>

text \<open>Writing nothing into a filter returns 0, which counts as a failure; reading nothing does not.\<close>

definition base64_encode :: "'k openssl \<Rightarrow> string \<Rightarrow> string result" where
  "base64_encode lib data = ssl_check (os_bio lib \<and> data \<noteq> []) (ssl_value (os_encode64 lib data))"

definition base64_decode :: "'k openssl \<Rightarrow> string \<Rightarrow> string result" where
  "base64_decode lib t = ssl_check (os_bio lib) (if t = [] then Inr [] else ssl_value (os_decode64 lib t))"

section \<open>Keys\<close>

definition load_public_key_from_pem :: "'k openssl \<Rightarrow> string \<Rightarrow> 'k result" where
  "load_public_key_from_pem lib pem = ssl_check (os_bio lib) (ssl_value (os_read_public lib pem))"

definition load_private_key_from_pem :: "'k openssl \<Rightarrow> string \<Rightarrow> 'k result" where
  "load_private_key_from_pem lib pem = ssl_check (os_bio lib) (ssl_value (os_read_private lib pem))"

text \<open>A key that is read, used and freed; an exception in between skips \<open>EVP_PKEY_free\<close>.\<close>

definition with_key :: "'k result \<Rightarrow> ('k \<Rightarrow> 'a result) \<Rightarrow> nat \<times> 'a result" where
  "with_key k f =
     (case k of
        Inl e \<Rightarrow> (0, Inl e)
      | Inr key \<Rightarrow> (case f key of Inl e \<Rightarrow> (1, Inl e) | Inr x \<Rightarrow> (0, Inr x)))"

section \<open>Encryption\<close>

definition encrypt_key :: "'k openssl \<Rightarrow> string \<Rightarrow> 'k \<Rightarrow> string result" where
  "encrypt_key lib data pub =
     (if data = [] then Inr []
      else ssl_check (os_pkey_ctx lib pub)
          (ssl_check (os_encrypt_init lib pub)
          (ssl_check (os_oaep_padding lib pub)
          (bind_result (ssl_value (os_encrypt_size lib pub data)) (\<lambda>outlen.
           bind_result (ssl_value (os_encrypt lib pub data)) (base64_encode lib))))))"

definition encrypt :: "'k openssl \<Rightarrow> string \<Rightarrow> string \<Rightarrow> nat \<times> string result" where
  "encrypt lib pubkey data = with_key (load_public_key_from_pem lib pubkey) (encrypt_key lib data)"

definition decrypt_key :: "'k openssl \<Rightarrow> string \<Rightarrow> 'k \<Rightarrow> string result" where
  "decrypt_key lib b64data privkey =
     bind_result (base64_decode lib b64data) (\<lambda>ciphertext.
       if ciphertext = [] then Inr []
       else ssl_check (os_pkey_ctx lib privkey)
           (ssl_check (os_decrypt_init lib privkey)
           (ssl_check (os_oaep_padding lib privkey)
           (bind_result (ssl_value (os_decrypt_size lib privkey ciphertext)) (\<lambda>outlen.
            ssl_value (os_decrypt lib privkey ciphertext))))))"

definition decrypt :: "'k openssl \<Rightarrow> string \<Rightarrow> string \<Rightarrow> nat \<times> string result" where
  "decrypt lib privkey b64data = with_key (load_private_key_from_pem lib privkey) (decrypt_key lib b64data)"

section \<open>Signatures\<close>

definition sign_key :: "'k openssl \<Rightarrow> string \<Rightarrow> 'k \<Rightarrow> string result" where
  "sign_key lib data privkey =
     ssl_check (os_md_ctx lib)
      (ssl_check (os_sign_init lib privkey)
      (ssl_check (os_sign_update lib data)
      (bind_result (ssl_value (os_sign_size lib privkey data)) (\<lambda>siglen.
       bind_result (ssl_value (os_sign_final lib privkey data)) (base64_encode lib)))))"

definition sign :: "'k openssl \<Rightarrow> string \<Rightarrow> string \<Rightarrow> nat \<times> string result" where
  "sign lib privkey data = with_key (load_private_key_from_pem lib privkey) (sign_key lib data)"

definition verify_key :: "'k openssl \<Rightarrow> string \<Rightarrow> string \<Rightarrow> 'k \<Rightarrow> bool result" where
  "verify_key lib data b64sig pubkey =
     bind_result (base64_decode lib b64sig) (\<lambda>sig.
       ssl_check (os_md_ctx lib)
        (ssl_check (os_verify_init lib pubkey)
        (ssl_check (os_verify_update lib data)
        (let rc = os_verify_final lib pubkey data sig
         in if rc = 1 then Inr True else if rc \<noteq> 0 then Inl RuntimeError else Inr False))))"

definition verify :: "'k openssl \<Rightarrow> string \<Rightarrow> string \<Rightarrow> string \<Rightarrow> nat \<times> bool result" where
  "verify lib pubkey data b64sig = with_key (load_public_key_from_pem lib pubkey) (verify_key lib data b64sig)"

section \<open>What the library promises\<close>

text \<open>Base64 decodes what it encodes, to something if there is something; the calls on a readable key do not fail.\<close>

definition codec_ok :: "'k openssl \<Rightarrow> bool" where
  "codec_ok lib \<longleftrightarrow> os_bio lib \<and> (\<forall>x y. os_encode64 lib x = Some y \<longrightarrow> x = [] \<or> (y \<noteq> [] \<and> os_decode64 lib y = Some x))"

definition decrypts :: "'k openssl \<Rightarrow> 'k \<Rightarrow> 'k \<Rightarrow> bool" where
  "decrypts lib pub priv \<longleftrightarrow> os_pkey_ctx lib priv \<and> os_decrypt_init lib priv \<and> os_oaep_padding lib priv \<and>
     (\<forall>x c. os_encrypt lib pub x = Some c \<longrightarrow> os_decrypt_size lib priv c \<noteq> None \<and> os_decrypt lib priv c = Some x)"

definition verifies :: "'k openssl \<Rightarrow> 'k \<Rightarrow> 'k \<Rightarrow> bool" where
  "verifies lib pub priv \<longleftrightarrow> os_verify_init lib pub \<and>
     (\<forall>x s. os_sign_final lib priv x = Some s \<longrightarrow> os_verify_update lib x \<and> os_verify_final lib pub x s = 1)"

lemma ssl_check_Inr [simp]: "ssl_check ok r = Inr x \<longleftrightarrow> ok \<and> r = Inr x"
  by (simp add: ssl_check_def)

lemma ssl_check_True [simp]: "ssl_check True r = r"
  by (simp add: ssl_check_def)

lemma ssl_value_Inr [simp]: "ssl_value r = Inr x \<longleftrightarrow> r = Some x"
  by (cases r) (simp_all add: ssl_value_def)

lemma with_key_Inr [simp]: "with_key k f = (n, Inr x) \<longleftrightarrow> n = 0 \<and> (\<exists>key. k = Inr key \<and> f key = Inr x)"
  by (auto simp: with_key_def split: sum.split)

lemma encoded_decodes: "codec_ok lib \<Longrightarrow> base64_encode lib x = Inr t \<Longrightarrow> base64_decode lib t = Inr x \<and> x \<noteq> []"
  by (auto simp: base64_encode_def base64_decode_def codec_ok_def)

section \<open>Properties\<close>

text \<open>
  What is encrypted for a key is decrypted by the other key of the pair: if the library decrypts what it encrypts and
  base64 is decoded as it was encoded, every text that \<open>encrypt\<close> returns is turned into the data again by \<open>decrypt\<close>, also
  the empty text for empty data, and no key stays allocated.
\<close>

theorem encrypt_roundtrip:
  assumes "codec_ok lib" "decrypts lib pub priv"
    and "os_read_public lib pubkey = Some pub" "os_read_private lib privkey = Some priv"
    and "encrypt lib pubkey data = (n, Inr t)"
  shows "n = 0 \<and> decrypt lib privkey t = (0, Inr data)"
proof (cases "data = []")
  case True
  then have "n = 0 \<and> t = []" using assms(3,5) by (auto simp: encrypt_def encrypt_key_def)
  then show ?thesis using assms(1,4) True
    by (auto simp: decrypt_def decrypt_key_def load_private_key_from_pem_def base64_decode_def codec_ok_def)
next
  case False
  obtain c where c: "n = 0" "os_encrypt lib pub data = Some c" "base64_encode lib c = Inr t"
    using assms(3,5) False by (auto simp: encrypt_def encrypt_key_def load_public_key_from_pem_def bind_result_Inr_iff)
  have "base64_decode lib t = Inr c" "c \<noteq> []" using encoded_decodes [OF assms(1) c(3)] by auto
  moreover have "os_bio lib" using assms(1) by (simp add: codec_ok_def)
  ultimately show ?thesis using assms(2,4) c(1,2)
    by (auto simp: decrypt_def decrypt_key_def load_private_key_from_pem_def decrypts_def bind_result_Inr_iff)
qed

text \<open>
  A signature that \<open>sign\<close> returns is accepted by \<open>verify\<close> with the other key of the pair, for the data that was signed.
\<close>

theorem sign_verifies:
  assumes "codec_ok lib" "verifies lib pub priv"
    and "os_read_public lib pubkey = Some pub" "os_read_private lib privkey = Some priv"
    and "sign lib privkey data = (n, Inr t)"
  shows "n = 0 \<and> verify lib pubkey data t = (0, Inr True)"
proof -
  obtain s where s: "n = 0" "os_md_ctx lib" "os_sign_final lib priv data = Some s" "base64_encode lib s = Inr t"
    using assms(4,5) by (auto simp: sign_def sign_key_def load_private_key_from_pem_def bind_result_Inr_iff)
  have "base64_decode lib t = Inr s" using encoded_decodes [OF assms(1) s(4)] by simp
  moreover have "os_bio lib" using assms(1) by (simp add: codec_ok_def)
  ultimately show ?thesis using assms(2,3) s
    by (auto simp: verify_def verify_key_def load_public_key_from_pem_def verifies_def Let_def bind_result_Inr_iff)
qed

text \<open>A key stays allocated exactly when the call throws after the key was read.\<close>

lemma key_left_allocated:
  "fst (encrypt lib pubkey data) = (if \<exists>k. load_public_key_from_pem lib pubkey = Inr k \<and> (\<exists>e. encrypt_key lib data k = Inl e) then 1 else 0)"
  by (auto simp: encrypt_def with_key_def split: sum.split)

definition demo_openssl :: "bool openssl" where
  "demo_openssl =
     \<lparr>os_read_public = (\<lambda>t. Some False), os_read_private = (\<lambda>t. Some True), os_pkey_ctx = (\<lambda>k. True), os_encrypt_init = (\<lambda>k. True),
      os_decrypt_init = (\<lambda>k. True), os_oaep_padding = (\<lambda>k. True), os_encrypt_size = (\<lambda>k x. Some (length x)),
      os_encrypt = (\<lambda>k x. Some (rev x)), os_decrypt_size = (\<lambda>k x. Some (length x)), os_decrypt = (\<lambda>k x. Some (rev x)),
      os_md_ctx = True, os_sign_init = (\<lambda>k. True), os_sign_update = (\<lambda>x. True), os_sign_size = (\<lambda>k x. Some 1),
      os_sign_final = (\<lambda>k x. Some (CHR ''s'' # x)), os_verify_init = (\<lambda>k. True), os_verify_update = (\<lambda>x. True),
      os_verify_final = (\<lambda>k x s. if s = CHR ''s'' # x then 1 else 0), os_bio = True,
      os_encode64 = (\<lambda>x. Some x), os_decode64 = (\<lambda>x. Some x)\<rparr>"

lemma encrypt_roundtrip_witness:
  "encrypt demo_openssl ''pub'' ''secret'' = (0, Inr ''terces'') \<and> decrypt demo_openssl ''priv'' ''terces'' = (0, Inr ''secret'')"
proof -
  have e: "encrypt demo_openssl ''pub'' ''secret'' = (0, Inr ''terces'')" by code_simp
  have "codec_ok demo_openssl" by (simp add: codec_ok_def demo_openssl_def)
  moreover have "decrypts demo_openssl False True" by (simp add: decrypts_def demo_openssl_def)
  moreover have "os_read_public demo_openssl ''pub'' = Some False" "os_read_private demo_openssl ''priv'' = Some True"
    by (simp_all add: demo_openssl_def)
  ultimately have "decrypt demo_openssl ''priv'' ''terces'' = (0, Inr ''secret'')" using encrypt_roundtrip [OF _ _ _ _ e] by blast
  with e show ?thesis by simp
qed

lemma sign_verifies_witness:
  "sign demo_openssl ''priv'' ''text'' = (0, Inr ''stext'') \<and> verify demo_openssl ''pub'' ''text'' ''stext'' = (0, Inr True)"
proof -
  have e: "sign demo_openssl ''priv'' ''text'' = (0, Inr ''stext'')" by code_simp
  have "codec_ok demo_openssl" by (simp add: codec_ok_def demo_openssl_def)
  moreover have "verifies demo_openssl False True" by (simp add: verifies_def demo_openssl_def)
  moreover have "os_read_public demo_openssl ''pub'' = Some False" "os_read_private demo_openssl ''priv'' = Some True"
    by (simp_all add: demo_openssl_def)
  ultimately have "verify demo_openssl ''pub'' ''text'' ''stext'' = (0, Inr True)" using sign_verifies [OF _ _ _ _ e] by blast
  with e show ?thesis by simp
qed

end
