(* ===== verification/Threads.thy ===== *)
theory Threads
  imports Runs "HOL-Library.Multiset"
begin

text \<open>
  \<open>util/ThreadPool.hpp\<close> and \<open>util/RWMutex.hpp\<close>. The pool is a step relation: a producer pushes a task and notifies
  the condition variable, a worker takes the first task or goes to sleep on it, is woken (also without a reason), and
  comes back when the handler returns. Every step is one critical section of the queue's mutex, or the call of the
  handler. The lock is the state of a \<open>std::shared_mutex\<close>, its owners named by their threads.

  Shown: no task is lost, run twice or overtaken; no wake-up is lost, so that a pool left alone runs all its tasks; a lock
  is held by one writer or by readers only; what may not be done under a lock.
\<close>

section \<open>The task queue\<close>

text \<open>What the pool relies on: \<open>push\<close> appends, \<open>pop\<close> takes from the front, and only these change the queue.\<close>

locale task_queue =
  fixes push :: "'q \<Rightarrow> 'v \<Rightarrow> 'q" and pop :: "'q \<Rightarrow> ('v \<times> 'q) option" and listing :: "'q \<Rightarrow> 'v list"
    and step :: "'e \<Rightarrow> 's \<Rightarrow> 's \<Rightarrow> bool" and queue_of :: "'s \<Rightarrow> 'q"
    and pushed_of :: "'e \<Rightarrow> 'v option" and popped_of :: "'e \<Rightarrow> 'v option"
  assumes listing_push: "listing (push q v) = listing q @ [v]"
    and listing_pop: "pop q = Some (v, r) \<Longrightarrow> listing q = v # listing r"
    and step_push: "step e s t \<Longrightarrow> pushed_of e = Some v \<Longrightarrow> queue_of t = push (queue_of s) v \<and> popped_of e = None"
    and step_pop: "step e s t \<Longrightarrow> popped_of e = Some v \<Longrightarrow> pop (queue_of s) = Some (v, queue_of t)"
    and step_other: "step e s t \<Longrightarrow> pushed_of e = None \<Longrightarrow> popped_of e = None \<Longrightarrow> queue_of t = queue_of s"
begin

lemma run_in_order:
  "event_run step s es t \<Longrightarrow>
    listing (queue_of s) @ List.map_filter pushed_of es = List.map_filter popped_of es @ listing (queue_of t)"
proof (induction rule: event_run.induct)
  case (run_event e s t es u)
  consider v where "pushed_of e = Some v" | v where "pushed_of e = None" "popped_of e = Some v"
    | "pushed_of e = None" "popped_of e = None" by fastforce
  then show ?case
  proof cases
    case 1
    with step_push [OF run_event.hyps(1)] run_event.IH show ?thesis by (simp add: listing_push map_filter_simps)
  next
    case 2
    with listing_pop [OF step_pop [OF run_event.hyps(1)]] run_event.IH show ?thesis by (simp add: map_filter_simps)
  next
    case 3
    with step_other [OF run_event.hyps(1)] run_event.IH show ?thesis by (simp add: map_filter_simps)
  qed
qed simp

end

section \<open>The pool\<close>

text \<open>A worker that is \<open>Awake\<close> is about to test whether the queue is empty; \<open>Asleep\<close> waits for a notification.\<close>

datatype 'a worker = Awake | Asleep | Running 'a

record 'a thread_pool =
  m_queue :: "'a list"
  m_threads :: "'a worker list"
  terminated :: bool

definition queue_push :: "'a list \<Rightarrow> 'a \<Rightarrow> 'a list" where
  "queue_push q v = q @ [v]"

definition queue_pop :: "'a list \<Rightarrow> ('a \<times> 'a list) option" where
  "queue_pop q = (case q of [] \<Rightarrow> None | v # r \<Rightarrow> Some (v, r))"

text \<open>The constructor; \<open>reserve\<close> of a negative number, taken as an unsigned one, throws.\<close>

definition new_pool :: "int \<Rightarrow> 'a thread_pool result" where
  "new_pool threads =
     (if threads < 0 then Inl LogicError
      else Inr \<lparr>m_queue = [], m_threads = replicate (nat threads) Awake, terminated = False\<rparr>)"

datatype 'a pool_event = Pushed 'a | Popped nat 'a | Slept nat | Woken nat | Handled nat 'a | HandlerThrew nat

definition put_worker :: "'a thread_pool \<Rightarrow> nat \<Rightarrow> 'a worker \<Rightarrow> 'a thread_pool" where
  "put_worker p i w = p\<lparr>m_threads := (m_threads p)[i := w]\<rparr>"

definition is_worker :: "'a thread_pool \<Rightarrow> nat \<Rightarrow> 'a worker \<Rightarrow> bool" where
  "is_worker p i w \<longleftrightarrow> i < length (m_threads p) \<and> m_threads p ! i = w"

text \<open>
  The push notifies one sleeping worker, whichever it is. A wake-up without a notification is allowed. An exception of
  the handler leaves the function of its thread and ends the program.
\<close>

inductive pool_step :: "'a pool_event \<Rightarrow> 'a thread_pool \<Rightarrow> 'a thread_pool \<Rightarrow> bool" where
  push_wakes: "\<not> terminated p \<Longrightarrow> is_worker p i Asleep \<Longrightarrow>
    pool_step (Pushed v) p (put_worker (p\<lparr>m_queue := queue_push (m_queue p) v\<rparr>) i Awake)"
| push_alone: "\<not> terminated p \<Longrightarrow> Asleep \<notin> set (m_threads p) \<Longrightarrow>
    pool_step (Pushed v) p (p\<lparr>m_queue := queue_push (m_queue p) v\<rparr>)"
| pops: "\<not> terminated p \<Longrightarrow> is_worker p i Awake \<Longrightarrow> queue_pop (m_queue p) = Some (v, r) \<Longrightarrow>
    pool_step (Popped i v) p (put_worker (p\<lparr>m_queue := r\<rparr>) i (Running v))"
| sleeps: "\<not> terminated p \<Longrightarrow> is_worker p i Awake \<Longrightarrow> queue_pop (m_queue p) = None \<Longrightarrow>
    pool_step (Slept i) p (put_worker p i Asleep)"
| wakes: "\<not> terminated p \<Longrightarrow> is_worker p i Asleep \<Longrightarrow> pool_step (Woken i) p (put_worker p i Awake)"
| returns: "\<not> terminated p \<Longrightarrow> is_worker p i (Running v) \<Longrightarrow> pool_step (Handled i v) p (put_worker p i Awake)"
| throws: "\<not> terminated p \<Longrightarrow> is_worker p i (Running v) \<Longrightarrow> pool_step (HandlerThrew i) p (p\<lparr>terminated := True\<rparr>)"

inductive_cases pool_step_cases: "pool_step e p q"

fun pushed_of :: "'a pool_event \<Rightarrow> 'a option" where
  "pushed_of (Pushed v) = Some v"
| "pushed_of e = None"

fun popped_of :: "'a pool_event \<Rightarrow> 'a option" where
  "popped_of (Popped i v) = Some v"
| "popped_of e = None"

fun handled_of :: "'a pool_event \<Rightarrow> 'a option" where
  "handled_of (Handled i v) = Some v"
| "handled_of e = None"

lemma put_worker_queue [simp]: "m_queue (put_worker p i w) = m_queue p"
  by (simp add: put_worker_def)

interpretation pool_queue: task_queue queue_push queue_pop id pool_step m_queue pushed_of popped_of
  by unfold_locales
    (auto simp: queue_push_def queue_pop_def split: list.splits elim!: pool_step_cases pushed_of.elims popped_of.elims)
section \<open>Counting workers\<close>

fun task_of :: "'a worker \<Rightarrow> 'a option" where
  "task_of (Running v) = Some v"
| "task_of w = None"

definition running :: "'a thread_pool \<Rightarrow> 'a multiset" where
  "running p = mset (List.map_filter task_of (m_threads p))"

definition awake :: "'a thread_pool \<Rightarrow> nat" where
  "awake p = length (filter (\<lambda>w. w = Awake) (m_threads p))"

lemma put_worker_split:
  assumes "is_worker p i w"
  shows "\<exists>xs ys. m_threads p = xs @ w # ys \<and> (\<forall>q w'. m_threads q = m_threads p \<longrightarrow> m_threads (put_worker q i w') = xs @ w' # ys)"
  using assms id_take_nth_drop [of i "m_threads p"] upd_conv_take_nth_drop [of i "m_threads p"]
  by (auto simp: is_worker_def put_worker_def)

lemma map_filter_append: "List.map_filter f (xs @ ys) = List.map_filter f xs @ List.map_filter f ys"
  by (simp add: List.map_filter_def)

text \<open>What a change of one worker does to the counts.\<close>

lemma put_worker_counts:
  assumes "is_worker p i w" "m_threads q = m_threads p"
  shows "length (m_threads (put_worker q i w')) = length (m_threads p)"
    "running (put_worker q i w') + mset (map the (filter (\<lambda>x. x \<noteq> None) [task_of w])) =
      running p + mset (map the (filter (\<lambda>x. x \<noteq> None) [task_of w']))"
    "awake (put_worker q i w') + (if w = Awake then 1 else 0) = awake p + (if w' = Awake then 1 else 0)"
proof -
  from put_worker_split [OF assms(1)] assms(2) obtain xs ys
    where "m_threads p = xs @ w # ys" "m_threads (put_worker q i w') = xs @ w' # ys" by blast
  then show "length (m_threads (put_worker q i w')) = length (m_threads p)"
    "running (put_worker q i w') + mset (map the (filter (\<lambda>x. x \<noteq> None) [task_of w])) =
      running p + mset (map the (filter (\<lambda>x. x \<noteq> None) [task_of w']))"
    "awake (put_worker q i w') + (if w = Awake then 1 else 0) = awake p + (if w' = Awake then 1 else 0)"
    by (simp_all add: running_def awake_def map_filter_append map_filter_simps split: option.split)
qed

lemmas worker_counts = put_worker_counts(1) put_worker_counts(2) [simplified] put_worker_counts(3)

lemma awake_queue [simp]: "awake (m_queue_update f p) = awake p" "running (m_queue_update f p) = running p"
  "awake (terminated_update g p) = awake p" "running (terminated_update g p) = running p"
  by (simp_all add: awake_def running_def)

lemma step_threads: "pool_step e p q \<Longrightarrow> length (m_threads q) = length (m_threads p)"
  by (erule pool_step_cases) (simp_all add: put_worker_def)

lemma run_threads: "event_run pool_step p es q \<Longrightarrow> length (m_threads q) = length (m_threads p)"
  by (induction rule: event_run.induct) (simp_all add: step_threads)

lemma step_running:
  assumes "pool_step e p q"
  shows "running p + mset (List.map_filter popped_of [e]) = mset (List.map_filter handled_of [e]) + running q"
  using assms
proof cases
  case (push_wakes i v)
  then show ?thesis using worker_counts(2) [OF push_wakes(4), of "p\<lparr>m_queue := queue_push (m_queue p) v\<rparr>" Awake]
    by (simp add: map_filter_simps)
next
  case (pops i v r)
  then show ?thesis using worker_counts(2) [OF pops(4), of "p\<lparr>m_queue := r\<rparr>" "Running v"] by (simp add: map_filter_simps)
next
  case (sleeps i)
  then show ?thesis using worker_counts(2) [OF sleeps(4), of p Asleep] by (simp add: map_filter_simps)
next
  case (wakes i)
  then show ?thesis using worker_counts(2) [OF wakes(4), of p Awake] by (simp add: map_filter_simps)
next
  case (returns i v)
  then show ?thesis using worker_counts(2) [OF returns(4), of p Awake] by (simp add: map_filter_simps)
qed (simp_all add: map_filter_simps)

lemma run_running:
  "event_run pool_step p es q \<Longrightarrow>
    running p + mset (List.map_filter popped_of es) = mset (List.map_filter handled_of es) + running q"
proof (induction rule: event_run.induct)
  case (run_event e p q es u)
  let ?p = "mset (List.map_filter popped_of [e])" and ?h = "mset (List.map_filter handled_of [e])"
  have "running p + (?p + mset (List.map_filter popped_of es)) = ?h + (running q + mset (List.map_filter popped_of es))"
    using step_running [OF run_event.hyps(1)] by (simp add: add.assoc [symmetric])
  with run_event.IH show ?case
    using map_filter_append [of popped_of "[e]" es] map_filter_append [of handled_of "[e]" es] by (simp add: add.assoc)
qed (simp add: map_filter_simps)

lemma new_pool_simps:
  assumes "new_pool n = Inr p"
  shows "m_queue p = []" "running p = {#}" "awake p = nat n" "length (m_threads p) = nat n" "Asleep \<notin> set (m_threads p)"
    "\<not> terminated p" "0 \<le> n"
proof -
  have "0 \<le> n" using assms by (simp add: new_pool_def split: if_splits)
  then have p: "p = \<lparr>m_queue = [], m_threads = replicate (nat n) Awake, terminated = False\<rparr>"
    using assms by (simp add: new_pool_def)
  have "List.map_filter task_of (replicate k Awake) = []" for k by (induction k) (simp_all add: map_filter_simps)
  with p show "running p = {#}" by (simp add: running_def)
  show "m_queue p = []" "awake p = nat n" "length (m_threads p) = nat n" "Asleep \<notin> set (m_threads p)"
    "\<not> terminated p" "0 \<le> n"
    using p \<open>0 \<le> n\<close> by (simp_all add: awake_def filter_replicate)
qed

lemma size_running: "size (running p) \<le> length (m_threads p)"
  unfolding running_def List.map_filter_def size_mset length_map by (rule length_filter_le)

text \<open>
  C10. Tasks are taken in the order in which they were pushed, each at most once; what is taken has been handled or is being
  run, by at most as many handlers as the pool has threads.
\<close>

theorem pool_tasks_once:
  assumes "new_pool n = Inr p" "event_run pool_step p es q"
  shows "List.map_filter pushed_of es = List.map_filter popped_of es @ m_queue q \<and>
    mset (List.map_filter popped_of es) = mset (List.map_filter handled_of es) + running q \<and> size (running q) \<le> nat n"
  using pool_queue.run_in_order [OF assms(2)] run_running [OF assms(2)] run_threads [OF assms(2)] size_running [of q]
    new_pool_simps [OF assms(1)] by simp
theorem pool_tasks_once_witness:
  "\<exists>p q. new_pool 1 = Inr p \<and> event_run pool_step p [Pushed True, Popped 0 True, Pushed False] q \<and>
    m_queue q = [False] \<and> running q = {#True#}"
proof -
  let ?p = "\<lparr>m_queue = [], m_threads = [Awake], terminated = False\<rparr> :: bool thread_pool"
  let ?p1 = "?p\<lparr>m_queue := queue_push (m_queue ?p) True\<rparr>"
  let ?p2 = "put_worker (?p1\<lparr>m_queue := []\<rparr>) 0 (Running True)"
  let ?q = "?p2\<lparr>m_queue := queue_push (m_queue ?p2) False\<rparr>"
  have n: "new_pool 1 = Inr ?p" by (simp add: new_pool_def)
  have s1: "pool_step (Pushed True) ?p ?p1" by (rule push_alone) simp_all
  have s2: "pool_step (Popped 0 True) ?p1 ?p2"
    by (rule pops) (simp_all add: is_worker_def queue_push_def queue_pop_def)
  have s3: "pool_step (Pushed False) ?p2 ?q" by (rule push_alone) (simp_all add: put_worker_def)
  have r: "event_run pool_step ?p [Pushed True, Popped 0 True, Pushed False] ?q"
    by (rule run_event [where step = pool_step, OF s1 run_event [where step = pool_step, OF s2
          run_event [where step = pool_step, OF s3 run_none]]])
  moreover have "m_queue ?q = [False]" by (simp add: queue_push_def)
  moreover have "running ?q = {#True#}"
    using pool_tasks_once [OF n r] by (simp add: map_filter_simps)
  ultimately show ?thesis using n by blast
qed

section \<open>Wake-ups\<close>

text \<open>As long as somebody sleeps, every waiting task has a worker that is about to look at the queue.\<close>

definition wake_inv :: "'a thread_pool \<Rightarrow> bool" where
  "wake_inv p \<longleftrightarrow> (Asleep \<in> set (m_threads p) \<longrightarrow> length (m_queue p) \<le> awake p)"

lemma put_worker_asleep:
  "Asleep \<in> set (m_threads (put_worker q i w)) \<Longrightarrow> m_threads q = m_threads p \<Longrightarrow> w = Asleep \<or> Asleep \<in> set (m_threads p)"
  using set_update_subset_insert [of "m_threads p" i w] by (auto simp: put_worker_def)

lemma step_wake_inv:
  assumes "pool_step e p q" "wake_inv p"
  shows "wake_inv q"
  using assms(1)
proof cases
  case (push_wakes i v)
  have "Asleep \<in> set (m_threads p)" using push_wakes(4) by (auto simp: is_worker_def in_set_conv_nth)
  with worker_counts(3) [OF push_wakes(4), of "p\<lparr>m_queue := queue_push (m_queue p) v\<rparr>" Awake] assms(2) push_wakes
  show ?thesis by (simp add: wake_inv_def queue_push_def)
next
  case (pops i v r)
  have "length (m_queue p) = Suc (length r)" using pops(5) by (auto simp: queue_pop_def split: list.splits)
  with worker_counts(3) [OF pops(4), of "p\<lparr>m_queue := r\<rparr>" "Running v"] assms(2) pops
    put_worker_asleep [of "p\<lparr>m_queue := r\<rparr>" i "Running v" p]
  show ?thesis by (auto simp: wake_inv_def)
next
  case (sleeps i)
  have "m_queue p = []" using sleeps(5) by (auto simp: queue_pop_def split: list.splits)
  with sleeps show ?thesis by (simp add: wake_inv_def)
next
  case (wakes i)
  with worker_counts(3) [OF wakes(4), of p Awake] assms(2) put_worker_asleep [of p i Awake p]
  show ?thesis by (auto simp: wake_inv_def)
next
  case (returns i v)
  with worker_counts(3) [OF returns(4), of p Awake] assms(2) put_worker_asleep [of p i Awake p]
  show ?thesis by (auto simp: wake_inv_def)
qed (use assms(2) in \<open>simp_all add: wake_inv_def\<close>)

lemma run_wake_inv: "event_run pool_step p es q \<Longrightarrow> wake_inv p \<Longrightarrow> wake_inv q"
  by (induction rule: event_run.induct) (simp_all add: step_wake_inv)

lemma new_pool_wake_inv: "new_pool n = Inr p \<Longrightarrow> wake_inv p"
  using new_pool_simps(5) by (auto simp: wake_inv_def)

text \<open>What the workers do by themselves: no push, no wake-up without a reason, no exception.\<close>

fun own_event :: "'a pool_event \<Rightarrow> bool" where
  "own_event (Popped i v) = True"
| "own_event (Slept i) = True"
| "own_event (Handled i v) = True"
| "own_event e = False"

definition work_left :: "'a thread_pool \<Rightarrow> nat" where
  "work_left p = 3 * length (m_queue p) + 2 * size (running p) + awake p"

lemma own_step_work:
  assumes "pool_step e p q" "own_event e"
  shows "work_left q < work_left p \<and> \<not> terminated q"
  using assms(1)
proof cases
  case (pops i v r)
  have "length (m_queue p) = Suc (length r)" using pops(5) by (auto simp: queue_pop_def split: list.splits)
  with worker_counts(2,3) [OF pops(4), of "p\<lparr>m_queue := r\<rparr>" "Running v"] pops
  show ?thesis by (simp add: work_left_def put_worker_def)
next
  case (sleeps i)
  with worker_counts(2,3) [OF sleeps(4), of p Asleep] show ?thesis by (simp add: work_left_def put_worker_def)
next
  case (returns i v)
  have "running p = add_mset v (running q)" using worker_counts(2) [OF returns(4), of p Awake] returns(2) by simp
  with worker_counts(3) [OF returns(4), of p Awake] returns show ?thesis by (simp add: work_left_def put_worker_def)
qed (use assms(2) in simp_all)

lemma own_run_work:
  "event_run pool_step p es q \<Longrightarrow> list_all own_event es \<Longrightarrow> \<not> terminated p \<Longrightarrow>
    length es + work_left q \<le> work_left p \<and> \<not> terminated q"
  by (induction rule: event_run.induct) (fastforce dest: own_step_work)+

text \<open>Where no worker can go on, all are asleep.\<close>

lemma worker_can_step:
  assumes "w \<in> set (m_threads p)" "w \<noteq> Asleep" "\<not> terminated p"
  shows "\<exists>e q. own_event e \<and> pool_step e p q"
proof -
  from assms(1) obtain i where i: "is_worker p i w" by (auto simp: is_worker_def in_set_conv_nth)
  show ?thesis
  proof (cases w)
    case Awake
    with i assms(3) pops [of p i] sleeps [of p i] have "\<exists>e q. e \<in> range (Popped i) \<union> {Slept i} \<and> pool_step e p q"
      by (cases "queue_pop (m_queue p)") auto
    moreover have "\<forall>e \<in> range (Popped i) \<union> {Slept i}. own_event e" by auto
    ultimately show ?thesis by blast
  next
    case (Running v)
    with i assms(3) returns [of p i v] have "pool_step (Handled i v) p (put_worker p i Awake)" by simp
    then show ?thesis by (metis own_event.simps(3))
  qed (use assms(2) in simp)
qed

lemma all_asleep:
  assumes "\<forall>w \<in> set (m_threads p). w = Asleep"
  shows "running p = {#} \<and> awake p = 0"
proof -
  have "List.map_filter task_of ws = []" if "\<forall>w \<in> set ws. w = (Asleep :: 'a worker)" for ws
    using that by (induction ws) (auto simp: map_filter_simps)
  with assms show ?thesis by (auto simp: running_def awake_def filter_empty_conv)
qed
text \<open>
  C9. A pool with a thread whose handlers return runs every task it was given: from any state it can get into, its workers
  stop by themselves after a bounded number of steps, and when none of them can go on the queue is empty and every task
  that was pushed has been handled, each once.
\<close>

theorem pool_drains:
  assumes "new_pool n = Inr p" "0 < n" "event_run pool_step p es q" "\<not> terminated q"
    "event_run pool_step q fs r" "list_all own_event fs"
  shows "length fs \<le> 3 * length (m_queue q) + 2 * size (running q) + awake q \<and>
    ((\<exists>e s. own_event e \<and> pool_step e r s) \<or>
     m_queue r = [] \<and> running r = {#} \<and>
     mset (List.map_filter pushed_of (es @ fs)) = mset (List.map_filter handled_of (es @ fs)))"
proof
  have work: "length fs + work_left r \<le> work_left q \<and> \<not> terminated r" using own_run_work assms(4-6) by blast
  then show "length fs \<le> 3 * length (m_queue q) + 2 * size (running q) + awake q" by (simp add: work_left_def)
  have run: "event_run pool_step p (es @ fs) r" using assms(3,5) by (rule event_run_append)
  have inv: "wake_inv r" using run_wake_inv [OF run] new_pool_wake_inv [OF assms(1)] .
  have len: "length (m_threads r) = nat n" using run_threads [OF run] new_pool_simps(4) [OF assms(1)] by simp
  show "(\<exists>e s. own_event e \<and> pool_step e r s) \<or> m_queue r = [] \<and> running r = {#} \<and>
     mset (List.map_filter pushed_of (es @ fs)) = mset (List.map_filter handled_of (es @ fs))"
  proof (cases "\<exists>e s. own_event e \<and> pool_step e r s")
    case False
    then have idle: "\<forall>w \<in> set (m_threads r). w = Asleep" using worker_can_step work by blast
    then have "Asleep \<in> set (m_threads r)" using len assms(2) by (cases "m_threads r") auto
    with inv all_asleep [OF idle] have "m_queue r = [] \<and> running r = {#}" by (simp add: wake_inv_def)
    with pool_queue.run_in_order [OF run] run_running [OF run] new_pool_simps(1,2) [OF assms(1)]
    show ?thesis by simp
  qed blast
qed

theorem pool_drains_witness:
  "\<exists>p. new_pool 1 = Inr p \<and> event_run pool_step p [Slept 0, Pushed (7 :: nat)] (p\<lparr>m_queue := [7]\<rparr>) \<and>
    ((\<exists>e s. own_event e \<and> pool_step e (p\<lparr>m_queue := [7]\<rparr>) s) \<or> [7 :: nat] = [])"
proof -
  let ?p = "\<lparr>m_queue = [], m_threads = [Awake], terminated = False\<rparr> :: nat thread_pool"
  let ?p1 = "put_worker ?p 0 Asleep"
  have n: "new_pool 1 = Inr ?p" by (simp add: new_pool_def)
  have s1: "pool_step (Slept 0) ?p ?p1" by (rule sleeps) (simp_all add: is_worker_def queue_pop_def)
  have "pool_step (Pushed 7) ?p1 (put_worker (?p1\<lparr>m_queue := queue_push (m_queue ?p1) 7\<rparr>) 0 Awake)"
    by (rule push_wakes) (simp_all add: is_worker_def put_worker_def)
  then have s2: "pool_step (Pushed 7) ?p1 (?p\<lparr>m_queue := [7]\<rparr>)" by (simp add: put_worker_def queue_push_def)
  have r: "event_run pool_step ?p [Slept 0, Pushed 7] (?p\<lparr>m_queue := [7]\<rparr>)"
    by (rule run_event [where step = pool_step, OF s1 run_event [where step = pool_step, OF s2 run_none]])
  from pool_drains [OF n _ r _ run_none] n r show ?thesis by auto
qed

section \<open>The lock\<close>

text \<open>The threads that hold the lock. A thread that asks for a lock it holds, or gives back one it does not, breaks a
  precondition of the library; \<open>None\<close> is a thread that waits.\<close>

record RWMutex =
  writer :: "nat option"
  readers :: "nat list"

definition free_mutex :: RWMutex where
  "free_mutex = \<lparr>writer = None, readers = []\<rparr>"

definition owns :: "RWMutex \<Rightarrow> nat \<Rightarrow> bool" where
  "owns m t \<longleftrightarrow> writer m = Some t \<or> t \<in> set (readers m)"

definition read_lock :: "RWMutex \<Rightarrow> nat \<Rightarrow> RWMutex option result" where
  "read_lock m t =
     (if owns m t then Inl UndefinedBehaviour
      else Inr (if writer m \<noteq> None then None else Some (m\<lparr>readers := t # readers m\<rparr>)))"

definition read_unlock :: "RWMutex \<Rightarrow> nat \<Rightarrow> RWMutex option result" where
  "read_unlock m t =
     (if t \<notin> set (readers m) then Inl UndefinedBehaviour else Inr (Some (m\<lparr>readers := remove1 t (readers m)\<rparr>)))"

definition write_lock :: "RWMutex \<Rightarrow> nat \<Rightarrow> RWMutex option result" where
  "write_lock m t =
     (if owns m t then Inl UndefinedBehaviour
      else Inr (if writer m \<noteq> None \<or> readers m \<noteq> [] then None else Some (m\<lparr>writer := Some t\<rparr>)))"

definition write_unlock :: "RWMutex \<Rightarrow> nat \<Rightarrow> RWMutex option result" where
  "write_unlock m t = (if writer m \<noteq> Some t then Inl UndefinedBehaviour else Inr (Some (m\<lparr>writer := None\<rparr>)))"

datatype lock_mode = ForRead | ForWrite

datatype lock_event = Locked lock_mode nat | Unlocked lock_mode nat

fun lock_result :: "lock_event \<Rightarrow> RWMutex \<Rightarrow> RWMutex option result" where
  "lock_result (Locked ForRead t) m = read_lock m t"
| "lock_result (Locked ForWrite t) m = write_lock m t"
| "lock_result (Unlocked ForRead t) m = read_unlock m t"
| "lock_result (Unlocked ForWrite t) m = write_unlock m t"

definition lock_step :: "lock_event \<Rightarrow> RWMutex \<Rightarrow> RWMutex \<Rightarrow> bool" where
  "lock_step e m m' \<longleftrightarrow> lock_result e m = Inr (Some m')"

lemmas lock_defs = lock_step_def read_lock_def read_unlock_def write_lock_def write_unlock_def owns_def

definition lock_inv :: "RWMutex \<Rightarrow> bool" where
  "lock_inv m \<longleftrightarrow> distinct (readers m) \<and> (writer m \<noteq> None \<longrightarrow> readers m = [])"

lemma lock_step_inv: "lock_step e m m' \<Longrightarrow> lock_inv m \<Longrightarrow> lock_inv m'"
  by (cases "(e, m)" rule: lock_result.cases) (auto simp: lock_defs lock_inv_def split: if_splits)

lemma lock_run_inv: "event_run lock_step m es m' \<Longrightarrow> lock_inv m \<Longrightarrow> lock_inv m'"
  by (induction rule: event_run.induct) (simp_all add: lock_step_inv)

lemma writer_step: "lock_step e m m' \<Longrightarrow> writer m = Some t \<Longrightarrow> lock_inv m \<Longrightarrow> e = Unlocked ForWrite t"
  by (cases "(e, m)" rule: lock_result.cases) (auto simp: lock_defs lock_inv_def split: if_splits)

text \<open>
  Whatever threads do with the lock, it is held by readers only or by one writer; while a thread holds it for writing,
  the next thing that happens to the lock is that this thread gives it back.
\<close>

theorem lock_exclusive:
  assumes "event_run lock_step free_mutex es m"
  shows "distinct (readers m) \<and> (writer m = None \<or> readers m = []) \<and>
    (\<forall>t e m'. \<not> (writer m = Some t \<and> lock_step e m m' \<and> e \<noteq> Unlocked ForWrite t))"
proof -
  have "lock_inv m" using lock_run_inv [OF assms] by (simp add: lock_inv_def free_mutex_def)
  then show ?thesis using writer_step [of _ m] by (auto simp: lock_inv_def)
qed

theorem lock_exclusive_witness:
  "\<exists>m. event_run lock_step free_mutex [Locked ForRead 1, Locked ForRead 2, Unlocked ForRead 1] m \<and>
    writer m = None \<and> distinct (readers m)"
proof -
  have s: "lock_step (Locked ForRead 1) free_mutex \<lparr>writer = None, readers = [1]\<rparr>"
    "lock_step (Locked ForRead 2) \<lparr>writer = None, readers = [1]\<rparr> \<lparr>writer = None, readers = [2, 1]\<rparr>"
    "lock_step (Unlocked ForRead 1) \<lparr>writer = None, readers = [2, 1]\<rparr> \<lparr>writer = None, readers = [2]\<rparr>"
    by (simp_all add: lock_defs free_mutex_def)
  have r: "event_run lock_step free_mutex [Locked ForRead 1, Locked ForRead 2, Unlocked ForRead 1] \<lparr>writer = None, readers = [2]\<rparr>"
    by (rule run_event [where step = lock_step, OF s(1) run_event [where step = lock_step, OF s(2)
          run_event [where step = lock_step, OF s(3) run_none]]])
  from lock_exclusive [OF r] r show ?thesis by auto
qed
section \<open>Locks of a scope\<close>

text \<open>
  \<open>LockForRead\<close> and \<open>LockForWrite\<close> in one thread: the constructor locks, what stands in the scope runs, and the
  destructor unlocks. \<open>None\<close> again is a thread that waits for another.
\<close>

datatype scope = Scope lock_mode "scope list"

fun run_scope :: "nat \<Rightarrow> RWMutex \<Rightarrow> scope \<Rightarrow> RWMutex option result"
  and run_scopes :: "nat \<Rightarrow> RWMutex \<Rightarrow> scope list \<Rightarrow> RWMutex option result" where
  "run_scope t m (Scope mode body) =
     bind_result (lock_result (Locked mode t) m) (\<lambda>l. case l of
         None \<Rightarrow> Inr None
       | Some m1 \<Rightarrow> bind_result (run_scopes t m1 body) (\<lambda>l. case l of
             None \<Rightarrow> Inr None
           | Some m2 \<Rightarrow> lock_result (Unlocked mode t) m2))"
| "run_scopes t m [] = Inr (Some m)"
| "run_scopes t m (s # ss) =
     bind_result (run_scope t m s) (\<lambda>l. case l of None \<Rightarrow> Inr None | Some m1 \<Rightarrow> run_scopes t m1 ss)"

lemma owner_relocks: "owns m t \<Longrightarrow> lock_result (Locked mode t) m = Inl UndefinedBehaviour"
  by (cases mode) (simp_all add: read_lock_def write_lock_def)

lemma locked_owns: "lock_result (Locked mode t) m = Inr (Some m1) \<Longrightarrow> owns m1 t"
  by (cases mode) (auto simp: lock_defs split: if_splits)

lemma unlock_restores:
  "lock_result (Locked mode t) m = Inr (Some m1) \<Longrightarrow> lock_result (Unlocked mode t) m1 = Inr (Some m)"
  by (cases mode) (auto simp: lock_defs split: if_splits)

text \<open>A scope with another in it never ends well; a plain one leaves the lock as it was, or waits.\<close>

lemma run_scope_flat:
  "run_scope t m (Scope mode []) =
     (if owns m t then Inl UndefinedBehaviour
      else if lock_result (Locked mode t) m = Inr None then Inr None else Inr (Some m))"
proof (cases "owns m t")
  case False
  then obtain l where l: "lock_result (Locked mode t) m = Inr l" by (cases mode) (auto simp: read_lock_def write_lock_def)
  show ?thesis
  proof (cases l)
    case (Some m1)
    with l unlock_restores [of mode t m m1] False show ?thesis by simp
  qed (use l False in simp)
qed (simp add: owner_relocks)

lemma run_scope_nested:
  "run_scope t m (Scope mode (Scope inner body # ss)) \<in> {Inl UndefinedBehaviour, Inr None}"
proof (cases "lock_result (Locked mode t) m")
  case (Inr l)
  then show ?thesis by (cases l) (simp_all add: owner_relocks locked_owns)
qed (cases mode; simp add: read_lock_def write_lock_def split: if_splits)

declare run_scope.simps [simp del]

lemma free_scope [simp]: "run_scope t free_mutex (Scope mode []) = Inr (Some free_mutex)"
  by (simp add: run_scope_flat owns_def free_mutex_def) (cases mode; simp add: lock_defs)

text \<open>
  The locks that \<open>LocalUsers::get_user\<close> takes, with the user in the cache, only in the database or nowhere, and those of
  \<open>LocalUsers::delete_user\<close>, which informs the mods inside its scope; \<open>mods\<close> are the locks each mod's answer takes
  in this process.
\<close>

datatype lookup_place = InCache | InDatabase | Nowhere

definition get_user_scopes :: "lookup_place \<Rightarrow> scope list" where
  "get_user_scopes w =
     (case w of InDatabase \<Rightarrow> [Scope ForRead [], Scope ForWrite []] | _ \<Rightarrow> [Scope ForRead []])"

definition delete_user_scopes :: "lookup_place \<Rightarrow> scope list list \<Rightarrow> scope list" where
  "delete_user_scopes w mods =
     get_user_scopes w @ (if w = Nowhere then [] else [Scope ForWrite (concat mods)])"

lemma run_scopes_append:
  "run_scopes t m (ss @ ts) =
     bind_result (run_scopes t m ss) (\<lambda>l. case l of None \<Rightarrow> Inr None | Some m1 \<Rightarrow> run_scopes t m1 ts)"
  by (induction ss arbitrary: m) (auto simp: bind_result_def split: sum.splits option.splits)

lemma get_user_free [simp]: "run_scopes t free_mutex (get_user_scopes w) = Inr (Some free_mutex)"
  by (cases w) (simp_all add: get_user_scopes_def)

text \<open>
  C39. The deletion of a user gives the lock back when no mod asks the host for a user meanwhile. A mod that does so, as
  \<open>user_info\<close> of the host interface lets it, locks a lock that its thread holds: the behaviour is undefined.
\<close>

theorem deletion_relocks:
  assumes "w \<noteq> Nowhere"
  shows "run_scopes t free_mutex (delete_user_scopes w mods) =
    (if concat mods = [] then Inr (Some free_mutex) else Inl UndefinedBehaviour) \<and>
    run_scopes t free_mutex (delete_user_scopes w [get_user_scopes v]) = Inl UndefinedBehaviour"
proof -
  have u: "run_scopes t free_mutex (delete_user_scopes w ms) =
      (if concat ms = [] then Inr (Some free_mutex) else Inl UndefinedBehaviour)" for ms
  proof (cases "concat ms")
    case (Cons s ss)
    obtain inner body where s: "s = Scope inner body" by (cases s)
    have "run_scope t free_mutex (Scope ForWrite (concat ms)) \<noteq> Inr None"
      by (simp add: Cons s run_scope.simps owner_relocks free_mutex_def lock_defs)
    then show ?thesis using run_scope_nested [of t free_mutex ForWrite inner body ss] assms Cons s
      by (simp add: delete_user_scopes_def run_scopes_append)
  qed (use assms in \<open>simp add: delete_user_scopes_def run_scopes_append del: concat_eq_Nil_conv\<close>)
  show ?thesis using u [of mods] u [of "[get_user_scopes v]"] by (cases v) (simp_all add: get_user_scopes_def)
qed

theorem deletion_relocks_witness:
  "run_scopes 0 free_mutex (delete_user_scopes InDatabase [[], get_user_scopes InCache]) = Inl UndefinedBehaviour \<and>
   run_scopes 0 free_mutex (delete_user_scopes InCache [[], []]) = Inr (Some free_mutex)"
  using deletion_relocks [of InDatabase 0 "[[], get_user_scopes InCache]" InCache] deletion_relocks [of InCache 0 "[[], []]" InCache]
  by (simp add: get_user_scopes_def)

end
