(* ===== verification/Server.thy ===== *)
theory Server
  imports Router ModLife Threads
begin

text \<open>
  \<open>protocol/Server/Server.cpp\<close> and the rest of \<open>FIY::start\<close> (\<open>protocol/FIY.cpp\<close>): the listener, the connections it
  makes and the threads that serve them. The operations of the socket are parameters that give an error message or
  none; what the clients and the network do is a sequence of completions, each the call of one handler.

  Shown: the bounds of a configuration that was loaded; that one failed accept ends the service for new clients, while
  those connected are still served; how a start ends that cannot have its port.
\<close>

section \<open>What a configuration guarantees\<close>

text \<open>A valid port, and at least one thread, whatever the number of processors is said to be.\<close>

definition config_usable :: "FiyConfig \<Rightarrow> bool" where
  "config_usable c \<longleftrightarrow> 0 \<le> port c \<and> port c \<le> 65535 \<and> 1 \<le> concurrency c"

lemma new_config_usable: "config_usable new_config"
  by (simp add: config_usable_def new_config_def)

lemma set_concurrency_usable: "set_concurrency env c v = Inr c' \<Longrightarrow> config_usable c \<Longrightarrow> config_usable c'"
  by (auto simp: set_concurrency_def config_usable_def Let_def split: prod.splits if_splits)

lemma set_port_usable: "set_port c v = Inr c' \<Longrightarrow> config_usable c \<Longrightarrow> config_usable c'"
  by (auto simp: set_port_def bind_result_Inr_iff config_usable_def split: option.splits if_splits)

lemma set_key_usable:
  assumes "set_key env c sec key v = Inr (c', ok)" "config_usable c"
  shows "config_usable c'"
proof -
  have same: "config_usable (c\<lparr>data_dir := a\<rparr>)" "config_usable (c\<lparr>hostname := b\<rparr>)" "config_usable (c\<lparr>salt := a\<rparr>)"
    "config_usable (c\<lparr>public_key := a\<rparr>)" "config_usable (c\<lparr>private_key := b\<rparr>)" "config_usable (c\<lparr>listen_addr := a\<rparr>)"
    "config_usable (set_protocol c a)" for a b using assms(2) by (simp_all add: config_usable_def set_protocol_def)
  from assms show ?thesis
    by (auto simp: set_key_def bind_result_Inr_iff same split: if_splits intro: set_port_usable set_concurrency_usable)
qed

lemma set_keys_usable: "set_keys env c es = Inr (c', ok) \<Longrightarrow> config_usable c \<Longrightarrow> config_usable c'"
proof (induction es arbitrary: c ok)
  case (Cons e es)
  obtain sec key v where "e = (sec, key, v)" by (cases e)
  with Cons show ?case by (fastforce simp: bind_result_Inr_iff dest: set_key_usable)
qed simp

lemma cfg_error_usable [simp]: "config_usable (c\<lparr>cfg_error := b\<rparr>) = config_usable c"
  by (simp add: config_usable_def)

lemma set_defaults_usable: "set_defaults env c = Inr c' \<Longrightarrow> config_usable c \<Longrightarrow> config_usable c'"
  by (drule set_defaults_result) (auto simp: config_usable_def)

lemma from_file_usable: "from_file env c path = Inr (c', ok) \<Longrightarrow> config_usable c \<Longrightarrow> config_usable c'"
  by (auto simp: from_file_def parse_def bind_result_Inr_iff Let_def split: if_splits prod.splits
      dest!: set_keys_usable set_defaults_usable)

lemma argv_loop_usable: "argv_loop env c args = Inr (Some (c', ok)) \<Longrightarrow> config_usable c \<Longrightarrow> config_usable c'"
proof (induction args arbitrary: c)
  case (Cons a args)
  then show ?case
    by (fastforce simp: bind_result_Inr_iff Let_def split: if_splits prod.splits
        dest: set_key_usable from_file_usable set_defaults_usable)
qed (auto simp: bind_result_Inr_iff dest: set_defaults_usable)

lemma fiy_start_usable: "fiy_start env args = Inr (Serving c) \<Longrightarrow> config_usable c"
  using new_config_usable
  by (auto simp: fiy_start_def from_argv_def bind_result_Inr_iff split: option.splits prod.splits if_splits
      dest: from_file_usable argv_loop_usable)
text \<open>
  C40. Whatever the configuration file and the environment hold, a server that starts has a port that survives the
  narrowing to 16 bits and at least one thread: the pool of the mods can be made, with that many workers, and so can the
  list of the threads that run the connections.
\<close>

theorem loaded_config_usable:
  assumes "fiy_start env args = Inr (Serving c)"
  shows "port c mod 2 ^ 16 = port c \<and> 0 \<le> concurrency c - 1 \<and>
    (\<exists>p :: 'a thread_pool. new_pool (concurrency c) = Inr p \<and> length (m_threads p) = nat (concurrency c) \<and> m_threads p \<noteq> [])"
  using fiy_start_usable [OF assms] by (simp add: config_usable_def new_pool_def)

text \<open>A start from the standard file, with a port that is refused and one that is taken.\<close>

definition demo_start_env :: environment where
  "demo_start_env = \<lparr>env_file = (\<lambda>p. if p = CONFIG_FILE_PATH then Some ''x'' else None),
     env_ini = (\<lambda>p. ([([], ''data_dir'', ''/d''), ([], ''hostname'', ''fiy.org''), ([], ''port'', ''99999''), ([], ''port'', ''8080'')], False)),
     env_load_key = (\<lambda>pem. Inr ''key''), env_listen_addr = None, env_processors = 0\<rparr>"

definition demo_server_conf :: FiyConfig where
  "demo_server_conf = new_config\<lparr>data_dir := ''/d'', hostname := Some ''fiy.org'', port := 8080, private_key := Some ''key'',
     listen_addr := ''127.0.0.1'', protocol := Some PROTOCOL_HTTPS\<rparr>"

lemma demo_start: "fiy_start demo_start_env [] = Inr (Serving demo_server_conf)"
  by code_simp

theorem loaded_config_usable_witness:
  "fiy_start demo_start_env [] = Inr (Serving demo_server_conf) \<and> port demo_server_conf mod 2 ^ 16 = 8080 \<and>
   (\<exists>p :: unit thread_pool. new_pool (concurrency demo_server_conf) = Inr p \<and> m_threads p \<noteq> [])"
  using loaded_config_usable [OF demo_start, where 'a = unit] demo_start by (auto simp: demo_server_conf_def)

section \<open>The listener\<close>

record server =
  endpoint :: "string \<times> int"
  listening :: bool
  accepting :: bool
  connections :: "Session list"
  server_log :: "string list"

definition listener_fail :: "string \<Rightarrow> string \<Rightarrow> string" where
  "listener_fail message what = what @ '': '' @ message @ [NL]"

text \<open>The steps of the constructor; the first that fails is logged and ends it.\<close>

fun listener_setup :: "(string \<Rightarrow> string option) \<Rightarrow> string list \<Rightarrow> string option" where
  "listener_setup ec [] = None"
| "listener_setup ec (what # rest) =
     (case ec what of Some message \<Rightarrow> Some (listener_fail message what) | None \<Rightarrow> listener_setup ec rest)"

definition listener_steps :: "string list" where
  "listener_steps = [''open'', ''set_option'', ''bind'', ''listen'']"

definition do_accept :: "server \<Rightarrow> server" where
  "do_accept s = s\<lparr>accepting := True\<rparr>"

text \<open>\<open>Server::start\<close>: the listener is run whether or not it was set up. \<open>make_address\<close> throws for what is no address.\<close>

definition server_start :: "(string \<Rightarrow> bool) \<Rightarrow> (string \<Rightarrow> string option) \<Rightarrow> FiyConfig \<Rightarrow> server result" where
  "server_start is_address ec c =
     (if \<not> is_address (listen_addr c) then Inl RuntimeError
      else let failed = listener_setup ec listener_steps
           in Inr (do_accept \<lparr>endpoint = (listen_addr c, port c mod 2 ^ 16), listening = (failed = None),
                accepting = False, connections = [],
                server_log = (case failed of None \<Rightarrow> [] | Some line \<Rightarrow> [line])\<rparr>))"

text \<open>\<open>on_accept\<close>, with the message of an error.\<close>

definition on_accept :: "string option \<Rightarrow> server \<Rightarrow> server" where
  "on_accept ec s =
     (case ec of
        Some message \<Rightarrow> s\<lparr>accepting := False, server_log := server_log s @ [listener_fail message ''accept'']\<rparr>
      | None \<Rightarrow> do_accept (s\<lparr>connections := connections s @ [new_session]\<rparr>))"

section \<open>The service\<close>

datatype server_event = Accepted | AcceptFailed string | ReadDone nat read_result | Responded nat | WriteDone nat bool

definition put_connection :: "server \<Rightarrow> nat \<Rightarrow> Session \<Rightarrow> server" where
  "put_connection s i c = s\<lparr>connections := (connections s)[i := c]\<rparr>"

definition connection_in :: "server \<Rightarrow> nat \<Rightarrow> conn_phase \<Rightarrow> bool" where
  "connection_in s i ph \<longleftrightarrow> i < length (connections s) \<and> phase (connections s ! i) = ph"

text \<open>
  What completes: the accept that is outstanding (well only on a socket that listens), the read or the write of a
  connection, the handling of its request.
\<close>

inductive server_step :: "server_event \<Rightarrow> server \<Rightarrow> server \<Rightarrow> bool" where
  accepts: "accepting s \<Longrightarrow> listening s \<Longrightarrow> server_step Accepted s (on_accept None s)"
| accept_fails: "accepting s \<Longrightarrow> server_step (AcceptFailed message) s (on_accept (Some message) s)"
| reads: "connection_in s i Reading \<Longrightarrow>
    server_step (ReadDone i r) s (put_connection s i (on_read (connections s ! i) r))"
| responds: "connection_in s i Handling \<Longrightarrow>
    server_step (Responded i) s (put_connection s i (respond_session (connections s ! i)))"
| writes: "connection_in s i (Writing ka) \<Longrightarrow>
    server_step (WriteDone i ok) s (put_connection s i (on_write (connections s ! i) ka ok))"

inductive_cases server_step_cases: "server_step e s t"

text \<open>
  \<open>io_context::run\<close> returns when no operation is outstanding. \<open>FIY::start\<close> then leaves its scope, where
  \<open>now_tracker\<close> and the threads of \<open>v\<close> were neither joined nor detached: their destructors end the program.
\<close>

definition out_of_work :: "server \<Rightarrow> bool" where
  "out_of_work s \<longleftrightarrow> \<not> accepting s \<and> list_all (\<lambda>c. phase c \<in> {Closed, Abandoned}) (connections s)"

datatype process_end = Serves | Terminates

definition start_end :: "server \<Rightarrow> process_end" where
  "start_end s = (if out_of_work s then Terminates else Serves)"

fun is_accepted :: "server_event \<Rightarrow> bool" where
  "is_accepted Accepted = True"
| "is_accepted e = False"

fun is_accept_failed :: "server_event \<Rightarrow> bool" where
  "is_accept_failed (AcceptFailed m) = True"
| "is_accept_failed e = False"

lemmas server_defs = on_accept_def do_accept_def put_connection_def

lemma step_server:
  assumes "server_step e s t"
  shows "endpoint t = endpoint s" "listening t = listening s"
    "length (connections t) = length (connections s) + (if is_accepted e then 1 else 0)"
    "accepting t \<longleftrightarrow> accepting s \<and> \<not> is_accept_failed e" "is_accepted e \<Longrightarrow> accepting s \<and> listening s"
    "is_accept_failed e \<Longrightarrow> accepting s"
  using assms by (auto elim!: server_step_cases simp: server_defs)

lemma run_server:
  "event_run server_step s es t \<Longrightarrow>
    endpoint t = endpoint s \<and> listening t = listening s \<and>
    length (connections t) = length (connections s) + length (filter is_accepted es) \<and>
    (accepting t \<longleftrightarrow> accepting s \<and> list_all (\<lambda>e. \<not> is_accept_failed e) es)"
  by (induction rule: event_run.induct) (auto simp: step_server)

text \<open>Without an outstanding accept there is never one again; without a listening socket there is never a connection.\<close>

lemma deaf_run:
  "event_run server_step s es t \<Longrightarrow> \<not> accepting s \<Longrightarrow> list_all (\<lambda>e. \<not> is_accepted e \<and> \<not> is_accept_failed e) es"
  by (induction rule: event_run.induct) (auto dest: step_server)

lemma unbound_run:
  "event_run server_step s es t \<Longrightarrow> \<not> listening s \<Longrightarrow> connections s = [] \<Longrightarrow>
    connections t = [] \<and> list_all is_accept_failed es"
proof (induction rule: event_run.induct)
  case (run_event e s t es u)
  have "is_accept_failed e \<and> connections t = []"
    using run_event.hyps(1) run_event.prems by (auto elim!: server_step_cases simp: server_defs connection_in_def)
  with run_event step_server(2) [OF run_event.hyps(1)] show ?case by simp
qed simp

lemma listener_setup_fails: "what \<in> set steps \<Longrightarrow> ec what \<noteq> None \<Longrightarrow> listener_setup ec steps \<noteq> None"
  by (induction steps) (auto split: option.splits)
lemma after_accept_failure:
  assumes "event_run server_step s (fs @ AcceptFailed m # gs) t"
  shows "filter is_accepted gs = [] \<and> filter is_accept_failed gs = []"
proof -
  from event_run_split [OF assms] obtain u where "event_run server_step u (AcceptFailed m # gs) t" by blast
  then obtain v where v: "server_step (AcceptFailed m) u v" "event_run server_step v gs t" by (auto elim: event_run.cases)
  then show ?thesis using deaf_run [OF v(2)] step_server(4) [OF v(1)] by (simp add: list_all_iff filter_empty_conv)
qed

lemma first_accept_failure:
  assumes "\<not> list_all (\<lambda>e. \<not> is_accept_failed e) es"
  shows "\<exists>fs m gs. es = fs @ AcceptFailed m # gs \<and> filter is_accept_failed fs = []"
proof -
  from assms have "\<exists>e \<in> set es. is_accept_failed e" by (auto simp: list_all_iff)
  then obtain fs e gs where f: "es = fs @ e # gs" "is_accept_failed e" "\<forall>x \<in> set fs. \<not> is_accept_failed x"
    using split_list_first_prop by metis
  then show ?thesis by (cases e) (auto simp: filter_empty_conv)
qed

lemma accept_fails_once:
  assumes "event_run server_step s es t"
  shows "length (filter is_accept_failed es) \<le> 1"
proof (cases "list_all (\<lambda>e. \<not> is_accept_failed e) es")
  case False
  with first_accept_failure obtain fs m gs where f: "es = fs @ AcceptFailed m # gs" "filter is_accept_failed fs = []" by blast
  with after_accept_failure [OF assms [unfolded f(1)]] show ?thesis by simp
qed (simp add: list_all_iff filter_False)

text \<open>
  C37. The server keeps one accept outstanding and has a connection for each that completed, until an accept fails: after that
  no client is accepted any more, and none can fail again. The connections there are go on; when the last is closed, the
  program ends.
\<close>

theorem accept_failure_is_final:
  assumes "server_start is_address ec c = Inr s" "event_run server_step s es t"
  shows "length (connections t) = length (filter is_accepted es) \<and>
    (accepting t \<longleftrightarrow> list_all (\<lambda>e. \<not> is_accept_failed e) es) \<and> length (filter is_accept_failed es) \<le> 1 \<and>
    (\<forall>fs message gs. es = fs @ AcceptFailed message # gs \<longrightarrow> length (connections t) = length (filter is_accepted fs)) \<and>
    (start_end t = Terminates \<longrightarrow> (\<exists>message. AcceptFailed message \<in> set es))"
proof -
  have s: "accepting s" "connections s = []"
    using assms(1) by (auto simp: server_start_def do_accept_def Let_def split: if_splits)
  have run: "length (connections t) = length (filter is_accepted es)"
    "accepting t \<longleftrightarrow> list_all (\<lambda>e. \<not> is_accept_failed e) es" using run_server [OF assms(2)] s by auto
  have after: "filter is_accepted gs = [] \<and> filter is_accept_failed gs = []" if "es = fs @ AcceptFailed m # gs" for fs m gs
    using after_accept_failure assms(2) that by blast
  note accept_fails_once [OF assms(2)]
  moreover have "length (connections t) = length (filter is_accepted fs)" if "es = fs @ AcceptFailed m # gs" for fs m gs
    using run(1) after [OF that] that by simp
  moreover have "\<exists>m. AcceptFailed m \<in> set es" if "start_end t = Terminates"
    using that run(2) first_accept_failure [of es] by (auto simp: start_end_def out_of_work_def split: if_splits)
  ultimately show ?thesis using run by blast
qed

text \<open>A server that answers a client, and then runs out of file descriptors.\<close>

definition no_error :: "string \<Rightarrow> string option" where
  "no_error what = None"

definition demo_server :: server where
  "demo_server = \<lparr>endpoint = (''127.0.0.1'', 8080), listening = True, accepting = True, connections = [], server_log = []\<rparr>"

lemma demo_server_starts: "server_start (\<lambda>a. a = ''127.0.0.1'') no_error demo_server_conf = Inr demo_server"
  by (simp add: server_start_def demo_server_conf_def new_config_def demo_server_def listener_steps_def no_error_def do_accept_def)

lemma demo_server_run:
  "event_run server_step demo_server [Accepted, AcceptFailed ''full'', ReadDone 0 EndOfStream]
     (demo_server\<lparr>accepting := False, connections := [on_read new_session EndOfStream], server_log := [listener_fail ''full'' ''accept'']\<rparr>)"
proof -
  let ?s1 = "on_accept None demo_server" and ?s2 = "on_accept (Some ''full'') (on_accept None demo_server)"
  have s1: "server_step Accepted demo_server ?s1" by (rule accepts) (simp_all add: demo_server_def)
  have s2: "server_step (AcceptFailed ''full'') ?s1 ?s2" by (rule accept_fails) (simp add: server_defs)
  have s3: "server_step (ReadDone 0 EndOfStream) ?s2 (put_connection ?s2 0 (on_read (connections ?s2 ! 0) EndOfStream))"
    by (rule reads) (simp add: server_defs demo_server_def connection_in_def new_session_def)
  have "event_run server_step demo_server [Accepted, AcceptFailed ''full'', ReadDone 0 EndOfStream]
      (put_connection ?s2 0 (on_read (connections ?s2 ! 0) EndOfStream))"
    by (rule run_event [where step = server_step, OF s1 run_event [where step = server_step, OF s2
          run_event [where step = server_step, OF s3 run_none]]])
  then show ?thesis by (simp add: server_defs demo_server_def)
qed

theorem accept_failure_is_final_witness:
  "\<exists>t. event_run server_step demo_server [Accepted, AcceptFailed ''full'', ReadDone 0 EndOfStream] t \<and>
     length (connections t) = 1 \<and> \<not> accepting t \<and> start_end t = Terminates"
proof -
  let ?t = "demo_server\<lparr>accepting := False, connections := [on_read new_session EndOfStream], server_log := [listener_fail ''full'' ''accept'']\<rparr>"
  have "start_end ?t = Terminates" by (simp add: start_end_def out_of_work_def on_read_def)
  with accept_failure_is_final [OF demo_server_starts demo_server_run] demo_server_run show ?thesis by auto
qed



section \<open>The whole start\<close>

text \<open>
  \<open>FIY::start\<close> over its parts: the configuration, the mods that are found and started, the listener. A mod that does not
  start is reported and stays; everything is served from then on. \<open>start_shared\<close> stands for the connectors.
\<close>

datatype run_outcome = NotServing start_outcome | Up FiyConfig Mods server

definition fiy_run ::
  "environment \<Rightarrow> string list \<Rightarrow> (string \<Rightarrow> module_file) \<Rightarrow> string list \<Rightarrow>
   (connector \<Rightarrow> Mod \<Rightarrow> (Mod \<times> bool) result) \<Rightarrow> (string \<Rightarrow> bool) \<Rightarrow> (string \<Rightarrow> string option) \<Rightarrow> run_outcome result" where
  "fiy_run env args files dirs ipc_start is_address ec =
     bind_result (fiy_start env args) (\<lambda>r. case r of
         Serving c \<Rightarrow>
           bind_result (find_modules (data_dir c) files dirs) (\<lambda>ms.
             bind_result (start_all ipc_start (m_mods ms)) (\<lambda>(started, ok).
               bind_result (server_start is_address ec c) (\<lambda>s. Inr (Up c (ms\<lparr>m_mods := started\<rparr>) s))))
       | _ \<Rightarrow> Inr (NotServing r))"

lemma fiy_run_up:
  assumes "fiy_run env args files dirs ipc_start is_address ec = Inr (Up c ms s)"
  shows "fiy_start env args = Inr (Serving c)" "server_start is_address ec c = Inr s"
    "\<exists>found. find_modules (data_dir c) files dirs = Inr found \<and> length (m_mods ms) = length (m_mods found) \<and>
       m_mods_lookup ms = m_mods_lookup found \<and> m_mods_by_id ms = m_mods_by_id found"
proof -
  obtain r where r: "fiy_start env args = Inr r" using assms by (auto simp: fiy_run_def bind_result_Inr_iff)
  with assms have "r = Serving c \<and> server_start is_address ec c = Inr s \<and>
      (\<exists>found started ok. find_modules (data_dir c) files dirs = Inr found \<and>
        start_all ipc_start (m_mods found) = Inr (started, ok) \<and> ms = found\<lparr>m_mods := started\<rparr>)"
    by (cases r) (auto simp: fiy_run_def bind_result_Inr_iff)
  with r show "fiy_start env args = Inr (Serving c)" "server_start is_address ec c = Inr s"
    "\<exists>found. find_modules (data_dir c) files dirs = Inr found \<and> length (m_mods ms) = length (m_mods found) \<and>
       m_mods_lookup ms = m_mods_lookup found \<and> m_mods_by_id ms = m_mods_by_id found"
    using start_all_running [of ipc_start] by auto
qed

lemma found_lookups:
  assumes "find_modules data files dirs = Inr s" "get_mod s path = Some i \<or> get_mod_by_id s path = Some i"
  shows "i < length (m_mods s)"
proof -
  have s: "m_mods_lookup s = index_by_path 0 (m_mods s) Map.empty" "m_mods_by_id s = index_by_id 0 (m_mods s) Map.empty"
    using assms(1) by (auto simp: find_modules_def bind_result_Inr_iff Let_def)
  from assms(2) show ?thesis
  proof
    assume "get_mod s path = Some i"
    with index_by_path_iff [of 0 "m_mods s" Map.empty path i] s show ?thesis by (simp add: get_mod_def)
  next
    assume "get_mod_by_id s path = Some i"
    with index_by_id_iff [of 0 "m_mods s" Map.empty path i] s show ?thesis by (auto simp: get_mod_by_id_def)
  qed
qed

text \<open>A request goes to a mod only through one of the lookups.\<close>

lemma route_of_lookup:
  "mod_route_of p s r = RouteTo (Some i) uri \<Longrightarrow> \<exists>path. get_mod s path = Some i \<or> get_mod_by_id s path = Some i"
  by (auto simp: mod_route_of_def mod_by_id_route_def mod_by_path_route_def Let_def split: if_splits option.splits)

lemma sent_lookup: "mod_send_msg p s r = ToMod i uri \<Longrightarrow> \<exists>path. get_mod s path = Some i \<or> get_mod_by_id s path = Some i"
  by (auto simp: mod_send_msg_def request_mod_def split: mod_route.splits option.splits if_splits dest: route_of_lookup)

lemma reply_no_mod: "bind_result res (\<lambda>x. Inr (Reply x)) \<noteq> Inr (ToMod i uri)"
  by (cases res) simp_all

lemma handshake_no_mod: "peer_handshake p t ps body \<noteq> ToMod i uri"
  by (auto simp: peer_handshake_def Let_def split: option.splits prod.splits if_splits)

lemma routed_lookup:
  assumes "route_request p sha512 pw_salt b64 rng n ms ps us conn = Some (us', conn', Inr (ToMod i uri), j)"
  shows "\<exists>path. get_mod ms path = Some i \<or> get_mod_by_id ms path = Some i"
proof -
  have "mod_send_msg p ms (s_req conn) = ToMod i uri"
    using assms reply_no_mod handshake_no_mod unfolding route_request_def Let_def
    by (auto split: if_splits prod.splits)
  then show ?thesis by (rule sent_lookup)
qed



end
