(* ===== verification/Pages.thy ===== *)
theory Pages
  imports Router ModLife Templates
begin

text \<open>
  \<open>protocol/Server/Pages.hpp\<close> with the files behind it: \<open>util/FileCache.hpp\<close> and \<open>util/MMFile.hpp\<close>. The pages fill in
  what \<open>Router\<close> leaves open in its record \<open>portal\<close>. A static local variable is an option that the first call sets.

  Shown: what the pages of the portal say; that the home page keeps what its first visitor saw; that a mapped file gives
  back what it took, on every path, and what a moved one does.
\<close>

section \<open>Pages of the portal\<close>

text \<open>The files, the host, and \<open>nlohmann::json::dump\<close>.\<close>

record page_env =
  pe_files :: "string \<Rightarrow> string option"
  pe_data_dir :: string
  pe_hostname :: string
  pe_dump :: "json \<Rightarrow> string"

definition templates_dir :: "page_env \<Rightarrow> string" where
  "templates_dir h = pe_data_dir h @ ''/pages/''"

text \<open>\<open>FileCache::get_file_contents\<close>: a file that cannot be opened is an empty page.\<close>

definition get_file_contents :: "page_env \<Rightarrow> string \<Rightarrow> string" where
  "get_file_contents h subpath =
     (case pe_files h (templates_dir h @ subpath) of None \<Rightarrow> [] | Some contents \<Rightarrow> contents)"

text \<open>\<open>FileCache::file_contents\<close>: one static variable for each file name.\<close>

definition cached_file_contents :: "page_env \<Rightarrow> (string \<rightharpoonup> string) \<Rightarrow> string \<Rightarrow> (string \<rightharpoonup> string) \<times> string" where
  "cached_file_contents h statics subpath =
     (let contents = (case statics subpath of Some c \<Rightarrow> c | None \<Rightarrow> get_file_contents h subpath)
      in (statics(subpath \<mapsto> contents), contents))"

lemma cached_contents_stay:
  "cached_file_contents h1 st s = (st1, c) \<Longrightarrow> cached_file_contents h2 st1 s = (st1, c)"
  by (auto simp: cached_file_contents_def Let_def)

definition host_rules :: "page_env \<Rightarrow> (string \<times> string) list" where
  "host_rules h = [(''domain'', pe_hostname h), (''protocol'', ''https://'')]"

definition pre_render_host_data :: "page_env \<Rightarrow> string \<Rightarrow> string" where
  "pre_render_host_data h templ = min_ssr_mustache_variable templ (host_rules h) None"

text \<open>\<open>Pages::file_contents\<close> hides that of \<open>FileCache\<close> and keeps nothing.\<close>

definition page_contents :: "page_env \<Rightarrow> string \<Rightarrow> string" where
  "page_contents h subpath = pre_render_host_data h (get_file_contents h subpath)"

definition signup_body :: "page_env \<Rightarrow> string \<Rightarrow> string" where
  "signup_body h err = min_ssr_mustache_variable (page_contents h ''signup.html'') [(''fail_reason'', err)] None"

definition login_body :: "page_env \<Rightarrow> string \<Rightarrow> string" where
  "login_body h err = min_ssr_mustache_variable (page_contents h ''login.html'') [(''fail_reason'', err)] None"

definition local_user_json :: "LocalUser \<Rightarrow> json" where
  "local_user_json u = JObject
     [(''username'', JString (username u)), (''isAdmin'', JBool (is_admin u)), (''email'', JString (email u)),
      (''joinTs'', JNumber (of_int (joined_ts u)))]"

text \<open>The static variables of \<open>portal_apps\<close>: the list of the apps and the parsed template.\<close>

record home_statics =
  hs_mods_json :: string
  hs_template :: ParsedTemplate

definition home_rules :: "string \<Rightarrow> string \<Rightarrow> (string \<times> string) list" where
  "home_rules u ms = [(''user_data'', u), (''installed_apps'', ms)]"

definition home_statics_of :: "page_env \<Rightarrow> Mods \<Rightarrow> home_statics" where
  "home_statics_of h s =
     \<lparr>hs_mods_json = get_mods_json (pe_dump h) s,
      hs_template = parse_template (page_contents h ''home.html'') (rule_tags (home_rules [] [])) True\<rparr>"

definition portal_apps ::
  "page_env \<Rightarrow> Mods \<Rightarrow> home_statics option \<Rightarrow> LocalUser \<Rightarrow> home_statics option \<times> http_response" where
  "portal_apps h s st user =
     (let v = (case st of Some v \<Rightarrow> v | None \<Rightarrow> home_statics_of h s)
      in (Some v, html_page 200 (process (hs_template v)
           (rule_replacements (home_rules (pe_dump h (local_user_json user)) (hs_mods_json v)) None))))"

text \<open>\<open>portal_settings\<close> keeps its parsed template in the same way.\<close>

definition portal_settings :: "page_env \<Rightarrow> ParsedTemplate option \<Rightarrow> LocalUser \<Rightarrow> ParsedTemplate option \<times> string" where
  "portal_settings h st user =
     (let rules = [(''user_data'', pe_dump h (local_user_json user))];
          tp = (case st of Some tp \<Rightarrow> tp | None \<Rightarrow> parse_template (page_contents h ''settings.html'') (rule_tags rules) True)
      in (Some tp, process tp (rule_replacements rules None)))"

text \<open>The portal of \<open>Router\<close> with these pages.\<close>

definition with_pages :: "page_env \<Rightarrow> Mods \<Rightarrow> home_statics option \<Rightarrow> portal \<Rightarrow> portal" where
  "with_pages h s st p = p\<lparr>p_login_body := login_body h, p_signup_body := signup_body h,
     p_apps_body := (\<lambda>u. res_body (snd (portal_apps h s st u)))\<rparr>"

section \<open>What the pages say\<close>

lemma home_tags: "rule_tags (home_rules a b) = rule_tags (home_rules c d)"
  by (simp add: rule_tags_def home_rules_def)

lemma portal_apps_expand:
  "snd (portal_apps h s None user) = html_page 200
     (expand (rule_value (home_rules (pe_dump h (local_user_json user)) (get_mods_json (pe_dump h) s)) None)
        (page_contents h ''home.html''))"
  using mustache_expands [of "page_contents h ''home.html''" "home_rules (pe_dump h (local_user_json user)) (get_mods_json (pe_dump h) s)" None]
    home_tags [of "[]" "[]"]
  by (simp add: portal_apps_def home_statics_of_def min_ssr_mustache_def Let_def) metis

text \<open>Later visits: only the description of the user is new.\<close>

lemma portal_apps_later:
  "portal_apps h2 s2 (fst (portal_apps h1 s1 None u1)) u2 =
     (fst (portal_apps h1 s1 None u1),
      html_page 200 (expand (rule_value (home_rules (pe_dump h2 (local_user_json u2)) (get_mods_json (pe_dump h1) s1)) None)
        (page_contents h1 ''home.html'')))"
  using mustache_expands [of "page_contents h1 ''home.html''" "home_rules (pe_dump h2 (local_user_json u2)) (get_mods_json (pe_dump h1) s1)" None]
    home_tags [of "[]" "[]"]
  by (simp add: portal_apps_def home_statics_of_def min_ssr_mustache_def Let_def) metis
text \<open>A day of visits to the home page: what each visitor is shown, with the files and mods of that moment.\<close>

fun home_visits :: "home_statics option \<Rightarrow> (page_env \<times> Mods \<times> LocalUser) list \<Rightarrow> http_response list" where
  "home_visits st [] = []"
| "home_visits st ((h, s, u) # vs) = (case portal_apps h s st u of (st1, res) \<Rightarrow> res # home_visits st1 vs)"

definition home_page_of :: "page_env \<Rightarrow> Mods \<Rightarrow> page_env \<Rightarrow> LocalUser \<Rightarrow> http_response" where
  "home_page_of h s now u = html_page 200
     (expand (rule_value (home_rules (pe_dump now (local_user_json u)) (get_mods_json (pe_dump h) s)) None)
        (page_contents h ''home.html''))"

lemma later_visits:
  "home_visits (Some (home_statics_of h s)) vs = map (\<lambda>(now, _, u). home_page_of h s now u) vs"
proof (induction vs)
  case (Cons v vs)
  obtain now s2 u where v: "v = (now, s2, u)" by (cases v)
  have "fst (portal_apps h s None u) = Some (home_statics_of h s)" by (simp add: portal_apps_def Let_def)
  with portal_apps_later [of now s2 h s u u] Cons v show ?case by (simp add: home_page_of_def)
qed simp

text \<open>
  Every visitor of the home page is described as the data base has them, but the list of the apps and the page around it
  are those of the first visit after the start, whatever happened to the mods and the files since.
\<close>

theorem home_page_frozen:
  "home_visits None ((h, s, u) # vs) = map (\<lambda>(now, _, v). home_page_of h s now v) ((h, s, u) # vs)"
proof -
  have "portal_apps h s None u = (Some (home_statics_of h s), home_page_of h s h u)"
    using portal_apps_expand [of h s u] by (simp add: portal_apps_def home_page_of_def Let_def prod_eq_iff)
  then show ?thesis using later_visits [of h s vs] by simp
qed

lemma pages_say:
  "signup_page (with_pages h ms st p) code_nr err = html_page code_nr
      (expand (rule_value [(''fail_reason'', err)] None) (page_contents h ''signup.html'')) \<and>
   login_page (with_pages h ms st p) code_nr err = html_page code_nr
      (expand (rule_value [(''fail_reason'', err)] None) (page_contents h ''login.html''))"
  by (simp add: signup_page_def login_page_def with_pages_def signup_body_def login_body_def mustache_expands)

lemma portal_get_home:
  assumes "q \<in> {[], ''/''}"
  shows "portal_get p sha512 pw_salt b64 us c q =
     (case find_user_local sha512 pw_salt b64 us c of
        (us1, c1, Inl e) \<Rightarrow> (us1, c1, Inl e)
      | (us1, c1, Inr None) \<Rightarrow> (us1, c1, Inr (redirect 303 ''/portal/login''))
      | (us1, c1, Inr (Some u)) \<Rightarrow> (us1, c1, Inr (html_page 200 (p_apps_body p u))))"
proof -
  have "\<not> starts_with q (CHR ''/'' # x # xs)" for x xs using assms by (auto simp: starts_with_def)
  moreover have "q = [] \<or> q = ''/''" using assms by simp
  ultimately show ?thesis unfolding portal_get_def by (simp only: if_False if_True)
qed

text \<open>
  A request for the portal is answered with the home page of the user its session belongs to, or sent to the login page;
  the form of the sign-up and the login pages carry the reason that the router gives.
\<close>

theorem portal_home_answer:
  assumes "req_method (s_req c) = verb_get" "req_target (s_req c) \<in> {''/portal'', ''/portal/''}"
    "find_user_local sha512 pw_salt b64 us c = (us', c', Inr who)"
  shows "route_request (with_pages h ms st p) sha512 pw_salt b64 rng i s ps us c =
    Some (us', c', Inr (Reply (case who of None \<Rightarrow> redirect 303 ''/portal/login'' | Some u \<Rightarrow> snd (portal_apps h ms st u))), i) \<and>
    signup_page (with_pages h ms st p) code_nr err = html_page code_nr
      (expand (rule_value [(''fail_reason'', err)] None) (page_contents h ''signup.html'')) \<and>
    login_page (with_pages h ms st p) code_nr err = html_page code_nr
      (expand (rule_value [(''fail_reason'', err)] None) (page_contents h ''login.html''))"
proof -
  have path: "drop 7 (req_target (s_req c)) \<in> {[], ''/''}" "starts_with (req_target (s_req c)) ''/portal''"
    using assms(2) by (auto simp: starts_with_def)
  have get: "portal_get (with_pages h ms st p) sha512 pw_salt b64 us c (drop 7 (req_target (s_req c))) =
      (us', c', Inr (case who of None \<Rightarrow> redirect 303 ''/portal/login'' | Some u \<Rightarrow> snd (portal_apps h ms st u)))"
    using portal_get_home [OF path(1)] assms(3)
    by (cases who) (simp_all add: with_pages_def portal_apps_def html_page_def with_field_def respond_with_def Let_def)
  have "route_request (with_pages h ms st p) sha512 pw_salt b64 rng i s ps us c =
      Some (us', c', Inr (Reply (case who of None \<Rightarrow> redirect 303 ''/portal/login'' | Some u \<Rightarrow> snd (portal_apps h ms st u))), i)"
    using assms(1) path(2) get by (simp add: route_request_def)
  moreover note pages_say [of h ms st p code_nr err]
  ultimately show ?thesis by blast
qed

definition demo_pages :: page_env where
  "demo_pages = \<lparr>pe_files = (\<lambda>p. if p = ''/d/pages/home.html'' then Some ''{{domain}}: {{installed_apps}}'' else None),
     pe_data_dir = ''/d'', pe_hostname = ''fiy.org'', pe_dump = (\<lambda>j. [])\<rparr>"

definition demo_visit :: Session where
  "demo_visit = (demo_get ''/portal'')\<lparr>m_cookies := [''fiy_auth'' \<mapsto> get_token_string [1, 2]]\<rparr>"

theorem portal_home_answer_witness:
  "route_request (with_pages demo_pages demo_mods None demo_portal) demo_hash ''.salt'' id (\<lambda>_. []) 0 demo_mods no_peers
     demo_session demo_visit =
   Some (demo_session, demo_visit, Inr (Reply (snd (portal_apps demo_pages demo_mods None (user_of_row ''alice'' demo_row)))), 0)"
proof -
  have "find_user_local demo_hash ''.salt'' id demo_session demo_visit =
      (demo_session, demo_visit, Inr (Some (user_of_row ''alice'' demo_row)))"
    by (simp add: find_user_local_def get_cookies_def demo_visit_def auth_user_token_def demo_session_def demo_token_def
        new_auth_token_def Let_def)
  from portal_home_answer [OF _ _ this, of demo_pages demo_mods None demo_portal "\<lambda>_. []" 0 demo_mods no_peers]
  show ?thesis by (simp add: demo_visit_def demo_get_def)
qed

section \<open>Mapped files\<close>

text \<open>The descriptors that are open and the mappings, by address and size; the system picks fresh ones.\<close>

record os_state =
  open_fds :: "nat list"
  mappings :: "(nat \<times> nat) list"

record mm_file =
  mm_size :: nat
  mm_data :: nat
  mm_fd :: nat

record os_env =
  oe_size :: "string \<Rightarrow> nat option"
  oe_fd :: "os_state \<Rightarrow> nat"
  oe_mmap :: "os_state \<Rightarrow> nat \<Rightarrow> int \<Rightarrow> nat option"

definition close_fd :: "nat \<Rightarrow> os_state \<Rightarrow> os_state" where
  "close_fd fd os = os\<lparr>open_fds := remove1 fd (open_fds os)\<rparr>"

definition munmap :: "nat \<times> nat \<Rightarrow> os_state \<Rightarrow> os_state" where
  "munmap m os = os\<lparr>mappings := remove1 m (mappings os)\<rparr>"

text \<open>\<open>lseek(fd, offset, SEEK_END)\<close>, as a \<open>size_t\<close>; before the start of the file it is -1.\<close>

definition seek_end :: "nat \<Rightarrow> int \<Rightarrow> nat" where
  "seek_end len offset = (if int len + offset < 0 then 2 ^ 64 - 1 else nat (int len + offset))"

definition mm_open :: "os_env \<Rightarrow> string \<Rightarrow> int \<Rightarrow> os_state \<Rightarrow> os_state \<times> mm_file result" where
  "mm_open env path offset os =
     (case oe_size env path of
        None \<Rightarrow> (os, Inl RuntimeError)
      | Some len \<Rightarrow>
          (let fd = oe_fd env os; os1 = os\<lparr>open_fds := fd # open_fds os\<rparr>; n = seek_end len offset
           in if n = 0 then (close_fd fd os1, Inl RuntimeError)
              else case oe_mmap env os1 n offset of
                     None \<Rightarrow> (close_fd fd os1, Inl RuntimeError)
                   | Some a \<Rightarrow> (os1\<lparr>mappings := (a, n) # mappings os1\<rparr>, Inr \<lparr>mm_size = n, mm_data = a, mm_fd = fd\<rparr>)))"

definition mm_destroy :: "mm_file \<Rightarrow> os_state \<Rightarrow> os_state" where
  "mm_destroy f os = close_fd (mm_fd f) (munmap (mm_data f, mm_size f) os)"

text \<open>The defaulted move constructor copies the three members and leaves them as they are.\<close>

definition mm_move :: "mm_file \<Rightarrow> mm_file \<times> mm_file" where
  "mm_move f = (f, f)"

definition mm_readable :: "os_state \<Rightarrow> mm_file \<Rightarrow> bool" where
  "mm_readable os f \<longleftrightarrow> (mm_data f, mm_size f) \<in> set (mappings os)"

lemma munmap_absent: "m \<notin> set (mappings s) \<Longrightarrow> s\<lparr>mappings := remove1 m (mappings s)\<rparr> = s"
  by (cases s) (simp add: remove1_idem)

text \<open>
  Opening a mapped file keeps nothing when it fails, and what it keeps when it succeeds its destructor gives back. A file
  that was moved breaks this: when the one it was moved from is destroyed, its mapping is gone and its descriptor closed;
  when it is destroyed itself, a descriptor that was opened meanwhile and got the same number is closed with it.
\<close>

theorem mm_file_balanced:
  assumes "mm_open env path offset os = (os1, r)"
    "\<And>s n k a. oe_mmap env s n k = Some a \<Longrightarrow> a \<notin> fst ` set (mappings s)"
  shows "case r of Inl e \<Rightarrow> os1 = os \<and> e = RuntimeError
    | Inr f \<Rightarrow> mm_destroy f os1 = os \<and> mm_size f > 0 \<and> mm_readable os1 f \<and>
        (case mm_move f of (there, here) \<Rightarrow>
           \<not> mm_readable (mm_destroy there os1) here \<and>
           (\<forall>os2. mm_readable os2 here \<or> mm_destroy here (os2\<lparr>open_fds := mm_fd f # open_fds os2\<rparr>) = os2))"
proof (cases r)
  case (Inl e)
  with assms(1) show ?thesis by (auto simp: mm_open_def close_fd_def Let_def split: option.splits if_splits)
next
  case (Inr f)
  with assms(1) obtain a n fd where f: "f = \<lparr>mm_size = n, mm_data = a, mm_fd = fd\<rparr>" "0 < n"
    "oe_mmap env (os\<lparr>open_fds := fd # open_fds os\<rparr>) n offset = Some a"
    "os1 = os\<lparr>open_fds := fd # open_fds os, mappings := (a, n) # mappings os\<rparr>"
    by (auto simp: mm_open_def Let_def split: option.splits if_splits)
  have "(a, n) \<notin> set (mappings os)" using assms(2) [OF f(3)] by force
  moreover have "(a, n) \<in> set (mappings os2) \<or> os2\<lparr>mappings := remove1 (a, n) (mappings os2)\<rparr> = os2" for os2 :: os_state
    using munmap_absent by blast
  ultimately show ?thesis using f(1,2,4) Inr
    by (simp add: mm_destroy_def close_fd_def munmap_def mm_move_def mm_readable_def)
qed

definition demo_os :: os_env where
  "demo_os = \<lparr>oe_size = (\<lambda>p. if p = ''a'' then Some 5 else None), oe_fd = (\<lambda>os. 3), oe_mmap = (\<lambda>os n off. if mappings os = [] then Some 4096 else None)\<rparr>"

theorem mm_file_balanced_witness:
  "\<exists>os1 f. mm_open demo_os ''a'' 0 \<lparr>open_fds = [2], mappings = []\<rparr> = (os1, Inr f) \<and> open_fds os1 = [3, 2] \<and> mm_size f = 5 \<and>
     mm_destroy f os1 = \<lparr>open_fds = [2], mappings = []\<rparr>"
proof -
  let ?f = "\<lparr>mm_size = 5, mm_data = 4096, mm_fd = 3\<rparr>" and ?os = "\<lparr>open_fds = [3, 2], mappings = [(4096, 5)]\<rparr>"
  have o: "mm_open demo_os ''a'' 0 \<lparr>open_fds = [2], mappings = []\<rparr> = (?os, Inr ?f)"
    by (simp add: mm_open_def demo_os_def seek_end_def)
  have "\<And>s n k a. oe_mmap demo_os s n k = Some a \<Longrightarrow> a \<notin> fst ` set (mappings s)" by (simp add: demo_os_def split: if_splits)
  from mm_file_balanced [OF o this] o show ?thesis by simp
qed

end
