(* ===== verification/Spec2Isabelle.thy ===== *)
theory Spec2Isabelle
  imports FiyPrelude LruCache WebUtils Tokens Http LocalUsers FiyApi Peers Config Session Mods ModLife
    ModConnectors Router Templates Mime ModRouter Paths StaticMod HttpClients Repos Calendar
    GitSearch GitContent GitRoutes Cdn VCard Contacts ContactRoutes Runs Mail Instance CdnSession Crypto
    Threads Server Pages
begin

text \<open>
  FIY is a self-hosted web server in C++ that runs \<^emph>\<open>mods\<close> (applications) for the accounts of one
  instance and lets instances talk to each other. This development models the server process (the
  directory \<open>protocol/\<close>), the utilities of \<open>util/\<close> and the C++ interface of mods in \<open>modlib/\<close>
  that it rests on, and the mods for static files, git repositories, storage, contacts and mail under \<open>mods/\<close>.

  \<^bold>\<open>How the parts work together.\<close> A \<open>Session\<close> reads a request from a connection. \<open>route_request\<close> of
  \<open>Server/Router.cpp\<close> answers it from the portal (sign-up and login over \<open>LocalUsers\<close>), from the
  federation interface (handshakes over \<open>Peers\<close>), or hands it to the mod that \<open>Mods\<close> finds for its
  path. The mod's connector asks the session who the user is (session cookie, Basic authentication,
  or the bearer token of a peer), checks the mod's access restriction and passes the request to a
  shared library or to another process. Mods read requests and build answers with the classes of
  \<open>fiymod.hpp\<close>, and send requests to mods of other instances through \<open>Peers::request_peer\<close>, which uses
  the HTTP clients. The git mod passes a request through its routers in turn; they look repositories up in
  a cache of open ones, check who may read or write, and answer with a page, with JSON, or with what
  \<open>git http-backend\<close> writes. The contacts mod keeps cards in four tables and shows them as vCard texts, each
  property to those whose trust level its visibility reaches.

  \<^bold>\<open>Theories and sources: the server.\<close>
  \<^item> \<^theory_text>\<open>FiyPrelude\<close>: errors, byte strings with \<open>npos\<close> as \<open>None\<close>, character classes, decimal numbers.
  \<^item> \<^theory_text>\<open>LruCache\<close> (\<open>util/LRUCache.hpp\<close>): list nodes with addresses, and a map from keys to
    addresses; operations \<open>lru_get\<close>, \<open>lru_set\<close>, \<open>lru_drop\<close>. It refines a bounded list in order of use.
  \<^item> \<^theory_text>\<open>WebUtils\<close> (\<open>util/WebUtils.cpp\<close>, \<open>.hpp\<close>): percent coding, forms, cookies, query strings; the
    lemmas are round trips, and what a cookie may contain.
  \<^item> \<^theory_text>\<open>Tokens\<close> (\<open>util/Crypto.hpp\<close>): random tokens, the loop that draws an unused one, and the
    locale \<open>token_table\<close> that the tables of sessions, peers and network connectors interpret.
  \<^item> \<^theory_text>\<open>Crypto\<close> (\<open>util/Crypto.cpp\<close>): encryption and signatures over the calls of OpenSSL.
  \<^item> \<^theory_text>\<open>Http\<close> (\<open>protocol/Server/util.hpp\<close>): messages, and the conversion of header blocks.
  \<^item> \<^theory_text>\<open>LocalUsers\<close> (\<open>protocol/users\<close>): accounts and sessions; the invariant \<open>users_inv\<close> holds in
    every state reachable by sign-up, login, logout, deletion, clean-up and database faults.
  \<^item> \<^theory_text>\<open>FiyApi\<close> (\<open>modlib/fiymod.h\<close>, \<open>fiymod.hpp\<close>): requests, responses, bodies, user strings, the
    two header readers, query parameters.
  \<^item> \<^theory_text>\<open>Peers\<close> (\<open>protocol/peers\<close>): other instances. Each callback of an exchange is an operation
    of its own; \<open>peers_reachable\<close> allows every interleaving of them.
  \<^item> \<^theory_text>\<open>Config\<close> (\<open>protocol/Config.cpp\<close>, \<open>.hpp\<close>, \<open>FIY.cpp\<close>): configuration and the decision to start.
  \<^item> \<^theory_text>\<open>Session\<close> (\<open>protocol/Server/Session.cpp\<close>, \<open>.hpp\<close>): the connection and \<open>find_user\<close>.
  \<^item> \<^theory_text>\<open>Mods\<close> and \<^theory_text>\<open>ModLife\<close> (\<open>util/Version.hpp\<close>, \<open>protocol/mods/Mod.*\<close>, \<open>Mods.*\<close>): loading mods from
    \<open>module.json\<close>, access restrictions, lookups; writing \<open>module.json\<close> back, start and stop.
  \<^item> \<^theory_text>\<open>ModConnectors\<close> (\<open>protocol/mods/ModConnectorDll.*\<close>, \<open>ModConnectorNet.*\<close>): how requests, answers
    and life-cycle calls reach a mod.
  \<^item> \<^theory_text>\<open>Router\<close> (\<open>protocol/Server/Router.cpp\<close>): the routes and their handlers.
  \<^item> \<^theory_text>\<open>Pages\<close> (\<open>protocol/Server/Pages.hpp\<close>, \<open>util/FileCache.hpp\<close>, \<open>util/MMFile.hpp\<close>): the pages of the portal, with the
    static variables that keep what the first visitor saw, and mapped files.
  \<^item> \<^theory_text>\<open>Threads\<close> (\<open>util/ThreadPool.hpp\<close>, \<open>util/RWMutex.hpp\<close>): the pool that runs the handlers of the mods, as a step
    relation over its critical sections; the invariant \<open>wake_inv\<close> says that no wake-up is lost. The lock and its scopes.
  \<^item> \<^theory_text>\<open>Server\<close> (\<open>protocol/Server/Server.cpp\<close>, \<open>FIY.cpp\<close>): the whole start, the listener and its connections as a step
    relation over completions; what a loaded configuration guarantees.
  \<^item> \<^theory_text>\<open>HttpClients\<close> (\<open>protocol/HttpClient.hpp\<close>, \<open>HttpsClient.hpp\<close>): the two clients as step relations over
    the completions of their operations; which host they connect to, and that they call back.

  \<^bold>\<open>Theories and sources: pages and mods.\<close>
  \<^item> \<^theory_text>\<open>Templates\<close> (\<open>util/MinSSR.hpp\<close>, \<open>FileCache.hpp\<close>): expansion of templates, directly and parsed, escaping.
  \<^item> \<^theory_text>\<open>Mime\<close> (\<open>util/mime.cpp\<close>): the table of extensions, entry by entry.
  \<^item> \<^theory_text>\<open>ModRouter\<close> (\<open>modlib/Router.hpp\<close>): routes with parameters, for mods.
  \<^item> \<^theory_text>\<open>Paths\<close> and \<^theory_text>\<open>StaticMod\<close> (\<open>mods/static/mod.cpp\<close>): resolution of paths with links, and the static file mod.
  \<^item> \<^theory_text>\<open>Repos\<close> (\<open>mods/git/src/Repos/BasicRepo.*\<close>, \<open>LocalRepo.*\<close>): names of repositories, access, creation and
    the cache of open repositories, with objects that live as long as they are referred to.
  \<^item> \<^theory_text>\<open>GitSearch\<close> (\<open>DB.hpp\<close>, \<open>Repos/RepoSearch.*\<close>, the search in \<open>Routes/ApiRouter.hpp\<close>): statements that are put
    together at run time, with the values bound to them.
  \<^item> \<^theory_text>\<open>GitContent\<close> (\<open>Repos/GitRepo.*\<close>, \<open>GitUser.*\<close>, \<open>DTO/DTORepo.*\<close>, \<open>Routes/Pages.*\<close>, \<open>RepoPageData.*\<close>): commits,
    files, transfer objects and pages of a repository.
  \<^item> \<^theory_text>\<open>GitRoutes\<close> (\<open>Routes/*.hpp\<close>, \<open>Router.cpp\<close>, \<open>Repos/git_http_backend.hpp\<close>, \<open>util/CGI.hpp\<close>): the handlers of the
    git mod; a handler returns the list of what it does.
  \<^item> \<^theory_text>\<open>Cdn\<close> (\<open>mods/storage/cdn/main.cpp\<close>): the storage server, its tables, files and tokens;
    \<^theory_text>\<open>CdnSession\<close>: its connections.
  \<^item> \<^theory_text>\<open>VCard\<close>, \<^theory_text>\<open>Contacts\<close> and \<^theory_text>\<open>ContactRoutes\<close> (\<open>mods/contacts/src\<close>): the text of a card, written and read
    (\<open>Contact.*\<close>); the tables of cards, properties and links, which refine a map of cards (\<open>DB.*\<close>); the requests
    (\<open>mod.cpp\<close>, \<open>Pages.hpp\<close>), over runs of which nobody else touches a card.
  \<^item> \<^theory_text>\<open>Mail\<close> (\<open>mods/mail\<close>): the box of the mail mod and its requests, on top of the connector's \<open>request_impl\<close>.
  \<^item> \<^theory_text>\<open>Instance\<close>: what the server tells a mod about itself, and what the mods do when an account is deleted; the
    properties about both stand at the end of this file.
  \<^item> \<^theory_text>\<open>Runs\<close>: runs of events, and the locale \<open>owned_store\<close> that the contacts and the mail mod interpret.
  \<^item> \<^theory_text>\<open>Calendar\<close>: dates and days since 1970, as \<open>gmtime\<close>, \<open>strftime\<close> and \<open>mktime\<close> have them.

  \<^bold>\<open>Conventions.\<close> A class is a record, its methods are functions that return the new state; a pointer
  that may be null is an option, a mod is an index into the list of mods. An exception, or behaviour
  the standard leaves undefined, is \<open>Inl\<close> of a \<^typ>\<open>cxx_error\<close>. Code outside the repository is a
  parameter: SHA-512, HMAC, signatures, base64, random numbers, the clock, the JSON and INI
  parsers, the dynamic loader, the query parser of Boost.URL, libgit2 and the programs of git. A table of
  SQLite is a list of rows or a map; a statement that the database refuses is an exception. The message container
  of Boost.Beast is a list of fields with its documented operations. The operations of the components are
  atomic, as their locks make them, and interleave; the locks themselves are modelled where a thread can wait
  for itself (the cache of repositories, \<open>LocalUsers::delete_user\<close>), the pool of threads on its own.

  \<^bold>\<open>Loops that may not end.\<close> These are partial functions into option, where \<open>None\<close> is a loop that never ends:
  drawing an unused token (\<open>draw_fresh_returns\<close> shows that it ends once an unused token is drawn),
  \<open>replace_loop\<close>, \<open>file_mustache_loop\<close>, \<open>parse_route_loop\<close> and \<open>search_loop\<close>; a theorem shows of each when it
  returns, or that it does not. \<open>parse_query_loop\<close> has fuel, because the loop of the source does not end on every
  query: the theorem about it holds for any fuel. \<open>add_peer_loop\<close> counts the ten tries of the source. Every
  other loop is a total function.

  \<^bold>\<open>What is shown.\<close> Each property has its number in the text before it. The first group are the
  promises of the components: sessions and bearer tokens belong to accounts and peers that exist,
  caches and codings lose nothing, requests reach their mods and are answered, files and repositories go to those
  who may have them, accounts are created and deleted completely. The second are places where the code does
  something else than it means to, proved from the same definitions.

  \<^bold>\<open>Not modelled.\<close> What Boost.Asio does between two completions, signals, the listener of the storage mod, the
  wrappers of SQLite, pipes and processes, logging, the clock thread and the restart of the server,
  \<open>util/Pool.hpp\<close> (a template that nothing instantiates and that would not compile), the fields of messages that only concern the transport, the installation time of a mod, what libgit2 does
  inside a repository, and the mods for OAuth, notifications and reverse proxying, which do not do anything yet.
\<close>

section \<open>Properties across components\<close>



text \<open>
  A mod takes the address of its instance from the information that its connector gives it, and gets it right: whatever the
  path of the mod, \<open>host_base_uri\<close> of the library is \<open>base_uri\<close> of the server, for a configuration whose protocol is one of
  the two that \<open>set_protocol\<close> knows.
\<close>

theorem host_base_uri_is_base_uri:
  assumes "protocol c = Some PROTOCOL_HTTP \<or> protocol c = Some PROTOCOL_HTTPS" "hostname c = Some h"
  shows "bind_result (dll_host_info c m) (\<lambda>hi. host_uri (hi_base_uri hi) (hi_domain hi)) = base_uri c"
  using assms by (auto simp: dll_host_info_def host_uri_def base_uri_def PROTOCOL_HTTP_def PROTOCOL_HTTPS_def)

lemma host_base_uri_is_base_uri_witness:
  "bind_result (dll_host_info (new_config\<lparr>protocol := Some PROTOCOL_HTTPS, hostname := Some ''a.b''\<rparr>) (new_mod ''git''))
     (\<lambda>hi. host_uri (hi_base_uri hi) (hi_domain hi)) = Inr ''https://a.b''"
  using host_base_uri_is_base_uri [of "new_config\<lparr>protocol := Some PROTOCOL_HTTPS, hostname := Some ''a.b''\<rparr>" "''a.b''" "new_mod ''git''"]
  by (simp add: base_uri_def PROTOCOL_HTTPS_def)

end
